(* ===== verification/Prelude.thy ===== *)
theory Prelude imports Main "HOL-Library.Word" "HOL-Library.Sublist" begin

text \<open>
  Shared vocabulary of the development.

  A Go \<open>string\<close> or \<open>[]byte\<close> is a HOL \<open>string\<close>: a list of \<open>char\<close>, and a \<open>char\<close> is exactly
  one byte.  A Go \<open>int64\<close> is a \<open>64 word\<close> read with \<open>sint\<close>.  A Go pair of a value and an
  \<open>error\<close> is a sum, \<open>Inl\<close> the error and \<open>Inr\<close> the value.

  The lemmas collected here are the generic facts on lists, prefixes and signed words that
  the component theories share.
\<close>

named_theorems go_text \<open>unfolding rules of the string library\<close>
named_theorems conv_keeps \<open>operations that keep the conversation invariant\<close>
named_theorems reader_simps \<open>how the byte readers move\<close>

type_synonym int64 = "64 word"
type_synonym ('e, 'a) result = "'e + 'a"

section \<open>Signed 64-bit integers\<close>

definition max_int64 :: int64 where
  "max_int64 = 0x7FFFFFFFFFFFFFFF"

definition int64_len :: "'a list \<Rightarrow> int64" where
  "int64_len xs = of_nat (length xs)"

lemma sint_max_int64 [simp]: "sint max_int64 = 2 ^ 63 - 1"
  by (simp add: max_int64_def)

lemma sint64_bounds: "- (2 ^ 63) \<le> sint (a :: int64)" "sint (a :: int64) < 2 ^ 63"
  using sint_range_size [of a] by (simp_all add: word_size)

lemma sint64_of_int:
  assumes "- (2 ^ 63) \<le> i" and "i < 2 ^ 63"
  shows "sint (word_of_int i :: int64) = i"
  using assms by (simp add: signed_of_int signed_take_bit_int_eq_self)

lemma sint64_add:
  assumes "- (2 ^ 63) \<le> sint a + sint b" and "sint a + sint b < 2 ^ 63"
  shows "sint (a + b :: int64) = sint a + sint b"
proof -
  have "a + b = word_of_int (sint a + sint b)"
    by simp
  then show ?thesis
    using sint64_of_int [OF assms] by simp
qed

lemma sint64_sub:
  assumes "- (2 ^ 63) \<le> sint a - sint b" and "sint a - sint b < 2 ^ 63"
  shows "sint (a - b :: int64) = sint a - sint b"
proof -
  have "a - b = word_of_int (sint a - sint b)"
    by simp
  then show ?thesis
    using sint64_of_int [OF assms] by simp
qed

lemma sint64_len:
  assumes "length xs < 2 ^ 63"
  shows "sint (int64_len xs) = int (length xs)"
proof -
  have "int (length xs) < 2 ^ 63"
    using assms by simp
  then have "sint (word_of_int (int (length xs)) :: int64) = int (length xs)"
    by (intro sint64_of_int) auto
  then show ?thesis
    by (simp add: int64_len_def)
qed

section \<open>Lists, prefixes and suffixes\<close>

lemma drop_less_length [simp]: "0 < k \<Longrightarrow> xs \<noteq> [] \<Longrightarrow> length (drop k xs) < length xs"
  by (cases xs) auto

lemma take_eq_prefix: "take (length p) s = p \<longleftrightarrow> prefix p s"
  by (metis append_eq_conv_conj prefix_def take_is_prefix)

lemma prefix_append_cases:
  assumes "prefix p (a @ b)"
  shows "prefix p a \<or> (\<exists>q. p = a @ q \<and> prefix q b)"
  using assms by (auto simp: prefix_append)

lemma sum_list_map_drop_le:
  fixes f :: "'a \<Rightarrow> nat"
  shows "sum_list (map f (drop k xs)) \<le> sum_list (map f xs)"
  by (induction xs arbitrary: k) (auto simp: drop_Cons' trans_le_add2)

section \<open>Step relations\<close>

text \<open>A predicate every step keeps is kept by every run.\<close>

locale stable =
  fixes step :: "'s \<Rightarrow> 's \<Rightarrow> bool" and P :: "'s \<Rightarrow> bool"
  assumes keeps: "step s s' \<Longrightarrow> P s \<Longrightarrow> P s'"
begin

lemma run_keeps: "step\<^sup>*\<^sup>* s s' \<Longrightarrow> P s \<Longrightarrow> P s'"
  by (induction rule: rtranclp_induct) (auto intro: keeps)

end

end
