(* ===== verification/TurnStore.thy ===== *)
theory TurnStore imports Prelude begin

text \<open>
  The interface under which the REPL uses a conversation: stage a user line, then either commit
  the assistant's reply or abort, and clear on request.

  \<open>run_turns\<close> performs whole turns and keeps, beside the store, the log of every answered exchange
  since the last reset.  The contract of the store is that its history is at all times a recent
  window of that log: failed turns leave no trace, old exchanges may only be dropped from the
  front, and nothing is reordered or altered.
\<close>

datatype 'r turn = Say string "'r \<Rightarrow> string option" | Reset

type_synonym exchange = "string \<times> string"

fun run_turn ::
  "('s \<Rightarrow> string \<Rightarrow> ('e + 'r) \<times> 's) \<Rightarrow> ('s \<Rightarrow> string \<Rightarrow> 'e option \<times> 's) \<Rightarrow> ('s \<Rightarrow> 's) \<Rightarrow> ('s \<Rightarrow> 's)
     \<Rightarrow> 'r turn \<Rightarrow> 's \<times> exchange list \<Rightarrow> 's \<times> exchange list" where
  "run_turn stage commit abort clear Reset (s, log) = (clear s, [])"
| "run_turn stage commit abort clear (Say u answer) (s, log) =
     (case stage s u of
        (Inl e, s') \<Rightarrow> (s', log)
      | (Inr r, s') \<Rightarrow>
          (case answer r of
             None \<Rightarrow> (abort s', log)
           | Some a \<Rightarrow> (snd (commit s' a), log @ [(u, a)])))"

definition run_turns ::
  "('s \<Rightarrow> string \<Rightarrow> ('e + 'r) \<times> 's) \<Rightarrow> ('s \<Rightarrow> string \<Rightarrow> 'e option \<times> 's) \<Rightarrow> ('s \<Rightarrow> 's) \<Rightarrow> ('s \<Rightarrow> 's)
     \<Rightarrow> 'r turn list \<Rightarrow> 's \<times> exchange list \<Rightarrow> 's \<times> exchange list" where
  "run_turns stage commit abort clear ts = fold (run_turn stage commit abort clear) ts"

locale turn_store =
  fixes stage :: "'s \<Rightarrow> string \<Rightarrow> ('e + 'r) \<times> 's"
    and commit :: "'s \<Rightarrow> string \<Rightarrow> 'e option \<times> 's"
    and abort :: "'s \<Rightarrow> 's"
    and clear :: "'s \<Rightarrow> 's"
    and exchanges_of :: "'s \<Rightarrow> exchange list"
    and pending :: "'s \<Rightarrow> string option"
    and inv :: "'s \<Rightarrow> bool"
  assumes stage_fails: "stage s u = (Inl e, s') \<Longrightarrow> s' = s"
    and stage_busy: "pending s \<noteq> None \<Longrightarrow> \<exists>e. stage s u = (Inl e, s)"
    and stage_ok: "inv s \<Longrightarrow> stage s u = (Inr r, s') \<Longrightarrow>
      inv s' \<and> exchanges_of s' = exchanges_of s \<and> pending s' = Some u"
    and commit_ok: "inv s \<Longrightarrow> pending s = Some u \<Longrightarrow> commit s a = (err, s') \<Longrightarrow>
      err = None \<and> inv s' \<and> pending s' = None \<and>
      (\<exists>k. exchanges_of s' = drop k (exchanges_of s) @ [(u, a)])"
    and commit_idle: "pending s = None \<Longrightarrow> \<exists>e. commit s a = (Some e, s)"
    and abort_ok: "inv s \<Longrightarrow>
      inv (abort s) \<and> exchanges_of (abort s) = exchanges_of s \<and> pending (abort s) = None"
    and clear_ok: "inv s \<Longrightarrow> inv (clear s) \<and> exchanges_of (clear s) = [] \<and> pending (clear s) = None"
begin

definition window :: "'s \<times> exchange list \<Rightarrow> bool" where
  "window sl \<longleftrightarrow> inv (fst sl) \<and> pending (fst sl) = None \<and> suffix (exchanges_of (fst sl)) (snd sl)"

lemma suffix_drop_trans: "suffix h l \<Longrightarrow> suffix (drop k h) l"
  by (meson suffix_drop suffix_order.trans)

lemma run_turn_window:
  assumes "window sl"
  shows "window (run_turn stage commit abort clear t sl)"
proof (cases t)
  case Reset
  with assms show ?thesis
    by (cases sl) (auto simp: window_def clear_ok)
next
  case (Say u answer)
  obtain s l where sl: "sl = (s, l)" by (cases sl)
  from assms sl have s: "inv s" "pending s = None" "suffix (exchanges_of s) l"
    by (auto simp: window_def)
  obtain res s' where st: "stage s u = (res, s')" by (cases "stage s u")
  show ?thesis
  proof (cases res)
    case (Inl e)
    with st s Say sl stage_fails show ?thesis by (auto simp: window_def)
  next
    case (Inr r)
    with st s have s': "inv s'" "exchanges_of s' = exchanges_of s" "pending s' = Some u"
      using stage_ok by blast+
    show ?thesis
    proof (cases "answer r")
      case None
      with Say sl st Inr s s' show ?thesis
        using abort_ok [of s'] by (simp add: window_def)
    next
      case (Some a)
      obtain e s'' where c: "commit s' a = (e, s'')" by (cases "commit s' a")
      obtain k where "inv s''" "pending s'' = None"
        "exchanges_of s'' = drop k (exchanges_of s) @ [(u, a)]"
        using commit_ok [OF s'(1) s'(3) c] s'(2) by auto
      with Some Say sl st Inr c s(3) show ?thesis
        by (simp add: window_def suffix_drop_trans)
    qed
  qed
qed

lemma run_turns_window: "window sl \<Longrightarrow> window (run_turns stage commit abort clear ts sl)"
proof (induction ts arbitrary: sl)
  case (Cons t ts)
  then show ?case
    using run_turn_window [of sl t] by (simp add: run_turns_def)
qed (simp add: run_turns_def)

text \<open>A turn whose stream fails, or that is refused, leaves the store as it was.\<close>

lemma failed_turn_keeps:
  assumes "inv s" and "pending s = None" and "\<And>r. answer r = None"
  shows "exchanges_of (fst (run_turn stage commit abort clear (Say u answer) (s, l))) = exchanges_of s"
proof (cases "stage s u")
  case (Pair res s')
  with assms show ?thesis
    using stage_fails stage_ok abort_ok by (cases res) fastforce+
qed

end

end
