(* ===== verification/Chat.thy ===== *)
theory Chat imports TurnStore begin

text \<open>
  \<open>internal/chat/conversation.go\<close>: the in-memory conversation, its context budget and the
  stage / commit / abort protocol of a turn.

  A \<open>Conversation\<close> is a record; every method takes it and returns it updated.  Unit counts are
  \<open>int64\<close> words with the source's overflow tests.  The second half gives the abstract view (pairs of
  a user and an assistant message), the invariant, the interface \<open>turn_store\<close> under which the REPL
  uses a conversation, and the abstract run over lists of exchanges that whole turns refine.
\<close>

section \<open>Messages and budget units\<close>

record message =
  Role :: string
  Content :: string

datatype chat_error =
    AlreadyStaged        \<comment> \<open>a turn is already staged; commit or abort it first\<close>
  | DoesNotFit           \<comment> \<open>message does not fit in context_budget ...\<close>
  | NotPositive          \<comment> \<open>context_budget and generation_reserve must be positive\<close>
  | UnitOverflow         \<comment> \<open>context accounting overflow\<close>
  | NothingStaged        \<comment> \<open>no staged turn to commit\<close>

definition PerMessage :: int64 where "PerMessage = 32"
definition PerRequest :: int64 where "PerRequest = 32"

definition addUnits :: "int64 \<Rightarrow> int64 \<Rightarrow> (chat_error, int64) result" where
  "addUnits a b =
     (if a <s 0 \<or> b <s 0 then Inl UnitOverflow
      else if max_int64 - b <s a then Inl UnitOverflow
      else Inr (a + b))"

fun estimate_loop :: "int64 \<Rightarrow> message list \<Rightarrow> (chat_error, int64) result" where
  "estimate_loop tot [] = Inr tot"
| "estimate_loop tot (m # ms) =
     (case addUnits (int64_len (Content m)) PerMessage of
        Inl e \<Rightarrow> Inl e
      | Inr n \<Rightarrow>
          (case addUnits tot n of
             Inl e \<Rightarrow> Inl e
           | Inr tot' \<Rightarrow> estimate_loop tot' ms))"

definition Estimate :: "message list \<Rightarrow> (chat_error, int64) result" where
  "Estimate messages = estimate_loop PerRequest messages"

definition Fits :: "message list \<Rightarrow> int64 \<Rightarrow> int64 \<Rightarrow> (chat_error, bool) result" where
  "Fits messages budget reserve =
     (if budget \<le>s 0 \<or> reserve \<le>s 0 then Inl NotPositive
      else case Estimate messages of
        Inl e \<Rightarrow> Inl e
      | Inr est \<Rightarrow>
          (case addUnits est reserve of
             Inl e \<Rightarrow> Inl e
           | Inr tot \<Rightarrow> Inr (tot \<le>s budget)))"

section \<open>The conversation\<close>

record staged_turn =
  st_history :: "message list"
  st_user :: message
  st_trimmed :: nat

record conversation =
  c_budget :: int64
  c_reserve :: int64
  c_system :: "message option"
  c_history :: "message list"
  c_staged :: "staged_turn option"

definition New :: "int64 \<Rightarrow> int64 \<Rightarrow> string \<Rightarrow> conversation" where
  "New budget reserve systemPrompt =
     \<lparr>c_budget = budget, c_reserve = reserve,
      c_system = (if systemPrompt \<noteq> [] then Some \<lparr>Role = ''system'', Content = systemPrompt\<rparr>
                  else None),
      c_history = [], c_staged = None\<rparr>"

definition prefix_msgs :: "conversation \<Rightarrow> message list \<Rightarrow> message \<Rightarrow> message list" where
  "prefix_msgs c history user =
     (case c_system c of None \<Rightarrow> [] | Some s \<Rightarrow> [s]) @ history @ [user]"

text \<open>The trimming loop of \<open>Stage\<close>: the history shrinks by one pair per round.\<close>

fun stage_loop ::
  "conversation \<Rightarrow> message \<Rightarrow> message list \<Rightarrow> nat
     \<Rightarrow> (chat_error, message list \<times> nat) result \<times> conversation" where
  "stage_loop c user history trimmed =
     (let candidate = prefix_msgs c history user in
      case Fits candidate (c_budget c) (c_reserve c) of
        Inl e \<Rightarrow> (Inl e, c)
      | Inr True \<Rightarrow>
          (Inr (candidate, trimmed),
           c\<lparr>c_staged := Some \<lparr>st_history = history, st_user = user, st_trimmed = trimmed\<rparr>\<rparr>)
      | Inr False \<Rightarrow>
          (if length history < 2 then (Inl DoesNotFit, c)
           else stage_loop c user (drop 2 history) (Suc trimmed)))"

declare stage_loop.simps [simp del]

definition Stage ::
  "conversation \<Rightarrow> string \<Rightarrow> (chat_error, message list \<times> nat) result \<times> conversation" where
  "Stage c userContent =
     (if c_staged c \<noteq> None then (Inl AlreadyStaged, c)
      else
        let user = \<lparr>Role = ''user'', Content = userContent\<rparr>;
            protected = prefix_msgs c [] user in
        case Fits protected (c_budget c) (c_reserve c) of
          Inl e \<Rightarrow> (Inl e, c)
        | Inr False \<Rightarrow> (Inl DoesNotFit, c)
        | Inr True \<Rightarrow> stage_loop c user (c_history c) 0)"

definition Commit :: "conversation \<Rightarrow> string \<Rightarrow> chat_error option \<times> conversation" where
  "Commit c assistantContent =
     (case c_staged c of
        None \<Rightarrow> (Some NothingStaged, c)
      | Some st \<Rightarrow>
          (None, c\<lparr>c_history := st_history st @ [st_user st,
                       \<lparr>Role = ''assistant'', Content = assistantContent\<rparr>],
                  c_staged := None\<rparr>))"

definition Abort :: "conversation \<Rightarrow> conversation" where
  "Abort c = c\<lparr>c_staged := None\<rparr>"

definition Clear :: "conversation \<Rightarrow> conversation" where
  "Clear c = c\<lparr>c_history := [], c_staged := None\<rparr>"

definition History :: "conversation \<Rightarrow> message list" where
  "History c = c_history c"

definition HasStaged :: "conversation \<Rightarrow> bool" where
  "HasStaged c \<longleftrightarrow> c_staged c \<noteq> None"

definition StreamLimit :: "conversation \<Rightarrow> int64" where
  "StreamLimit c = c_budget c"

definition Reserve :: "conversation \<Rightarrow> int64" where
  "Reserve c = c_reserve c"

section \<open>The accounting, over unbounded numbers\<close>

text \<open>
  The \<open>size\<close> of a message is what it costs: its content bytes and 32 units.  \<open>units_of\<close> is the
  whole request in natural numbers; the word arithmetic of the code computes it exactly or reports
  the overflow.
\<close>

instantiation message_ext :: (type) size
begin

definition size_message_ext :: "'a message_ext \<Rightarrow> nat" where
  "size_message_ext m = length (Content m) + 32"

instance ..

end

definition units_of :: "message list \<Rightarrow> nat" where
  "units_of ms = 32 + (\<Sum>m\<leftarrow>ms. size m)"

definition small_msgs :: "message list \<Rightarrow> bool" where
  "small_msgs ms \<longleftrightarrow> list_all (\<lambda>m. length (Content m) < 2 ^ 63) ms"

lemma addUnits_spec:
  "addUnits a b =
     (if 0 \<le> sint a \<and> 0 \<le> sint b \<and> sint a + sint b < 2 ^ 63 then Inr (a + b)
      else Inl UnitOverflow)"
proof (cases "0 \<le> sint a \<and> 0 \<le> sint b")
  case True
  then have "sint (max_int64 - b) = 2 ^ 63 - 1 - sint b"
    using sint64_bounds [of b] by (subst sint64_sub) auto
  with True show ?thesis
    by (auto simp: addUnits_def word_sless_alt)
qed (auto simp: addUnits_def word_sless_alt)

lemma addUnits_Inr:
  "addUnits a b = Inr c \<longleftrightarrow>
     0 \<le> sint a \<and> 0 \<le> sint b \<and> sint a + sint b < 2 ^ 63 \<and> c = a + b"
  by (auto simp: addUnits_spec)

lemma addUnits_value: "addUnits a b = Inr c \<Longrightarrow> sint c = sint a + sint b"
  by (auto simp: addUnits_Inr intro: sint64_add)

lemma addUnits_Inl: "addUnits a b = Inl e \<Longrightarrow> e = UnitOverflow"
  by (auto simp: addUnits_spec split: if_splits)

lemma estimate_loop_spec:
  assumes "small_msgs ms" and "0 \<le> sint tot"
  shows "estimate_loop tot ms =
    (if sint tot + int (\<Sum>m\<leftarrow>ms. size m) < 2 ^ 63
     then Inr (tot + of_nat (\<Sum>m\<leftarrow>ms. size m)) else Inl UnitOverflow)"
  using assms
proof (induction ms arbitrary: tot)
  case Nil
  then show ?case using sint64_bounds [of tot] by simp
next
  case (Cons m ms)
  let ?n = "of_nat (size m) :: int64"
  from Cons.prems have len: "sint (int64_len (Content m)) = int (length (Content m))"
    by (simp add: small_msgs_def sint64_len)
  have per: "sint PerMessage = 32"
    by (simp add: PerMessage_def)
  show ?case
  proof (cases "int (size m) < 2 ^ 63")
    case False
    then have "addUnits (int64_len (Content m)) PerMessage = Inl UnitOverflow"
      by (simp add: addUnits_spec len per size_message_ext_def)
    with False Cons.prems show ?thesis
      by simp
  next
    case True
    then have "addUnits (int64_len (Content m)) PerMessage = Inr (int64_len (Content m) + PerMessage)"
      by (simp add: addUnits_spec len per size_message_ext_def)
    moreover have "int64_len (Content m) + PerMessage = ?n"
      by (simp add: int64_len_def PerMessage_def size_message_ext_def)
    ultimately have inner: "addUnits (int64_len (Content m)) PerMessage = Inr ?n"
      by simp
    have n: "sint ?n = int (size m)"
      using True sint64_of_int [of "int (size m)"] by simp
    show ?thesis
    proof (cases "sint tot + int (size m) < 2 ^ 63")
      case False
      then have "addUnits tot ?n = Inl UnitOverflow"
        by (simp add: addUnits_spec n)
      with False inner show ?thesis
        by simp
    next
      case add: True
      then have "addUnits tot ?n = Inr (tot + ?n)" and "sint (tot + ?n) = sint tot + int (size m)"
        using Cons.prems by (auto simp: addUnits_spec n intro: sint64_add [of tot ?n, unfolded n])
      with Cons inner show ?thesis
        by (simp add: small_msgs_def algebra_simps)
    qed
  qed
qed

lemma Estimate_spec:
  assumes "small_msgs ms"
  shows "Estimate ms =
    (if int (units_of ms) < 2 ^ 63 then Inr (of_nat (units_of ms)) else Inl UnitOverflow)"
  using estimate_loop_spec [OF assms, of PerRequest]
  by (simp add: Estimate_def units_of_def PerRequest_def)

lemma Fits_spec:
  assumes "small_msgs ms"
  shows "Fits ms budget reserve =
    (if sint budget \<le> 0 \<or> sint reserve \<le> 0 then Inl NotPositive
     else if 2 ^ 63 \<le> int (units_of ms) + sint reserve then Inl UnitOverflow
     else Inr (int (units_of ms) + sint reserve \<le> sint budget))"
proof (cases "sint budget \<le> 0 \<or> sint reserve \<le> 0")
  case True
  then show ?thesis by (auto simp: Fits_def word_sle_eq)
next
  case pos: False
  show ?thesis
  proof (cases "int (units_of ms) < 2 ^ 63")
    case False
    with pos show ?thesis by (simp add: Fits_def word_sle_eq Estimate_spec assms)
  next
    case True
    let ?w = "of_nat (units_of ms) :: int64"
    have w: "sint ?w = int (units_of ms)"
      using True sint64_of_int [of "int (units_of ms)"] by simp
    have e: "Estimate ms = Inr ?w"
      using True by (simp add: Estimate_spec assms)
    show ?thesis
    proof (cases "int (units_of ms) + sint reserve < 2 ^ 63")
      case True
      then have "addUnits ?w reserve = Inr (?w + reserve)"
        and "sint (?w + reserve) = int (units_of ms) + sint reserve"
        using pos by (auto simp: addUnits_spec w intro: sint64_add [of ?w reserve, unfolded w])
      with pos True e show ?thesis by (simp add: Fits_def word_sle_eq)
    next
      case False
      with pos e show ?thesis by (simp add: Fits_def word_sle_eq addUnits_spec w)
    qed
  qed
qed

lemma Fits_True_bound:
  assumes "small_msgs ms" and "Fits ms budget reserve = Inr True"
  shows "int (units_of ms) + sint reserve \<le> sint budget"
  using assms by (auto simp: Fits_spec split: if_splits)

lemma units_of_prefix_msgs:
  "units_of (prefix_msgs c h u) =
     32 + (case c_system c of None \<Rightarrow> 0 | Some s \<Rightarrow> size s) + (\<Sum>m\<leftarrow>h. size m) + size u"
  by (simp add: units_of_def prefix_msgs_def split: option.split)

lemma units_of_drop_le: "units_of (prefix_msgs c (drop k h) u) \<le> units_of (prefix_msgs c h u)"
  by (simp add: units_of_prefix_msgs sum_list_map_drop_le)

section \<open>The invariant\<close>

text \<open>A committed history is whole pairs, user first; the budget accounting never splits one.\<close>

fun paired :: "message list \<Rightarrow> bool" where
  "paired [] \<longleftrightarrow> True"
| "paired [_] \<longleftrightarrow> False"
| "paired (u # a # ms) \<longleftrightarrow> Role u = ''user'' \<and> Role a = ''assistant'' \<and> paired ms"

fun exchanges :: "message list \<Rightarrow> exchange list" where
  "exchanges (u # a # ms) = (Content u, Content a) # exchanges ms"
| "exchanges _ = []"

definition staged_ok :: "conversation \<Rightarrow> staged_turn \<Rightarrow> bool" where
  "staged_ok c st \<longleftrightarrow>
     st_history st = drop (2 * st_trimmed st) (c_history c)
     \<and> 2 * st_trimmed st \<le> length (c_history c)
     \<and> Role (st_user st) = ''user''
     \<and> Fits (prefix_msgs c (st_history st) (st_user st)) (c_budget c) (c_reserve c) = Inr True"

definition conv_inv :: "conversation \<Rightarrow> bool" where
  "conv_inv c \<longleftrightarrow>
     paired (c_history c)
     \<and> pred_option (\<lambda>s. Role s = ''system'' \<and> Content s \<noteq> []) (c_system c)
     \<and> pred_option (staged_ok c) (c_staged c)"

definition pending_user :: "conversation \<Rightarrow> string option" where
  "pending_user c = map_option (\<lambda>st. Content (st_user st)) (c_staged c)"

lemma paired_drop: "paired h \<Longrightarrow> paired (drop (2 * k) h)"
proof (induction h arbitrary: k rule: paired.induct)
  case (3 u a ms)
  then show ?case by (cases k) auto
qed auto

lemma paired_append: "paired h \<Longrightarrow> paired (h @ g) = paired g"
  by (induction h rule: paired.induct) auto

lemma paired_even: "paired h \<Longrightarrow> even (length h)"
  by (induction h rule: paired.induct) auto

lemma exchanges_drop: "exchanges (drop (2 * k) h) = drop k (exchanges h)"
proof (induction h arbitrary: k rule: exchanges.induct)
  case (1 u a ms)
  then show ?case by (cases k) auto
qed (auto simp: drop_Cons')

lemma exchanges_snoc:
  "paired h \<Longrightarrow> exchanges (h @ [u, a]) = exchanges h @ [(Content u, Content a)]"
  by (induction h rule: paired.induct) auto

lemma New_inv [conv_keeps]: "conv_inv (New budget reserve sp)"
  by (simp add: New_def conv_inv_def)

lemma Abort_inv [conv_keeps]: "conv_inv c \<Longrightarrow> conv_inv (Abort c)"
  by (simp add: Abort_def conv_inv_def)

lemma Clear_inv [conv_keeps]: "conv_inv c \<Longrightarrow> conv_inv (Clear c)"
  by (simp add: Clear_def conv_inv_def)

section \<open>What staging does\<close>

text \<open>
  The loop from any even position of the history: it stops at the first position whose request
  fits, and a request that fits is exactly what it returns.
\<close>

lemma prefix_msgs_staged [simp]: "prefix_msgs (c\<lparr>c_staged := x\<rparr>) h u = prefix_msgs c h u"
  by (simp add: prefix_msgs_def)

lemma stage_loop_ok:
  assumes "stage_loop c user h k = (Inr (msgs, t), c')"
  shows "\<exists>j. t = k + j \<and> (j = 0 \<or> 2 * j \<le> length h) \<and> msgs = prefix_msgs c (drop (2 * j) h) user
    \<and> Fits msgs (c_budget c) (c_reserve c) = Inr True
    \<and> (\<forall>i < j. Fits (prefix_msgs c (drop (2 * i) h) user) (c_budget c) (c_reserve c) = Inr False)
    \<and> c' = c\<lparr>c_staged := Some \<lparr>st_history = drop (2 * j) h, st_user = user, st_trimmed = t\<rparr>\<rparr>"
  using assms
proof (induction c user h k rule: stage_loop.induct)
  case (1 c user h k)
  let ?f = "Fits (prefix_msgs c h user) (c_budget c) (c_reserve c)"
  show ?case
  proof (cases "?f = Inr True")
    case True
    with "1.prems" show ?thesis
      by (intro exI [of _ 0]) (auto simp: stage_loop.simps [of c user h k])
  next
    case False
    with "1.prems" have no: "?f = Inr False" and len: "2 \<le> length h"
      and rec: "stage_loop c user (drop 2 h) (Suc k) = (Inr (msgs, t), c')"
      by (auto simp: stage_loop.simps [of c user h k] Let_def
          split: sum.splits bool.splits if_splits)
    obtain j where j: "t = Suc k + j" "j = 0 \<or> 2 * j \<le> length (drop 2 h)"
      "msgs = prefix_msgs c (drop (2 * j) (drop 2 h)) user"
      "Fits msgs (c_budget c) (c_reserve c) = Inr True"
      "\<forall>i < j. Fits (prefix_msgs c (drop (2 * i) (drop 2 h)) user) (c_budget c) (c_reserve c) = Inr False"
      "c' = c\<lparr>c_staged := Some \<lparr>st_history = drop (2 * j) (drop 2 h), st_user = user, st_trimmed = t\<rparr>\<rparr>"
      using "1.IH" [OF refl no] len rec by auto
    have "Fits (prefix_msgs c (drop (2 * i) h) user) (c_budget c) (c_reserve c) = Inr False"
      if "i < Suc j" for i
      using that no j(5) by (cases i) (auto simp: add.commute)
    then show ?thesis
      using j len by (intro exI [of _ "Suc j"]) (auto simp: add.commute)
  qed
qed

lemma stage_loop_fails: "stage_loop c user h k = (Inl e, c') \<Longrightarrow> c' = c"
proof (induction c user h k rule: stage_loop.induct)
  case (1 c user h k)
  then show ?case
    by (auto simp: stage_loop.simps [of c user h k] Let_def split: sum.splits bool.splits if_splits)
qed

lemma Stage_ok:
  assumes "Stage c u = (Inr (msgs, t), c')"
  shows "c_staged c = None \<and> 2 * t \<le> length (c_history c)
    \<and> msgs = prefix_msgs c (drop (2 * t) (c_history c)) \<lparr>Role = ''user'', Content = u\<rparr>
    \<and> Fits msgs (c_budget c) (c_reserve c) = Inr True
    \<and> (\<forall>i < t. Fits (prefix_msgs c (drop (2 * i) (c_history c)) \<lparr>Role = ''user'', Content = u\<rparr>)
            (c_budget c) (c_reserve c) = Inr False)
    \<and> c' = c\<lparr>c_staged := Some \<lparr>st_history = drop (2 * t) (c_history c),
            st_user = \<lparr>Role = ''user'', Content = u\<rparr>, st_trimmed = t\<rparr>\<rparr>"
proof -
  from assms have "c_staged c = None"
    and loop: "stage_loop c \<lparr>Role = ''user'', Content = u\<rparr> (c_history c) 0 = (Inr (msgs, t), c')"
    by (auto simp: Stage_def Let_def split: if_splits sum.splits bool.splits)
  then show ?thesis
    using stage_loop_ok [OF loop] by auto
qed

lemma Stage_fails: "Stage c u = (Inl e, c') \<Longrightarrow> c' = c"
  by (auto simp: Stage_def Let_def dest: stage_loop_fails split: if_splits sum.splits bool.splits)

lemma Stage_inv [conv_keeps]: "conv_inv c \<Longrightarrow> Stage c u = (r, c') \<Longrightarrow> conv_inv c'"
  by (cases r) (auto dest!: Stage_ok Stage_fails simp: conv_inv_def staged_ok_def)

lemma Commit_inv [conv_keeps]: "conv_inv c \<Longrightarrow> Commit c a = (e, c') \<Longrightarrow> conv_inv c'"
  by (auto simp: Commit_def conv_inv_def staged_ok_def paired_append paired_drop
      split: option.splits)

text \<open>
  On a paired history the loop can only end by fitting or by an accounting overflow, because the
  empty history is the request the first test of \<open>Stage\<close> admitted.
\<close>

lemma stage_loop_total:
  assumes "paired h" and "\<And>j. \<exists>b. Fits (prefix_msgs c (drop j h) user) (c_budget c) (c_reserve c) = Inr b"
    and "Fits (prefix_msgs c [] user) (c_budget c) (c_reserve c) = Inr True"
  shows "\<exists>r c'. stage_loop c user h k = (Inr r, c')"
  using assms
proof (induction c user h k rule: stage_loop.induct)
  case (1 c user h k)
  let ?f = "Fits (prefix_msgs c h user) (c_budget c) (c_reserve c)"
  from "1.prems"(2) [of 0] consider "?f = Inr True" | "?f = Inr False"
    by fastforce
  then show ?case
  proof cases
    case 1
    then show ?thesis by (simp add: stage_loop.simps [of c user h k])
  next
    case no: 2
    have len: "2 \<le> length h"
    proof (rule ccontr)
      assume "\<not> 2 \<le> length h"
      with paired_even [OF "1.prems"(1)] have "h = []"
        by (cases h rule: paired.cases) auto
      with no "1.prems"(3) show False by simp
    qed
    have "\<exists>r c'. stage_loop c user (drop 2 h) (Suc k) = (Inr r, c')"
    proof (rule "1.IH" [OF refl no])
      show "paired (drop 2 h)" using paired_drop [OF "1.prems"(1), of 1] by simp
      show "\<exists>b. Fits (prefix_msgs c (drop j (drop 2 h)) user) (c_budget c) (c_reserve c) = Inr b" for j
        using "1.prems"(2) [of "j + 2"] by (simp add: add.commute)
    qed (use len "1.prems"(3) in simp_all)
    with no len show ?thesis by (simp add: stage_loop.simps [of c user h k])
  qed
qed

lemma Fits_drop_decides:
  assumes "small_msgs (prefix_msgs c h u)" and "0 < sint budget" and "0 < sint reserve"
    and "int (units_of (prefix_msgs c h u)) + sint reserve < 2 ^ 63"
  shows "\<exists>b. Fits (prefix_msgs c (drop j h) u) budget reserve = Inr b"
proof -
  have "small_msgs (prefix_msgs c (drop j h) u)"
    using assms(1) by (auto simp: small_msgs_def prefix_msgs_def list_all_iff dest: in_set_dropD)
  moreover have "int (units_of (prefix_msgs c (drop j h) u)) + sint reserve < 2 ^ 63"
    using units_of_drop_le [of c j h u] assms(4) by linarith
  ultimately show ?thesis
    using assms(2,3) by (simp add: Fits_spec)
qed

section \<open>The conversation is a turn store\<close>

lemma Stage_pending: "Stage c u = (Inr r, c') \<Longrightarrow> pending_user c' = Some u"
  by (cases r) (auto dest!: Stage_ok simp: pending_user_def)

lemma Stage_exchanges: "Stage c u = (Inr r, c') \<Longrightarrow> exchanges (c_history c') = exchanges (c_history c)"
  by (cases r) (auto dest!: Stage_ok)

lemma Commit_staged:
  assumes "conv_inv c" and "pending_user c = Some u" and "Commit c a = (e, c')"
  shows "e = None \<and> conv_inv c' \<and> pending_user c' = None \<and>
    (\<exists>k. exchanges (c_history c') = drop k (exchanges (c_history c)) @ [(u, a)])"
proof -
  from assms(2) obtain st where st: "c_staged c = Some st" "Content (st_user st) = u"
    by (auto simp: pending_user_def)
  with assms(1) have h: "st_history st = drop (2 * st_trimmed st) (c_history c)"
    and p: "paired (c_history c)"
    by (auto simp: conv_inv_def staged_ok_def)
  from assms(3) st have c': "e = None" "pending_user c' = None"
    "c_history c' = st_history st @ [st_user st, \<lparr>Role = ''assistant'', Content = a\<rparr>]"
    by (auto simp: Commit_def pending_user_def)
  have "exchanges (c_history c') = drop (st_trimmed st) (exchanges (c_history c)) @ [(u, a)]"
    using p by (simp add: c'(3) h exchanges_snoc paired_drop exchanges_drop st(2))
  with c' assms show ?thesis by (auto intro: conv_keeps)
qed

interpretation conv: turn_store Stage Commit Abort Clear "\<lambda>c. exchanges (c_history c)"
  pending_user conv_inv
proof
  show "conv_inv c' \<and> exchanges (c_history c') = exchanges (c_history c) \<and> pending_user c' = Some u"
    if "conv_inv c" "Stage c u = (Inr r, c')" for c u r c'
    using that by (auto intro: conv_keeps dest: Stage_pending Stage_exchanges)
  show "err = None \<and> conv_inv c' \<and> pending_user c' = None \<and>
      (\<exists>k. exchanges (c_history c') = drop k (exchanges (c_history c)) @ [(u, a)])"
    if "conv_inv c" "pending_user c = Some u" "Commit c a = (err, c')" for c u a err c'
    using that by (rule Commit_staged)
  show "\<exists>e. Stage c u = (Inl e, c)" if "pending_user c \<noteq> None" for c u
    using that by (simp add: pending_user_def Stage_def)
qed (auto simp: pending_user_def Commit_def Abort_def Clear_def conv_inv_def dest: Stage_fails)

section \<open>Properties\<close>

text \<open>\<open>addUnits\<close> is checked addition: it returns the mathematical sum of two non-negative
  \<open>int64\<close> values exactly when that sum is representable, and the overflow error otherwise; it
  never wraps.
\<close>

theorem addUnits_exact:
  "(addUnits a b = Inr c \<longleftrightarrow>
      0 \<le> sint a \<and> 0 \<le> sint b \<and> sint a + sint b < 2 ^ 63 \<and> sint c = sint a + sint b)
   \<and> (\<forall>e. addUnits a b = Inl e \<longrightarrow> e = UnitOverflow)"
proof -
  have "sint c = sint a + sint b \<longleftrightarrow> c = a + b"
    if "0 \<le> sint a" "0 \<le> sint b" "sint a + sint b < 2 ^ 63"
  proof -
    have "sint (a + b) = sint a + sint b"
      using that by (intro sint64_add) auto
    then show ?thesis by (metis signed_word_eqI)
  qed
  then show ?thesis
    by (auto simp: addUnits_Inr dest: addUnits_Inl)
qed

theorem addUnits_exact_witness:
  "addUnits max_int64 1 = Inl UnitOverflow \<and> addUnits 40 2 = Inr 42"
  using addUnits_exact [of 40 2 42] addUnits_exact [of max_int64 1 0]
  by (auto simp: addUnits_def max_int64_def word_sless_alt)

text \<open>C22: The budget test is exact: for messages whose contents have representable lengths, \<open>Fits\<close>
  reports a non-positive budget or reserve, reports an accounting overflow when the request plus
  the reserve exceeds \<open>int64\<close>, and otherwise answers whether 32 units per request, 32 per message,
  the content bytes and the reserve together are at most the budget.
\<close>

theorem Fits_exact:
  assumes "small_msgs ms"
  shows "Fits ms budget reserve =
    (if sint budget \<le> 0 \<or> sint reserve \<le> 0 then Inl NotPositive
     else if 2 ^ 63 \<le> 32 + (\<Sum>m\<leftarrow>ms. int (length (Content m)) + 32) + sint reserve
       then Inl UnitOverflow
     else Inr (32 + (\<Sum>m\<leftarrow>ms. int (length (Content m)) + 32) + sint reserve \<le> sint budget))"
proof -
  have "int (units_of ms) = 32 + (\<Sum>m\<leftarrow>ms. int (length (Content m)) + 32)"
    unfolding units_of_def by (induction ms) (auto simp: size_message_ext_def)
  with Fits_spec [OF assms, of budget reserve] show ?thesis
    by simp
qed

theorem Fits_exact_witness:
  "Fits [\<lparr>Role = ''user'', Content = ''hi''\<rparr>] 100 34 = Inr True
   \<and> Fits [\<lparr>Role = ''user'', Content = ''hi''\<rparr>] 99 34 = Inr False"
  by (subst (1 2) Fits_exact) (simp_all add: small_msgs_def)

text \<open>C6: Staging trims as little as possible and nothing else: a successful \<open>Stage\<close> of a paired
  conversation drops some number of oldest whole pairs, keeps the system message and the user
  message, returns exactly the remaining messages, and every smaller number of dropped pairs would
  not have fitted.  The committed history is untouched.
\<close>

theorem Stage_trims_minimally:
  assumes "Stage c u = (Inr (msgs, t), c')"
  shows "msgs = (case c_system c of None \<Rightarrow> [] | Some s \<Rightarrow> [s]) @ drop (2 * t) (c_history c)
             @ [\<lparr>Role = ''user'', Content = u\<rparr>]
    \<and> 2 * t \<le> length (c_history c) \<and> c_history c' = c_history c
    \<and> Fits msgs (c_budget c) (c_reserve c) = Inr True
    \<and> (\<forall>i < t. Fits (prefix_msgs c (drop (2 * i) (c_history c)) \<lparr>Role = ''user'', Content = u\<rparr>)
            (c_budget c) (c_reserve c) = Inr False)"
  using Stage_ok [OF assms] by (auto simp: prefix_msgs_def)

definition demo_conv :: conversation where
  "demo_conv = \<lparr>c_budget = 200, c_reserve = 10, c_system = None,
     c_history = [\<lparr>Role = ''user'', Content = ''aaaa''\<rparr>, \<lparr>Role = ''assistant'', Content = ''bbbb''\<rparr>,
                  \<lparr>Role = ''user'', Content = ''cc''\<rparr>, \<lparr>Role = ''assistant'', Content = ''dd''\<rparr>],
     c_staged = None\<rparr>"

lemma demo_stage:
  "Stage demo_conv ''e'' =
     (Inr ([\<lparr>Role = ''user'', Content = ''cc''\<rparr>, \<lparr>Role = ''assistant'', Content = ''dd''\<rparr>,
            \<lparr>Role = ''user'', Content = ''e''\<rparr>], 1),
      demo_conv\<lparr>c_staged := Some \<lparr>st_history = drop 2 (c_history demo_conv),
        st_user = \<lparr>Role = ''user'', Content = ''e''\<rparr>, st_trimmed = 1\<rparr>\<rparr>)"
  by (simp add: Stage_def demo_conv_def stage_loop.simps prefix_msgs_def Fits_spec small_msgs_def
      units_of_def size_message_ext_def Let_def)

theorem Stage_trims_minimally_witness:
  "c_history (snd (Stage demo_conv ''e'')) = c_history demo_conv
   \<and> Fits (prefix_msgs demo_conv (c_history demo_conv) \<lparr>Role = ''user'', Content = ''e''\<rparr>) 200 10
       = Inr False"
proof -
  note p = Stage_trims_minimally [OF demo_stage]
  have "c_history (snd (Stage demo_conv ''e'')) = c_history demo_conv"
    using p by (simp only: demo_stage snd_conv)
  moreover have "Fits (prefix_msgs demo_conv (drop (2 * 0) (c_history demo_conv))
      \<lparr>Role = ''user'', Content = ''e''\<rparr>) (c_budget demo_conv) (c_reserve demo_conv) = Inr False"
    using p by blast
  ultimately show ?thesis by (simp add: demo_conv_def)
qed

text \<open>C20: Staging never refuses a message it could send: when nothing is staged, the conversation is
  well formed and the untrimmed request does not overflow the accounting, \<open>Stage\<close> succeeds if and
  only if the system message and the new user message alone fit.
\<close>

theorem Stage_complete:
  assumes "conv_inv c" and "c_staged c = None"
    and "0 < sint (c_budget c)" and "0 < sint (c_reserve c)"
    and "small_msgs (prefix_msgs c (c_history c) \<lparr>Role = ''user'', Content = u\<rparr>)"
    and "int (units_of (prefix_msgs c (c_history c) \<lparr>Role = ''user'', Content = u\<rparr>))
           + sint (c_reserve c) < 2 ^ 63"
  shows "(\<exists>r c'. Stage c u = (Inr r, c')) \<longleftrightarrow>
    Fits (prefix_msgs c [] \<lparr>Role = ''user'', Content = u\<rparr>) (c_budget c) (c_reserve c) = Inr True"
proof -
  let ?u = "\<lparr>Role = ''user'', Content = u\<rparr>"
  have dec: "\<exists>b. Fits (prefix_msgs c (drop j (c_history c)) ?u) (c_budget c) (c_reserve c) = Inr b" for j
    using assms(3-6) by (intro Fits_drop_decides)
  have "\<exists>r c'. stage_loop c ?u (c_history c) 0 = (Inr r, c')"
    if "Fits (prefix_msgs c [] ?u) (c_budget c) (c_reserve c) = Inr True"
    using assms(1) dec that by (intro stage_loop_total) (simp_all add: conv_inv_def)
  then show ?thesis
    using assms(2) by (auto simp: Stage_def Let_def split: sum.splits bool.splits)
qed

theorem Stage_complete_witness: "\<exists>r c'. Stage demo_conv ''e'' = (Inr r, c')"
  by (subst Stage_complete)
    (simp_all add: demo_conv_def conv_inv_def prefix_msgs_def Fits_spec small_msgs_def
      units_of_def size_message_ext_def)

text \<open>Rollback is exact: whatever \<open>Stage\<close> answered, aborting afterwards gives back the very
  conversation there was before, and a failed \<open>Stage\<close> changes nothing by itself.
\<close>

theorem Stage_Abort_rollback:
  assumes "c_staged c = None"
  shows "Abort (snd (Stage c u)) = c
    \<and> (\<forall>e c'. Stage c u = (Inl e, c') \<longrightarrow> c' = c)"
proof (cases "Stage c u")
  case (Pair res c')
  with assms show ?thesis
    by (cases res) (auto dest!: Stage_ok Stage_fails simp: Abort_def)
qed

theorem Stage_Abort_rollback_witness: "Abort (snd (Stage demo_conv ''e'')) = demo_conv"
  using Stage_Abort_rollback [of demo_conv "''e''"] by (simp add: demo_conv_def)

section \<open>A conversation as a list of exchanges\<close>

text \<open>
  The abstract conversation is the list of exchanges it remembers, oldest first.  The request for a
  user line is the system prompt, the remembered exchanges and the line.  \<open>trims_for\<close> is the
  number of oldest exchanges to forget: the least number whose request is not over the budget,
  provided the prompt and the line alone fit and the accounting does not overflow.  Nothing here is
  staged, committed or aborted: \<open>ideal_turn\<close> only says what a whole turn leaves behind.
\<close>

definition messages_of :: "exchange list \<Rightarrow> message list" where
  "messages_of h = concat (map (\<lambda>(q, a).
     [\<lparr>Role = ''user'', Content = q\<rparr>, \<lparr>Role = ''assistant'', Content = a\<rparr>]) h)"

definition request_for :: "string \<Rightarrow> exchange list \<Rightarrow> string \<Rightarrow> message list" where
  "request_for sp h u =
     (if sp \<noteq> [] then [\<lparr>Role = ''system'', Content = sp\<rparr>] else [])
       @ messages_of h @ [\<lparr>Role = ''user'', Content = u\<rparr>]"

definition least_drop :: "int64 \<Rightarrow> int64 \<Rightarrow> string \<Rightarrow> exchange list \<Rightarrow> string \<Rightarrow> nat option" where
  "least_drop budget reserve sp h u =
     Option.bind
       (find (\<lambda>t. Fits (request_for sp (drop t h) u) budget reserve \<noteq> Inr False) [0..<Suc (length h)])
       (\<lambda>t. if Fits (request_for sp (drop t h) u) budget reserve = Inr True then Some t else None)"

definition trims_for :: "int64 \<Rightarrow> int64 \<Rightarrow> string \<Rightarrow> exchange list \<Rightarrow> string \<Rightarrow> nat option" where
  "trims_for budget reserve sp h u =
     (if Fits (request_for sp [] u) budget reserve = Inr True
      then least_drop budget reserve sp h u else None)"

fun ideal_turn ::
  "int64 \<Rightarrow> int64 \<Rightarrow> string \<Rightarrow> (message list \<times> nat) turn
     \<Rightarrow> exchange list \<times> exchange list \<Rightarrow> exchange list \<times> exchange list" where
  "ideal_turn budget reserve sp Reset (h, log) = ([], [])"
| "ideal_turn budget reserve sp (Say u answer) (h, log) =
     (case trims_for budget reserve sp h u of
        None \<Rightarrow> (h, log)
      | Some t \<Rightarrow>
          (case answer (request_for sp (drop t h) u, t) of
             None \<Rightarrow> (h, log)
           | Some a \<Rightarrow> (drop t h @ [(u, a)], log @ [(u, a)])))"

definition conc :: "int64 \<Rightarrow> int64 \<Rightarrow> string \<Rightarrow> exchange list \<times> exchange list
    \<Rightarrow> conversation \<times> exchange list" where
  "conc budget reserve sp =
     (\<lambda>(h, log). ((New budget reserve sp)\<lparr>c_history := messages_of h\<rparr>, log))"

lemma messages_of_simps [simp]:
  "messages_of [] = []"
  "messages_of ((q, a) # h) = \<lparr>Role = ''user'', Content = q\<rparr> # \<lparr>Role = ''assistant'', Content = a\<rparr>
     # messages_of h"
  "messages_of (h @ g) = messages_of h @ messages_of g"
  by (simp_all add: messages_of_def)

lemma drop_messages_of: "drop (2 * k) (messages_of h) = messages_of (drop k h)"
proof (induction h arbitrary: k)
  case (Cons e h)
  then show ?case by (cases e; cases k) auto
qed simp

lemma exchanges_messages_of [simp]: "exchanges (messages_of h) = h"
  by (induction h) auto

lemma request_for_prefix:
  assumes "c_system c = c_system (New budget reserve sp)"
  shows "prefix_msgs c (messages_of h) \<lparr>Role = ''user'', Content = u\<rparr> = request_for sp h u"
  using assms by (simp add: prefix_msgs_def request_for_def New_def)

lemma find_upt_Suc:
  "find P [0..<Suc n] = (if P 0 then Some 0 else map_option Suc (find (P \<circ> Suc) [0..<n]))"
proof -
  have "find P (map Suc xs) = map_option Suc (find (P \<circ> Suc) xs)" for xs
    by (induction xs) auto
  then show ?thesis
    by (simp add: upt_conv_Cons flip: map_Suc_upt del: upt_Suc)
qed

lemma least_drop_rec:
  "least_drop b r sp h u =
     (case Fits (request_for sp h u) b r of
        Inl _ \<Rightarrow> None
      | Inr True \<Rightarrow> Some 0
      | Inr False \<Rightarrow> (case h of [] \<Rightarrow> None | _ # h' \<Rightarrow> map_option Suc (least_drop b r sp h' u)))"
proof (cases h)
  case Nil
  then show ?thesis
    by (auto simp: least_drop_def split: sum.split bool.split)
next
  case (Cons e h')
  let ?P = "\<lambda>t. Fits (request_for sp (drop t h) u) b r \<noteq> Inr False"
  let ?P' = "\<lambda>t. Fits (request_for sp (drop t h') u) b r \<noteq> Inr False"
  have "find ?P [0..<Suc (length h)]
      = (if ?P 0 then Some 0 else map_option Suc (find ?P' [0..<Suc (length h')]))"
    unfolding find_upt_Suc [of ?P "length h"] by (simp add: Cons o_def del: upt_Suc)
  with Cons show ?thesis
    by (cases "find ?P' [0..<Suc (length h')]")
      (auto simp: least_drop_def simp del: upt_Suc split: sum.split bool.split)
qed

lemma stage_loop_exchanges:
  assumes "c_system c = c_system (New b r sp)" and "c_budget c = b" and "c_reserve c = r"
  shows "case least_drop b r sp h u of
      None \<Rightarrow> \<exists>e. stage_loop c \<lparr>Role = ''user'', Content = u\<rparr> (messages_of h) k = (Inl e, c)
    | Some t \<Rightarrow> stage_loop c \<lparr>Role = ''user'', Content = u\<rparr> (messages_of h) k =
        (Inr (request_for sp (drop t h) u, k + t),
         c\<lparr>c_staged := Some \<lparr>st_history = messages_of (drop t h),
             st_user = \<lparr>Role = ''user'', Content = u\<rparr>, st_trimmed = k + t\<rparr>\<rparr>)"
proof (induction h arbitrary: k)
  case Nil
  then show ?case
    using request_for_prefix [OF assms(1), where h = "[]" and u = u]
    by (subst least_drop_rec)
      (auto simp: stage_loop.simps [of _ _ "[]"] assms(2,3) split: sum.split bool.split)
next
  case (Cons e h)
  obtain q a where e: "e = (q, a)" by (cases e)
  show ?case
    unfolding least_drop_rec [of b r sp "e # h"] stage_loop.simps [of _ _ "messages_of (e # h)"]
      request_for_prefix [OF assms(1)] assms(2,3)
    using Cons.IH [of "Suc k"]
    by (auto simp: e Let_def split: sum.split bool.split option.split)
qed

lemma Stage_exchanges_exact:
  fixes b r :: int64 and sp :: string and h :: "exchange list"
  defines "c \<equiv> (New b r sp)\<lparr>c_history := messages_of h\<rparr>"
  shows "case trims_for b r sp h u of
      None \<Rightarrow> \<exists>e. Stage c u = (Inl e, c)
    | Some t \<Rightarrow> Stage c u = (Inr (request_for sp (drop t h) u, t),
        c\<lparr>c_staged := Some \<lparr>st_history = messages_of (drop t h),
             st_user = \<lparr>Role = ''user'', Content = u\<rparr>, st_trimmed = t\<rparr>\<rparr>)"
proof -
  have c: "c_system c = c_system (New b r sp)" "c_budget c = b" "c_reserve c = r"
    "c_history c = messages_of h" "c_staged c = None"
    by (simp_all add: c_def New_def)
  show ?thesis
    using stage_loop_exchanges [OF c(1-3), where h = h and u = u and k = 0] request_for_prefix [OF c(1), where h = "[]" and u = u]
    by (auto simp: trims_for_def Stage_def c(2-5) Let_def split: sum.split bool.split option.split)
qed

lemma run_turn_conc:
  "run_turn Stage Commit Abort Clear t (conc b r sp hl) = conc b r sp (ideal_turn b r sp t hl)"
proof (cases hl; cases t)
  fix h log u answer
  assume hl: "hl = (h, log)" and t: "t = Say u answer"
  show ?thesis
    using Stage_exchanges_exact [where b = b and r = r and sp = sp and h = h and u = u]
    by (auto simp: hl t conc_def Commit_def Abort_def New_def split: option.splits)
qed (simp add: conc_def Clear_def New_def)

lemma run_turns_conc:
  "run_turns Stage Commit Abort Clear ts (conc b r sp hl)
     = conc b r sp (fold (ideal_turn b r sp) ts hl)"
  by (induction ts arbitrary: hl) (simp_all add: run_turns_def run_turn_conc)

text \<open>C1: A conversation is exactly the list of exchanges it should remember.  Over any sequence of
  turns (each answered, failed, refused or a \<open>/clear\<close>), staging, committing, aborting and clearing
  leave the conversation of the abstract run, in which an answered line is appended after the
  fewest oldest exchanges that make room for it are forgotten, and a refused or failed turn changes
  nothing: inserting a turn whose stream fails anywhere in the sequence gives the very same
  conversation and log.  The conversation is well formed with nothing staged, and its history is a
  suffix of the log of all answered exchanges since the last \<open>/clear\<close>.
\<close>

theorem conversation_is_recent_window:
  "(case fold (ideal_turn budget reserve sp) ts ([], []) of (h, log) \<Rightarrow>
      run_turns Stage Commit Abort Clear ts (New budget reserve sp, [])
        = ((New budget reserve sp)\<lparr>c_history := messages_of h\<rparr>, log))
   \<and> run_turns Stage Commit Abort Clear (ts @ [Say u (\<lambda>_. None)] @ ts') (New budget reserve sp, [])
       = run_turns Stage Commit Abort Clear (ts @ ts') (New budget reserve sp, [])
   \<and> (let (c, log) = run_turns Stage Commit Abort Clear ts (New budget reserve sp, [])
      in conv_inv c \<and> c_staged c = None \<and> suffix (exchanges (c_history c)) log)"
proof (intro conjI)
  have New: "(New budget reserve sp, []) = conc budget reserve sp ([], [])"
    by (simp add: conc_def New_def)
  show "case fold (ideal_turn budget reserve sp) ts ([], []) of (h, log) \<Rightarrow>
      run_turns Stage Commit Abort Clear ts (New budget reserve sp, [])
        = ((New budget reserve sp)\<lparr>c_history := messages_of h\<rparr>, log)"
    unfolding New run_turns_conc by (simp add: conc_def split: prod.split)
  have "ideal_turn budget reserve sp (Say u (\<lambda>_. None)) hl = hl" for hl
    by (cases hl) (simp split: option.split)
  then show "run_turns Stage Commit Abort Clear (ts @ [Say u (\<lambda>_. None)] @ ts')
      (New budget reserve sp, [])
    = run_turns Stage Commit Abort Clear (ts @ ts') (New budget reserve sp, [])"
    unfolding New run_turns_conc by simp
  have "conv.window (New budget reserve sp, [])"
    by (simp add: conv.window_def New_inv pending_user_def) (simp add: New_def)
  from conv.run_turns_window [OF this, of ts]
  show "let (c, log) = run_turns Stage Commit Abort Clear ts (New budget reserve sp, [])
      in conv_inv c \<and> c_staged c = None \<and> suffix (exchanges (c_history c)) log"
    by (auto simp: conv.window_def pending_user_def split: prod.splits)
qed

end
