(* ===== verification/GoText.thy ===== *)
theory GoText imports Prelude "HOL-Library.List_Lexorder" "HOL-Library.Char_ord" begin

text \<open>
  The part of Go's \<open>strings\<close>, \<open>bytes\<close>, \<open>strconv\<close> and \<open>unicode/utf8\<close> packages that the sources
  call, on byte strings.  Every function is executable.
\<close>

section \<open>Prefix, suffix and search\<close>

definition has_prefix :: "string \<Rightarrow> string \<Rightarrow> bool" where
  "has_prefix s p \<longleftrightarrow> take (length p) s = p"

definition has_suffix :: "string \<Rightarrow> string \<Rightarrow> bool" where
  "has_suffix s p \<longleftrightarrow> length p \<le> length s \<and> drop (length s - length p) s = p"

definition trim_prefix :: "string \<Rightarrow> string \<Rightarrow> string" where
  "trim_prefix s p = (if has_prefix s p then drop (length p) s else s)"

definition cut_prefix :: "string \<Rightarrow> string \<Rightarrow> string \<times> bool" where
  "cut_prefix s p = (if has_prefix s p then (drop (length p) s, True) else (s, False))"

fun index_of :: "string \<Rightarrow> string \<Rightarrow> nat option" where
  "index_of [] sub = (if sub = [] then Some 0 else None)"
| "index_of (c # cs) sub =
     (if has_prefix (c # cs) sub then Some 0 else map_option Suc (index_of cs sub))"

definition contains :: "string \<Rightarrow> string \<Rightarrow> bool" where
  "contains s sub \<longleftrightarrow> index_of s sub \<noteq> None"

definition contains_any :: "string \<Rightarrow> string \<Rightarrow> bool" where
  "contains_any s cs \<longleftrightarrow> list_ex (\<lambda>c. c \<in> set cs) s"

text \<open>\<open>strings.Cut\<close> at a one-byte separator.\<close>

fun cut :: "string \<Rightarrow> char \<Rightarrow> string \<times> string \<times> bool" where
  "cut [] sep = ([], [], False)"
| "cut (c # cs) sep =
     (if c = sep then ([], cs, True)
      else (case cut cs sep of (b, a, ok) \<Rightarrow> (c # b, a, ok)))"

fun join :: "string list \<Rightarrow> string \<Rightarrow> string" where
  "join [] sep = []"
| "join [x] sep = x"
| "join (x # y # xs) sep = x @ sep @ join (y # xs) sep"

text \<open>\<open>strings.ReplaceAll\<close>; the sources only call it with a non-empty old string.\<close>

function replace_all :: "string \<Rightarrow> string \<Rightarrow> string \<Rightarrow> string" where
  "replace_all [] old new = []"
| "replace_all (c # cs) old new =
     (if old \<noteq> [] \<and> has_prefix (c # cs) old
      then new @ replace_all (drop (length old) (c # cs)) old new
      else c # replace_all cs old new)"
  by pat_completeness auto
termination
  by (relation "measure (\<lambda>(s, old, new). length s)") auto

lemma has_prefix_iff [go_text]: "has_prefix s p \<longleftrightarrow> prefix p s"
  by (simp add: has_prefix_def take_eq_prefix)

lemma has_suffix_iff [go_text]: "has_suffix s p \<longleftrightarrow> suffix p s"
  by (metis append_take_drop_id drop_append has_suffix_def le_add2 length_append
      append_eq_conv_conj diff_add_inverse2 suffix_def)

lemma contains_iff [go_text]: "contains s sub \<longleftrightarrow> sublist sub s"
  unfolding contains_def
proof (induction s)
  case (Cons c cs)
  then show ?case by (auto simp: has_prefix_iff sublist_Cons_right)
qed (simp add: )

lemma cut_no_sep: "sep \<notin> set s \<Longrightarrow> cut s sep = (s, [], False)"
  by (induction s) auto

lemma cut_sep: "sep \<notin> set b \<Longrightarrow> cut (b @ sep # a) sep = (b, a, True)"
  by (induction b) auto

section \<open>White space\<close>

text \<open>
  The encodings of the runes \<open>unicode.IsSpace\<close> accepts.  A rune is recognised at the start of a
  string by its bytes, and at the end likewise, since \<open>utf8.DecodeLastRune\<close> steps back to the
  nearest lead byte.
\<close>

definition ascii_spaces :: "char list" where
  "ascii_spaces = [CHR 0x09, CHR 0x0A, CHR 0x0B, CHR 0x0C, CHR 0x0D, CHR 0x20]"

definition space_runes :: "string list" where
  "space_runes = map (\<lambda>c. [c]) ascii_spaces
     @ [[CHR 0xC2, CHR 0x85], [CHR 0xC2, CHR 0xA0], [CHR 0xE1, CHR 0x9A, CHR 0x80]]
     @ map (\<lambda>c. [CHR 0xE2, CHR 0x80, c])
         [CHR 0x80, CHR 0x81, CHR 0x82, CHR 0x83, CHR 0x84, CHR 0x85, CHR 0x86, CHR 0x87,
          CHR 0x88, CHR 0x89, CHR 0x8A, CHR 0xA8, CHR 0xA9, CHR 0xAF]
     @ [[CHR 0xE2, CHR 0x81, CHR 0x9F], [CHR 0xE3, CHR 0x80, CHR 0x80]]"

definition lead_space :: "string \<Rightarrow> nat" where
  "lead_space s = (case List.find (has_prefix s) space_runes of None \<Rightarrow> 0 | Some r \<Rightarrow> length r)"

definition last_space :: "string \<Rightarrow> nat" where
  "last_space s = (case List.find (has_suffix s) space_runes of None \<Rightarrow> 0 | Some r \<Rightarrow> length r)"

lemma space_runes_nonempty: "r \<in> set space_runes \<Longrightarrow> r \<noteq> []"
  by (auto simp: space_runes_def)

lemma lead_space_Nil [simp]: "lead_space [] = 0"
  by (simp add: lead_space_def space_runes_def ascii_spaces_def has_prefix_def)

lemma last_space_Nil [simp]: "last_space [] = 0"
  by (simp add: last_space_def space_runes_def ascii_spaces_def has_suffix_def)

function trim_left :: "string \<Rightarrow> string" where
  "trim_left s = (if lead_space s = 0 then s else trim_left (drop (lead_space s) s))"
  by pat_completeness auto
termination
proof (relation "measure length")
  fix s :: string
  assume n: "lead_space s \<noteq> 0"
  then have "s \<noteq> []"
    by auto
  with n show "(drop (lead_space s) s, s) \<in> measure length"
    by simp
qed simp

function trim_right :: "string \<Rightarrow> string" where
  "trim_right s =
     (if last_space s = 0 then s else trim_right (take (length s - last_space s) s))"
  by pat_completeness auto
termination
proof (relation "measure length")
  fix s :: string
  assume n: "last_space s \<noteq> 0"
  then have "s \<noteq> []"
    by auto
  with n show "(take (length s - last_space s) s, s) \<in> measure length"
    by simp
qed simp

declare trim_left.simps [simp del] trim_right.simps [simp del]

definition trim_space :: "string \<Rightarrow> string" where
  "trim_space s = trim_right (trim_left s)"

lemma trim_left_id: "lead_space s = 0 \<Longrightarrow> trim_left s = s"
  by (subst trim_left.simps) simp

lemma trim_right_id: "last_space s = 0 \<Longrightarrow> trim_right s = s"
  by (subst trim_right.simps) simp

lemma lead_space_trim_left [simp]: "lead_space (trim_left s) = 0"
  by (induction s rule: trim_left.induct) (metis trim_left.simps)

lemma last_space_trim_right [simp]: "last_space (trim_right s) = 0"
  by (induction s rule: trim_right.induct) (metis trim_right.simps)

lemma trim_right_prefix: "prefix (trim_right s) s"
proof (induction s rule: trim_right.induct)
  case (1 s)
  show ?case
  proof (cases "last_space s = 0")
    case False
    with 1 have "prefix (trim_right (take (length s - last_space s) s)) s"
      by (meson prefix_order.trans take_is_prefix)
    with False show ?thesis by (subst trim_right.simps) simp
  qed (simp add: trim_right_id)
qed

lemma lead_space_0_iff: "lead_space s = 0 \<longleftrightarrow> (\<forall>r \<in> set space_runes. \<not> prefix r s)"
  unfolding lead_space_def
  by (auto simp: find_None_iff has_prefix_iff find_Some_iff space_runes_nonempty
      split: option.splits dest: nth_mem)

lemma lead_space_prefix: "lead_space s = 0 \<Longrightarrow> prefix t s \<Longrightarrow> lead_space t = 0"
  by (auto simp: lead_space_0_iff dest: prefix_order.trans)

lemma trim_space_idem: "trim_space (trim_space s) = trim_space s"
  unfolding trim_space_def
  by (metis last_space_trim_right lead_space_prefix lead_space_trim_left trim_left_id
      trim_right_id trim_right_prefix)

text \<open>A string that starts and ends with a printable ASCII byte is its own trimming.\<close>

lemma trim_space_Nil: "trim_space [] = []"
  by (simp add: trim_space_def trim_left.simps trim_right.simps)

definition plain_byte :: "char \<Rightarrow> bool" where
  "plain_byte c \<longleftrightarrow> 0x21 \<le> (of_char c :: nat) \<and> (of_char c :: nat) \<le> 0x7E"

lemma space_rune_ends:
  assumes "r \<in> set space_runes"
  shows "\<not> plain_byte (hd r)" and "\<not> plain_byte (last r)"
  using assms by (auto simp: space_runes_def ascii_spaces_def plain_byte_def)

lemma trim_space_plain:
  assumes "s \<noteq> []" and "plain_byte (hd s)" and "plain_byte (last s)"
  shows "trim_space s = s"
proof -
  have "lead_space s = 0"
    using assms space_rune_ends(1) space_runes_nonempty
    by (auto simp: lead_space_0_iff prefix_def)
  moreover have "last_space s = 0"
  proof -
    have "\<not> suffix r s" if "r \<in> set space_runes" for r
      using that assms space_rune_ends(2) [OF that] space_runes_nonempty [OF that]
      by (auto simp: suffix_def)
    then show ?thesis
      unfolding last_space_def
      by (auto simp: find_Some_iff has_suffix_iff split: option.splits dest: nth_mem)
  qed
  ultimately show ?thesis
    by (simp add: trim_space_def trim_left_id trim_right_id)
qed

section \<open>Lower case\<close>

text \<open>
  \<open>strings.ToLower\<close> as far as an ASCII reader of the result can tell: the ASCII letters, and the two
  other runes whose lower case is ASCII (the Kelvin sign and the dotted capital I).  All other
  runes keep their bytes here, while Go may change them into other non-ASCII bytes; the sources only
  look for ASCII substrings of the result.
\<close>

definition ascii_lower :: "char \<Rightarrow> char" where
  "ascii_lower c =
     (if 0x41 \<le> (of_char c :: nat) \<and> (of_char c :: nat) \<le> 0x5A then char_of (of_char c + 32 :: nat) else c)"

definition ascii_upper :: "char \<Rightarrow> char" where
  "ascii_upper c =
     (if 0x61 \<le> (of_char c :: nat) \<and> (of_char c :: nat) \<le> 0x7A then char_of (of_char c - 32 :: nat) else c)"

function to_lower :: "string \<Rightarrow> string" where
  "to_lower [] = []"
| "to_lower (c # cs) =
     (if has_prefix (c # cs) [CHR 0xE2, CHR 0x84, CHR 0xAA] then CHR ''k'' # to_lower (drop 2 cs)
      else if has_prefix (c # cs) [CHR 0xC4, CHR 0xB0] then CHR ''i'' # to_lower (drop 1 cs)
      else ascii_lower c # to_lower cs)"
  by pat_completeness auto
termination
  by (relation "measure length") auto

section \<open>Decimal numbers\<close>

definition is_digit :: "char \<Rightarrow> bool" where
  "is_digit c \<longleftrightarrow> 0x30 \<le> (of_char c :: nat) \<and> (of_char c :: nat) \<le> 0x39"

definition digit_val :: "char \<Rightarrow> nat" where
  "digit_val c = of_char c - 0x30"

definition digit_char :: "nat \<Rightarrow> char" where
  "digit_char d = char_of (0x30 + d)"

fun dec_value :: "string \<Rightarrow> nat" where
  "dec_value s = fold (\<lambda>c n. 10 * n + digit_val c) s 0"

fun show_nat :: "nat \<Rightarrow> string" where
  "show_nat n = (if n < 10 then [digit_char n] else show_nat (n div 10) @ [digit_char (n mod 10)])"

definition show_int :: "int \<Rightarrow> string" where
  "show_int i = (if i < 0 then ''-'' @ show_nat (nat (- i)) else show_nat (nat i))"

declare show_nat.simps [simp del]

lemma digit_char_val: "d < 10 \<Longrightarrow> is_digit (digit_char d) \<and> digit_val (digit_char d) = d"
  by (simp add: is_digit_def digit_char_def digit_val_def)

lemma dec_value_snoc: "dec_value (s @ [c]) = 10 * dec_value s + digit_val c"
  by simp

declare dec_value.simps [simp del]

lemma dec_value_show_nat [simp]: "dec_value (show_nat n) = n"
proof (induction n rule: show_nat.induct)
  case (1 n)
  show ?case
  proof (cases "n < 10")
    case True
    then show ?thesis
      by (simp add: show_nat.simps [of n] dec_value.simps digit_char_val)
  next
    case False
    with 1 show ?thesis
      by (simp add: show_nat.simps [of n] dec_value_snoc digit_char_val)
  qed
qed

lemma show_nat_digits: "list_all is_digit (show_nat n)"
proof (induction n rule: show_nat.induct)
  case (1 n)
  then show ?case
    by (subst show_nat.simps) (auto simp: digit_char_val)
qed

lemma show_nat_nonempty [simp]: "show_nat n \<noteq> []"
  by (subst show_nat.simps) simp

section \<open>Fields\<close>

text \<open>
  \<open>strings.Fields\<close>: the maximal runs of non-space bytes.  Space runes start with a byte that is no
  continuation byte, so a byte-wise scan finds exactly the spaces a rune-wise scan finds.
\<close>

function fields_loop :: "string \<Rightarrow> string \<Rightarrow> string list" where
  "fields_loop word [] = (if word = [] then [] else [word])"
| "fields_loop word (c # cs) =
     (if lead_space (c # cs) = 0 then fields_loop (word @ [c]) cs
      else (if word = [] then [] else [word]) @ fields_loop [] (drop (lead_space (c # cs)) (c # cs)))"
  by pat_completeness auto
termination
  by (relation "measure (\<lambda>(word, s). length s)") auto

definition fields :: "string \<Rightarrow> string list" where
  "fields s = fields_loop [] s"

section \<open>Quoting\<close>

text \<open>
  \<open>strconv.Quote\<close> (the verb \<open>%q\<close>).  Which non-ASCII runes are printable is Unicode's table, a
  parameter of the rune-wise part in \<open>GoJson\<close>.  A rune that is not printable is
  escaped by its code point.
\<close>

definition lower_hex :: "nat \<Rightarrow> char" where
  "lower_hex n = char_of (if n < 10 then 0x30 + n else 0x61 + (n - 10))"

definition hex2 :: "nat \<Rightarrow> string" where
  "hex2 n = [lower_hex (n div 16 mod 16), lower_hex (n mod 16)]"

definition quote_ascii :: "char \<Rightarrow> string" where
  "quote_ascii c =
     (if c = CHR 0x22 \<or> c = CHR 0x5C then [CHR 0x5C, c]
      else if c = CHR 0x07 then [CHR 0x5C, CHR ''a'']
      else if c = CHR 0x08 then [CHR 0x5C, CHR ''b'']
      else if c = CHR 0x0C then [CHR 0x5C, CHR ''f'']
      else if c = CHR 0x0A then [CHR 0x5C, CHR ''n'']
      else if c = CHR 0x0D then [CHR 0x5C, CHR ''r'']
      else if c = CHR 0x09 then [CHR 0x5C, CHR ''t'']
      else if c = CHR 0x0B then [CHR 0x5C, CHR ''v'']
      else if (of_char c :: nat) < 0x20 \<or> c = CHR 0x7F then [CHR 0x5C, CHR ''x''] @ hex2 (of_char c)
      else [c])"

end
