(* ===== verification/Redact.thy ===== *)
theory Redact imports GoText begin

text \<open>
  The secret filter of \<open>internal/client/client.go\<close> (\<open>secretFilter\<close>): it removes the bearer token from
  streamed assistant text, also when the token is split across deltas.

  A filter is \<open>None\<close> (no token: the nil receiver) or \<open>Some\<close> of a record with the token and the
  pending bytes, the end of the text so far that may still grow into the token.  The interface
  \<open>chunk_filter\<close> is what the stream decoder relies on: pushing text in pieces is pushing it whole.
\<close>

definition secretReplacement :: string where
  "secretReplacement = ''[redacted]''"

record secret_filter =
  sf_secret :: string
  sf_pending :: string

type_synonym filter_state = "secret_filter option"

definition newSecretFilter :: "string \<Rightarrow> filter_state" where
  "newSecretFilter secret =
     (if secret = [] then None else Some \<lparr>sf_secret = secret, sf_pending = []\<rparr>)"

text \<open>The scan of \<open>push\<close> from one position of the buffer: the text written, and what is left pending.\<close>

function filter_scan :: "string \<Rightarrow> string \<Rightarrow> string \<times> string" where
  "filter_scan secret [] = ([], [])"
| "filter_scan secret (c # cs) =
     (if secret \<noteq> [] \<and> has_prefix (c # cs) secret then
        (case filter_scan secret (drop (length secret) (c # cs)) of
           (out, p) \<Rightarrow> (secretReplacement @ out, p))
      else if length (c # cs) < length secret \<and> has_prefix secret (c # cs) then ([], c # cs)
      else (case filter_scan secret cs of (out, p) \<Rightarrow> (c # out, p)))"
  by pat_completeness auto
termination
  by (relation "measure (\<lambda>(secret, s). length s)") auto

fun push :: "filter_state \<Rightarrow> string \<Rightarrow> string \<times> filter_state" where
  "push None s = (s, None)"
| "push (Some f) s =
     (if sf_secret f = [] then (s, Some f)
      else case filter_scan (sf_secret f) (sf_pending f @ s) of
        (out, p) \<Rightarrow> (out, Some (f\<lparr>sf_pending := p\<rparr>)))"

fun flush :: "filter_state \<Rightarrow> string \<times> filter_state" where
  "flush None = ([], None)"
| "flush (Some f) =
     (if sf_pending f = [] then ([], Some f)
      else (secretReplacement, Some (f\<lparr>sf_pending := []\<rparr>)))"

fun redactAssembled :: "filter_state \<Rightarrow> string \<Rightarrow> string" where
  "redactAssembled None text = text"
| "redactAssembled (Some f) text =
     (let text' = replace_all text (sf_secret f) secretReplacement in
      if sf_pending f \<noteq> [] \<and> has_suffix text' (sf_pending f)
      then take (length text' - length (sf_pending f)) text' @ secretReplacement
      else text')"

section \<open>Filters over pieces of a text\<close>

fun push_all :: "('f \<Rightarrow> string \<Rightarrow> string \<times> 'f) \<Rightarrow> 'f \<Rightarrow> string list \<Rightarrow> string \<times> 'f" where
  "push_all pushf f [] = ([], f)"
| "push_all pushf f (d # ds) =
     (case pushf f d of (out, f') \<Rightarrow>
        (case push_all pushf f' ds of (outs, f'') \<Rightarrow> (out @ outs, f'')))"

locale chunk_filter =
  fixes pushf :: "'f \<Rightarrow> string \<Rightarrow> string \<times> 'f"
    and ok :: "'f \<Rightarrow> bool"
  assumes push_ok: "ok f \<Longrightarrow> pushf f s = (out, f') \<Longrightarrow> ok f'"
    and push_Nil: "ok f \<Longrightarrow> pushf f [] = ([], f)"
    and push_append: "ok f \<Longrightarrow> pushf f a = (out, f') \<Longrightarrow>
      pushf f (a @ b) = (case pushf f' b of (out', f'') \<Rightarrow> (out @ out', f''))"
begin

lemma push_all_concat: "ok f \<Longrightarrow> push_all pushf f ds = pushf f (concat ds)"
proof (induction ds arbitrary: f)
  case Nil
  then show ?case by (simp add: push_Nil)
next
  case (Cons d ds)
  obtain out f' where d: "pushf f d = (out, f')" by (cases "pushf f d")
  with Cons show ?case
    using push_ok [OF Cons.prems d] push_append [OF Cons.prems d, of "concat ds"] by simp
qed

lemma push_all_ok: "ok f \<Longrightarrow> push_all pushf f ds = (out, f') \<Longrightarrow> ok f'"
  using push_ok by (simp add: push_all_concat)

text \<open>How the text was cut into pieces does not matter.\<close>

lemma push_all_cut: "ok f \<Longrightarrow> concat ds = concat es \<Longrightarrow> push_all pushf f ds = push_all pushf f es"
  by (simp add: push_all_concat)

end

section \<open>The scan\<close>

lemma replace_all_short: "length s < length old \<Longrightarrow> replace_all s old new = s"
  by (induction s) (auto simp: has_prefix_def)

lemma filter_scan_spec:
  assumes "filter_scan secret s = (out, p)" and "secret \<noteq> []"
  shows "replace_all s secret secretReplacement = out @ p \<and> strict_prefix p secret \<and> suffix p s"
  using assms
proof (induction secret s arbitrary: out p rule: filter_scan.induct)
  case (2 secret c cs)
  show ?case
  proof (cases "has_prefix (c # cs) secret")
    case True
    with "2.prems" obtain o' where rec: "filter_scan secret (drop (length secret) (c # cs)) = (o', p)"
      and out: "out = secretReplacement @ o'"
      by (auto split: prod.splits)
    with True "2.prems" "2.IH"(1) [OF _ rec] show ?thesis
      by (auto intro: suffix_order.trans suffix_drop)
  next
    case no: False
    show ?thesis
    proof (cases "length (c # cs) < length secret \<and> has_prefix secret (c # cs)")
      case True
      with no "2.prems" show ?thesis
        using replace_all_short [of "c # cs" secret secretReplacement]
        by (auto simp: has_prefix_iff strict_prefix_def)
    next
      case False
      with no "2.prems" obtain o' where rec: "filter_scan secret cs = (o', p)" and out: "out = c # o'"
        by (auto split: prod.splits if_splits)
      with no False "2.prems" "2.IH"(2) [OF _ _ rec] show ?thesis
        by (auto simp: suffix_ConsI)
    qed
  qed
qed (auto simp: strict_prefix_def)

lemma filter_scan_pending:
  assumes "strict_prefix p secret"
  shows "filter_scan secret p = ([], p)"
proof (cases p)
  case (Cons c cs)
  have "length p < length secret" and "prefix p secret"
    using assms by (auto dest: prefix_length_less)
  with Cons show ?thesis
    by (auto simp: has_prefix_iff dest: prefix_length_le)
qed simp

text \<open>Scanning a longer buffer decides every position of the shorter one the same way.\<close>

lemma filter_scan_append:
  assumes "filter_scan secret a = (out, p)" and "secret \<noteq> []"
  shows "filter_scan secret (a @ b) =
    (case filter_scan secret (p @ b) of (out', p') \<Rightarrow> (out @ out', p'))"
  using assms
proof (induction secret a arbitrary: out p rule: filter_scan.induct)
  case (2 secret c cs)
  show ?case
  proof (cases "has_prefix (c # cs) secret")
    case True
    with "2.prems" obtain o' where rec: "filter_scan secret (drop (length secret) (c # cs)) = (o', p)"
      and out: "out = secretReplacement @ o'"
      by (auto split: prod.splits)
    from True have "has_prefix (c # cs @ b) secret" and "length secret \<le> length (c # cs)"
      by (auto simp: has_prefix_iff dest: prefix_length_le)
        (metis append_Cons prefix_append prefix_order.trans)
    moreover from this have "drop (length secret) (c # cs @ b) = drop (length secret) (c # cs) @ b"
      by (cases "length secret") auto
    ultimately show ?thesis using "2.prems" "2.IH"(1) [OF _ rec] True out
      by (auto split: prod.splits)
  next
    case no: False
    show ?thesis
    proof (cases "length (c # cs) < length secret \<and> has_prefix secret (c # cs)")
      case True
      with no "2.prems" show ?thesis by (auto split: prod.splits)
    next
      case False
      with no "2.prems" obtain o' where rec: "filter_scan secret cs = (o', p)" and out: "out = c # o'"
        by (auto split: prod.splits if_splits)
      have "\<not> has_prefix (c # cs @ b) secret"
        using no False by (auto simp: has_prefix_iff dest!: prefix_append_cases [of secret "c # cs" b, simplified])
      moreover have "\<not> (length (c # cs @ b) < length secret \<and> has_prefix secret (c # cs @ b))"
        using False by (auto simp: has_prefix_iff prefix_def)
      ultimately show ?thesis
        using no False "2.prems" "2.IH"(2) [OF _ _ rec] out by (auto split: prod.splits)
    qed
  qed
qed simp

section \<open>The filter is chunk-independent\<close>

definition filter_ok :: "filter_state \<Rightarrow> bool" where
  "filter_ok f \<longleftrightarrow> pred_option (\<lambda>r. sf_secret r \<noteq> [] \<and> strict_prefix (sf_pending r) (sf_secret r)) f"

lemma newSecretFilter_ok: "filter_ok (newSecretFilter secret)"
  by (auto simp: newSecretFilter_def filter_ok_def strict_prefix_def)

lemma push_keeps_ok: "filter_ok f \<Longrightarrow> push f s = (out, f') \<Longrightarrow> filter_ok f'"
  by (cases f) (auto simp: filter_ok_def dest: filter_scan_spec split: prod.splits)

interpretation secret: chunk_filter push filter_ok
proof
  show "push f [] = ([], f)" if "filter_ok f" for f
    using that by (cases f) (auto simp: filter_ok_def filter_scan_pending)
  show "push f (a @ b) = (case push f' b of (out', f'') \<Rightarrow> (out @ out', f''))"
    if "filter_ok f" "push f a = (out, f')" for f a out f' b
  proof (cases f)
    case (Some r)
    obtain o1 p where sc: "filter_scan (sf_secret r) (sf_pending r @ a) = (o1, p)"
      by (cases "filter_scan (sf_secret r) (sf_pending r @ a)")
    from that Some have "sf_secret r \<noteq> []" by (simp add: filter_ok_def)
    with that Some sc show ?thesis
      using filter_scan_append [OF sc, of b] by (auto split: prod.splits)
  qed (use that in auto)
qed (rule push_keeps_ok)

section \<open>What is printed\<close>

text \<open>All the text printed for the deltas \<open>ds\<close>, with the final flush of a successful stream.\<close>

definition printed :: "string \<Rightarrow> string list \<Rightarrow> string" where
  "printed token ds =
     (case push_all push (newSecretFilter token) ds of (out, f) \<Rightarrow> out @ fst (flush f))"

lemma push_new:
  assumes "token \<noteq> []" and "filter_scan token s = (out, p)"
  shows "push (newSecretFilter token) s = (out, Some \<lparr>sf_secret = token, sf_pending = p\<rparr>)"
  using assms by (simp add: newSecretFilter_def)

lemma printed_scan:
  assumes "token \<noteq> []" and "filter_scan token (concat ds) = (out, p)"
  shows "printed token ds = out @ (if p = [] then [] else secretReplacement)"
  using assms
  by (simp add: printed_def secret.push_all_concat newSecretFilter_ok push_new)

lemma scan_literal_prefix:
  assumes "filter_scan secret s = (out, p)" and "prefix q (out @ r)" and "CHR ''['' \<notin> set q"
    and "r = [] \<or> r = secretReplacement"
  shows "prefix q s"
  using assms
proof (induction secret s arbitrary: out p q rule: filter_scan.induct)
  case (1 secret)
  then show ?case by (cases q) (auto simp: secretReplacement_def)
next
  case (2 secret c cs)
  show ?case
  proof (cases q)
    case (Cons x q')
    with "2.prems" have nosec: "\<not> (secret \<noteq> [] \<and> has_prefix (c # cs) secret)"
      by (auto simp: secretReplacement_def split: prod.splits)
    with Cons "2.prems" have nopend: "\<not> (length (c # cs) < length secret \<and> has_prefix secret (c # cs))"
      by (auto simp: secretReplacement_def)
    with nosec "2.prems" obtain o' where rec: "filter_scan secret cs = (o', p)" and out: "out = c # o'"
      by (auto split: prod.splits if_splits)
    with Cons "2.prems" "2.IH"(2) [OF nosec nopend rec, of q'] show ?thesis by simp
  qed simp
qed

text \<open>
  A token cannot reappear through the replacement text when it has no bracket and is no part of
  the word between the brackets.
\<close>

definition replacement_safe :: "string \<Rightarrow> bool" where
  "replacement_safe token \<longleftrightarrow>
     CHR ''['' \<notin> set token \<and> CHR '']'' \<notin> set token \<and> \<not> contains ''redacted'' token"

lemma sublist_strip_ends:
  assumes "sublist t (x # w @ [y])" and "x \<notin> set t" and "y \<notin> set t"
  shows "sublist t w"
proof (cases "t = []")
  case False
  obtain a b where eq: "x # w @ [y] = a @ t @ b"
    using assms(1) by (auto simp: sublist_def)
  with False assms(2) obtain a' where "a = x # a'"
    by (cases a; cases t) auto
  with eq have w: "w @ [y] = a' @ t @ b" by simp
  with False assms(3) obtain b' where "b = b' @ [y]"
    by (cases b rule: rev_cases; cases t rule: rev_cases) auto
  with w show ?thesis by (auto simp: sublist_def)
qed simp

lemma not_in_replacement:
  assumes "replacement_safe token"
  shows "\<not> sublist token secretReplacement"
  using assms sublist_strip_ends [of token "CHR ''[''" "''redacted''" "CHR '']''"]
  by (auto simp: replacement_safe_def secretReplacement_def contains_iff)

lemma sublist_after_replacement:
  assumes "replacement_safe token" and "sublist token (secretReplacement @ r)"
  shows "sublist token r"
proof -
  have "a = []" if "suffix a secretReplacement" "token = a @ b" for a b
    using that assms(1)
    by (cases a rule: rev_cases) (auto simp: replacement_safe_def secretReplacement_def suffix_def)
  with assms(2) not_in_replacement [OF assms(1)] show ?thesis
    by (simp add: sublist_append [of _ secretReplacement]) (metis append_Nil prefix_imp_sublist)
qed

lemma scan_no_token:
  assumes "filter_scan token s = (out, p)" and "token \<noteq> []" and "replacement_safe token"
    and "r = [] \<or> r = secretReplacement"
  shows "\<not> sublist token (out @ r)"
  using assms
proof (induction token s arbitrary: out p rule: filter_scan.induct)
  case (1 secret)
  then show ?case using not_in_replacement by auto
next
  case (2 secret c cs)
  show ?case
  proof (cases "has_prefix (c # cs) secret")
    case True
    with "2.prems" obtain o' where rec: "filter_scan secret (drop (length secret) (c # cs)) = (o', p)"
      and out: "out = secretReplacement @ o'"
      by (auto split: prod.splits)
    have "\<not> sublist secret (o' @ r)"
      using True "2.prems" "2.IH"(1) [OF _ rec] by simp
    then show ?thesis
      using sublist_after_replacement [OF "2.prems"(3)] out by auto
  next
    case no: False
    show ?thesis
    proof (cases "length (c # cs) < length secret \<and> has_prefix secret (c # cs)")
      case True
      with no "2.prems" show ?thesis using not_in_replacement by auto
    next
      case False
      with no "2.prems" obtain o' where rec: "filter_scan secret cs = (o', p)" and out: "out = c # o'"
        by (auto split: prod.splits if_splits)
      have "\<not> sublist secret (o' @ r)"
        using no False "2.prems" "2.IH"(2) [OF _ _ rec] by simp
      moreover have "\<not> prefix secret (out @ r)"
        using scan_literal_prefix [OF "2.prems"(1), of secret r] "2.prems"(3,4) no
        by (auto simp: replacement_safe_def has_prefix_iff)
      ultimately show ?thesis
        using out by (simp add: sublist_Cons_right)
    qed
  qed
qed

text \<open>Replacing every occurrence at once leaves none either.\<close>

lemma replace_all_prefix:
  "prefix q (replace_all s token secretReplacement) \<Longrightarrow> CHR ''['' \<notin> set q \<Longrightarrow> prefix q s"
proof (induction s token secretReplacement arbitrary: q rule: replace_all.induct)
  case (2 c cs token)
  then show ?case
    by (cases q) (auto simp: secretReplacement_def split: if_splits)
qed auto

lemma replace_all_no_token:
  assumes "token \<noteq> []" and "replacement_safe token"
  shows "\<not> sublist token (replace_all s token secretReplacement)"
  using assms
proof (induction s token "secretReplacement" rule: replace_all.induct)
  case (2 c cs token)
  show ?case
  proof (cases "has_prefix (c # cs) token")
    case True
    then have "replace_all (c # cs) token secretReplacement
        = secretReplacement @ replace_all (drop (length token) (c # cs)) token secretReplacement"
      using 2(3) by simp
    moreover have "\<not> sublist token (replace_all (drop (length token) (c # cs)) token secretReplacement)"
      using True 2(1,3,4) by simp
    ultimately show ?thesis
      using sublist_after_replacement [OF 2(4)] by metis
  next
    case False
    then have eq: "replace_all (c # cs) token secretReplacement = c # replace_all cs token secretReplacement"
      by simp
    have "\<not> prefix token (c # replace_all cs token secretReplacement)"
      using replace_all_prefix [of token "c # cs" token] False 2(3,4) eq
      by (auto simp: replacement_safe_def has_prefix_iff)
    with False 2(2,3,4) eq show ?thesis
      by (simp add: sublist_Cons_right)
  qed
qed simp

section \<open>Properties\<close>

text \<open>C21: Chunk independence: the text printed for a list of stream deltas depends only on their
  concatenation, so how the server splits the token over deltas makes no difference; and it is the
  text that is committed to the conversation.  What \<open>redactAssembled\<close> makes of the assembled text
  is exactly what the deltas and the final flush printed.
\<close>

theorem printed_is_committed:
  assumes "token \<noteq> []"
  shows "printed token ds = printed token [concat ds]
    \<and> (case push_all push (newSecretFilter token) ds of
         (out, f) \<Rightarrow> redactAssembled f (concat ds) = out @ fst (flush f))"
proof -
  obtain out p where sc: "filter_scan token (concat ds) = (out, p)"
    by (cases "filter_scan token (concat ds)")
  have "redactAssembled (Some \<lparr>sf_secret = token, sf_pending = p\<rparr>) (concat ds)
      = out @ (if p = [] then [] else secretReplacement)"
    using filter_scan_spec [OF sc assms] by (auto simp: has_suffix_iff Let_def suffix_def)
  then show ?thesis
    using sc assms
    by (simp add: printed_scan secret.push_all_concat newSecretFilter_ok push_new)
qed

theorem printed_is_committed_witness:
  "printed ''tok'' [''a t'', ''ok b'', ''to''] = printed ''tok'' [''a tok bto'']"
  using printed_is_committed [of "''tok''" "[''a t'', ''ok b'', ''to'']"] by simp

text \<open>C15: No leak: for a token without brackets that is no part of the word \<open>redacted\<close>, no text the
  filter prints (after any number of deltas, with or without the final flush) contains the token.
\<close>

theorem printed_never_contains_token:
  assumes "token \<noteq> []" and "replacement_safe token"
  shows "\<not> contains (printed token ds) token
    \<and> \<not> contains (fst (push_all push (newSecretFilter token) ds)) token"
proof -
  obtain out p where sc: "filter_scan token (concat ds) = (out, p)"
    by (cases "filter_scan token (concat ds)")
  have "\<not> sublist token (out @ (if p = [] then [] else secretReplacement))"
    and "\<not> sublist token (out @ [])"
    by (rule scan_no_token [OF sc assms]; simp)+
  then show ?thesis
    using sc assms(1)
    by (simp add: printed_scan contains_iff secret.push_all_concat newSecretFilter_ok push_new)
qed

theorem printed_never_contains_token_witness:
  "\<not> contains (printed ''sk-42'' [''key sk'', ''-42 and sk-4'']) ''sk-42''"
  using printed_never_contains_token [of "''sk-42''" "[''key sk'', ''-42 and sk-4'']"]
  by (simp add: replacement_safe_def contains_def has_prefix_def)

text \<open>Ordinary text is kept: when the token does not occur in the streamed text and the text does not
  end in the beginning of the token, what is printed is the text itself.
\<close>

theorem printed_ordinary_text:
  assumes "token \<noteq> []" and "\<not> contains (concat ds) token"
    and "\<forall>q. q \<noteq> [] \<longrightarrow> suffix q (concat ds) \<longrightarrow> \<not> prefix q token"
  shows "printed token ds = concat ds"
proof -
  obtain out p where sc: "filter_scan token (concat ds) = (out, p)"
    by (cases "filter_scan token (concat ds)")
  have "replace_all s token r = s" if "\<not> sublist token s" for s r
    using that by (induction s) (auto simp: has_prefix_iff sublist_Cons_right)
  with filter_scan_spec [OF sc assms(1)] assms(2,3) have "concat ds = out @ p" and "p = []"
    by (auto simp: contains_iff strict_prefix_def)
  with sc show ?thesis
    by (simp add: printed_scan assms(1))
qed

theorem printed_ordinary_text_witness: "printed ''xyz'' [''he'', ''llo''] = ''hello''"
proof -
  have "\<forall>q. q \<noteq> [] \<longrightarrow> suffix q (concat [''he'', ''llo'']) \<longrightarrow> \<not> prefix q ''xyz''"
    by (auto simp: suffix_Cons prefix_Cons)
  then show ?thesis
    using printed_ordinary_text [of "''xyz''" "[''he'', ''llo'']"]
    by (simp add: contains_def has_prefix_def)
qed

text \<open>The condition on the token in the no-leak property is needed: for the (admissible) tokens
  \<open>red\<close> and \<open>x[redacted]\<close> the text that is printed contains the token, in the first case inside
  the replacement itself, in the second by a literal byte meeting a replacement.
\<close>

theorem short_token_reprinted:
  "contains (printed ''red'' [''see red'']) ''red''
   \<and> contains (printed ''x[redacted]'' [''xx[redacted]'']) ''x[redacted]''"
  by (simp add: printed_def newSecretFilter_def has_prefix_def contains_def secretReplacement_def)

end
