(* ===== verification/Readers.thy ===== *)
theory Readers imports GoText begin

text \<open>
  \<open>io.Reader\<close>, \<open>bufio.Reader\<close> and \<open>io.LimitReader\<close> as the sources use them.

  A reader is the bytes still to come and the error the source ends with (end of file, or a read
  error), which it keeps reporting; \<open>rd_last\<close> is what \<open>bufio.Reader\<close> remembers for \<open>UnreadByte\<close>.
  How the system cuts the bytes into reads is invisible above \<open>bufio\<close> and \<open>io.ReadAll\<close>, so a reader
  has no chunks.
\<close>

datatype io_error = EOF | ReadErr (err_timeout: bool) (err_text: string)

record reader =
  rd_rest :: string
  rd_stop :: io_error
  rd_last :: "char option"

definition new_reader :: "string \<Rightarrow> io_error \<Rightarrow> reader" where
  "new_reader bytes stop = \<lparr>rd_rest = bytes, rd_stop = stop, rd_last = None\<rparr>"

definition read_byte :: "reader \<Rightarrow> (io_error, char) result \<times> reader" where
  "read_byte br =
     (case rd_rest br of
        [] \<Rightarrow> (Inl (rd_stop br), br)
      | b # bs \<Rightarrow> (Inr b, br\<lparr>rd_rest := bs, rd_last := Some b\<rparr>))"

definition unread_byte :: "reader \<Rightarrow> reader option" where
  "unread_byte br =
     (case rd_last br of
        None \<Rightarrow> None
      | Some b \<Rightarrow> Some (br\<lparr>rd_rest := b # rd_rest br, rd_last := None\<rparr>))"

text \<open>\<open>io.LimitReader\<close>: after \<open>n\<close> bytes the source ends, whatever follows.\<close>

definition limit_reader :: "nat \<Rightarrow> reader \<Rightarrow> reader" where
  "limit_reader n br =
     (if n \<le> length (rd_rest br) then br\<lparr>rd_rest := take n (rd_rest br), rd_stop := EOF\<rparr> else br)"

definition isTimeout :: "io_error \<Rightarrow> bool" where
  "isTimeout e =
     (case e of
        EOF \<Rightarrow> False
      | ReadErr tmo msg \<Rightarrow>
          tmo \<or> contains (to_lower msg) ''deadline exceeded'' \<or> contains (to_lower msg) ''i/o timeout'')"

lemma read_byte_shrinks: "read_byte br = (Inr b, br') \<Longrightarrow> length (rd_rest br) = Suc (length (rd_rest br'))"
  by (auto simp: read_byte_def split: list.splits)

text \<open>\<open>io.ReadAll\<close>: all the bytes, and the error unless it is the end of file.\<close>

definition read_all :: "reader \<Rightarrow> string \<times> io_error option" where
  "read_all br = (rd_rest br, if rd_stop br = EOF then None else Some (rd_stop br))"

lemma read_all_limit:
  "read_all (limit_reader n br) =
     (take n (rd_rest br),
      if n \<le> length (rd_rest br) \<or> rd_stop br = EOF then None else Some (rd_stop br))"
  by (simp add: read_all_def limit_reader_def)

end
