(* ===== verification/Sse.thy ===== *)
theory Sse imports Readers begin

text \<open>
  Server-sent-event framing of \<open>internal/client/stream.go\<close>: \<open>readSSELine\<close>, \<open>readSSEEvent\<close> and
  \<open>splitSSEField\<close> over a buffered reader.
\<close>

section \<open>Lines\<close>

definition LF :: char where "LF = CHR 0x0A"
definition CR :: char where "CR = CHR 0x0D"

datatype sse_error =
    LimitReached int    \<comment> \<open>SSE event exceeded the %d-byte local limit\<close>
  | EventTooLarge       \<comment> \<open>SSE event exceeded the local size limit\<close>
  | SseEOF              \<comment> \<open>io.EOF\<close>
  | EndedEarly          \<comment> \<open>stream ended before [DONE]; ...\<close>
  | IdleTimeout         \<comment> \<open>idle timeout waiting for stream data; ...\<close>
  | ReadFailed string   \<comment> \<open>any other read error, passed through\<close>

definition line_read_error :: "io_error \<Rightarrow> sse_error" where
  "line_read_error e =
     (case e of
        EOF \<Rightarrow> SseEOF
      | ReadErr _ msg \<Rightarrow> (if isTimeout e then IdleTimeout else ReadFailed msg))"

text \<open>The byte loop of \<open>readSSELine\<close>; \<open>nread\<close> counts the bytes taken so far.\<close>

function sse_line_loop ::
  "int \<Rightarrow> string \<Rightarrow> nat \<Rightarrow> reader \<Rightarrow> (sse_error, string) result \<times> nat \<times> reader" where
  "sse_line_loop remaining buf nread br =
     (case read_byte br of
        (Inl err, br') \<Rightarrow> (Inl (line_read_error err), nread, br')
      | (Inr b, br') \<Rightarrow>
          (if int (Suc nread) > remaining then (Inl EventTooLarge, Suc nread, br')
           else if b = LF then
             (Inr (if buf \<noteq> [] \<and> last buf = CR then butlast buf else buf), Suc nread, br')
           else if b = CR then
             (case read_byte br' of
                (Inl _, br2) \<Rightarrow> (Inr buf, Suc nread, br2)
              | (Inr nxt, br2) \<Rightarrow>
                  (if nxt = LF then (Inr buf, Suc (Suc nread), br2)
                   else (case unread_byte br2 of
                      None \<Rightarrow> sse_line_loop remaining (buf @ [b]) (Suc (Suc nread)) br2
                    | Some br3 \<Rightarrow> (Inr buf, Suc nread, br3))))
           else sse_line_loop remaining (buf @ [b]) (Suc nread) br'))"
  by pat_completeness auto
termination
  by (relation "measure (\<lambda>(_, _, _, br). length (rd_rest br))")
    (auto dest!: sym [of _ "read_byte _"] read_byte_shrinks)

declare sse_line_loop.simps [simp del]

definition readSSELine :: "reader \<Rightarrow> int \<Rightarrow> (sse_error, string) result \<times> nat \<times> reader" where
  "readSSELine br remaining =
     (if remaining \<le> 0 then (Inl (LimitReached remaining), 0, br)
      else sse_line_loop remaining [] 0 br)"

definition splitSSEField :: "string \<Rightarrow> string \<times> string" where
  "splitSSEField line =
     (case cut line (CHR '':'') of
        (name, val, ok) \<Rightarrow>
          (if \<not> ok then (line, [])
           else (name, if has_prefix val '' '' then drop 1 val else val)))"

section \<open>What a line is\<close>

definition eol_byte :: "char \<Rightarrow> bool" where
  "eol_byte c \<longleftrightarrow> c = LF \<or> c = CR"

fun eol_width :: "string \<Rightarrow> nat" where
  "eol_width [] = 0"
| "eol_width (c # cs) =
     (if c = LF then 1 else if c = CR then (if cs \<noteq> [] \<and> hd cs = LF then 2 else 1) else 0)"

definition line_of :: "string \<Rightarrow> string" where
  "line_of s = takeWhile (\<lambda>c. \<not> eol_byte c) s"

definition after_line :: "string \<Rightarrow> string" where
  "after_line s = dropWhile (\<lambda>c. \<not> eol_byte c) s"

lemma LF_not_CR [simp]: "LF \<noteq> CR" "CR \<noteq> LF"
  by (simp_all add: LF_def CR_def)

lemma line_of_simps [simp]:
  "line_of [] = []" "after_line [] = []"
  "line_of (c # cs) = (if eol_byte c then [] else c # line_of cs)"
  "after_line (c # cs) = (if eol_byte c then c # cs else after_line cs)"
  by (auto simp: line_of_def after_line_def)

lemma line_split: "line_of s @ after_line s = s"
  by (simp add: line_of_def after_line_def)

lemma line_of_no_eol: "list_all (\<lambda>c. \<not> eol_byte c) (line_of s)"
  by (auto simp: line_of_def list_all_iff dest: set_takeWhileD)

text \<open>
  The loop, against that: with room for the line and its terminator it returns the line; without a
  terminator it reports how the source ended; without room it stops one byte past the limit.
\<close>

lemma sse_line_loop_spec:
  assumes "CR \<notin> set buf" and "int nread \<le> remaining" and "sse_line_loop remaining buf nread br = (res, n, br')"
  shows "(let l = line_of (rd_rest br); r = after_line (rd_rest br) in
     if int (nread + length l) + (if r = [] then 0 else 1) \<le> remaining then
       (if r = [] then res = Inl (line_read_error (rd_stop br)) \<and> n = nread + length l \<and> rd_rest br' = []
        else res = Inr (buf @ l) \<and> n = nread + length l + eol_width r
          \<and> rd_rest br' = drop (eol_width r) r)
     else res = Inl EventTooLarge \<and> int n = remaining + 1
       \<and> rd_rest br' = drop (n - nread) (rd_rest br))
   \<and> rd_stop br' = rd_stop br"
  using assms
proof (induction remaining buf nread br rule: sse_line_loop.induct)
  case (1 remaining buf nread br)
  have nocr: "\<not> (buf \<noteq> [] \<and> last buf = CR)"
    using "1.prems"(1) by (metis last_in_set)
  show ?case
  proof (cases "rd_rest br")
    case Nil
    with "1.prems" show ?thesis
      by (subst (asm) sse_line_loop.simps) (auto simp: read_byte_def)
  next
    case (Cons b bs)
    let ?br1 = "br\<lparr>rd_rest := bs, rd_last := Some b\<rparr>"
    have rb: "read_byte br = (Inr b, ?br1)"
      by (simp add: read_byte_def Cons)
    show ?thesis
    proof (cases "int (Suc nread) > remaining \<or> eol_byte b")
      case True
      with "1.prems" nocr show ?thesis
        by (subst (asm) sse_line_loop.simps)
          (auto simp: rb Cons eol_byte_def read_byte_def unread_byte_def
            split: list.splits if_splits)
    next
      case False
      with "1.prems" have "sse_line_loop remaining (buf @ [b]) (Suc nread) ?br1 = (res, n, br')"
        by (subst (asm) sse_line_loop.simps) (simp add: rb eol_byte_def)
      with False "1.prems"(1) "1.IH"(2) [OF rb [symmetric] refl] show ?thesis
        by (auto simp: Cons eol_byte_def Let_def drop_Cons' split: if_splits)
    qed
  qed
qed

lemma eol_width_le: "eol_width r \<le> length r" "eol_width r \<le> 2"
  by (cases r; auto simp: Suc_le_eq)+

lemma eol_width_after_line: "after_line s \<noteq> [] \<Longrightarrow> 1 \<le> eol_width (after_line s)"
proof (induction s)
  case (Cons c cs)
  then show ?case by (auto simp: eol_byte_def split: if_splits)
qed simp

text \<open>What every call of \<open>readSSELine\<close> does to the reader: the bytes it counts are the bytes it takes.\<close>

lemma readSSELine_moves:
  assumes "readSSELine br remaining = (res, n, br')"
  shows "rd_rest br' = drop n (rd_rest br)" and "n \<le> length (rd_rest br)"
    and "rd_stop br' = rd_stop br" and "int n \<le> max 0 (remaining + 1)"
    and "res = Inr line \<Longrightarrow> 1 \<le> n"
proof -
  let ?s = "rd_rest br"
  have split: "line_of ?s @ after_line ?s = ?s"
    by (rule line_split)
  have drop: "drop (length (line_of ?s) + k) ?s = drop k (after_line ?s)" for k
    by (subst (2) split [symmetric]) simp
  have len: "length (line_of ?s) + length (after_line ?s) = length ?s"
    by (subst (3) split [symmetric]) simp
  note eol = eol_width_le [of "after_line ?s"] eol_width_after_line [of ?s]
  have all: "rd_rest br' = drop n ?s \<and> n \<le> length ?s \<and> rd_stop br' = rd_stop br
     \<and> int n \<le> max 0 (remaining + 1) \<and> (res = Inr line \<longrightarrow> 1 \<le> n)"
  proof (cases "remaining \<le> 0")
    case True
    with assms show ?thesis by (auto simp: readSSELine_def)
  next
    case False
    with assms have loop: "sse_line_loop remaining [] 0 br = (res, n, br')"
      by (simp add: readSSELine_def)
    from False sse_line_loop_spec [OF _ _ loop] len eol show ?thesis
      by (auto simp: Let_def drop [of "eol_width (after_line ?s)", symmetric] split: if_splits)
  qed
  then show "rd_rest br' = drop n ?s" "n \<le> length ?s" "rd_stop br' = rd_stop br"
    "int n \<le> max 0 (remaining + 1)" "res = Inr line \<Longrightarrow> 1 \<le> n"
    by auto
qed

lemma readSSELine_shrinks:
  "readSSELine br remaining = (Inr line, n, br') \<Longrightarrow> length (rd_rest br') < length (rd_rest br)"
  using readSSELine_moves(1,2,5) [of br remaining "Inr line" n br'] by simp

section \<open>Events\<close>

record sse_event =
  ev_data :: string

function sse_event_loop ::
  "int \<Rightarrow> string list \<Rightarrow> nat \<Rightarrow> bool \<Rightarrow> reader
     \<Rightarrow> (sse_error, sse_event option) result \<times> nat \<times> reader" where
  "sse_event_loop maxBytes dataLines sz gotField br =
     (case readSSELine br (maxBytes - int sz) of
        (res, n, br') \<Rightarrow>
          (let sz = sz + n in
           case res of
             Inl e \<Rightarrow>
               (if e = SseEOF \<and> \<not> gotField \<and> sz = 0 then (Inl SseEOF, sz, br')
                else if e = SseEOF then (Inl EndedEarly, sz, br')
                else (Inl e, sz, br'))
           | Inr line \<Rightarrow>
               (if line = [] then
                  (if \<not> gotField then (Inr None, sz, br')
                   else (Inr (Some \<lparr>ev_data = join dataLines [LF]\<rparr>), sz, br'))
                else if has_prefix line '':'' then sse_event_loop maxBytes dataLines sz True br'
                else
                  (case splitSSEField line of (name, val) \<Rightarrow>
                     sse_event_loop maxBytes
                       (if name = ''data'' then dataLines @ [val] else dataLines) sz True br'))))"
  by pat_completeness auto
termination
  by (relation "measure (\<lambda>(_, _, _, _, br). length (rd_rest br))")
    (auto dest!: sym [of _ "readSSELine _ _"] readSSELine_shrinks)

declare sse_event_loop.simps [simp del]

definition readSSEEvent ::
  "reader \<Rightarrow> int \<Rightarrow> (sse_error, sse_event option) result \<times> nat \<times> reader" where
  "readSSEEvent br maxBytes = sse_event_loop maxBytes [] 0 False br"

text \<open>
  The counter of the event loop starts at \<open>sz\<close>; from there it counts the bytes taken, which stay
  within one byte of the limit (a CR LF pair may straddle it).
\<close>

lemma sse_event_loop_moves:
  assumes "sse_event_loop maxBytes dataLines sz gotField br = (res, n, br')"
  shows "sz \<le> n \<and> rd_rest br' = drop (n - sz) (rd_rest br) \<and> n - sz \<le> length (rd_rest br)
    \<and> rd_stop br' = rd_stop br \<and> int n \<le> max (int sz) (maxBytes + 1)
    \<and> (\<forall>ev. res = Inr ev \<longrightarrow> sz < n)"
  using assms
proof (induction maxBytes dataLines sz gotField br rule: sse_event_loop.induct)
  case (1 maxBytes dataLines sz gotField br)
  obtain res1 n1 br1 where line: "readSSELine br (maxBytes - int sz) = (res1, n1, br1)"
    by (cases "readSSELine br (maxBytes - int sz)")
  have mv: "rd_rest br1 = drop n1 (rd_rest br)" "n1 \<le> length (rd_rest br)" "rd_stop br1 = rd_stop br"
    "int n1 \<le> max 0 (maxBytes - int sz + 1)" "\<And>l. res1 = Inr l \<Longrightarrow> 1 \<le> n1"
    using readSSELine_moves [OF line] by auto
  show ?case
  proof (cases res1)
    case (Inl e)
    with "1.prems" line mv show ?thesis
      by (subst (asm) sse_event_loop.simps) (auto simp: Let_def split: if_splits)
  next
    case (Inr l)
    show ?thesis
    proof (cases "l = []")
      case True
      with Inr "1.prems" line mv show ?thesis
        by (subst (asm) sse_event_loop.simps) (auto simp: Let_def split: if_splits)
    next
      case False
      obtain ds where rec: "sse_event_loop maxBytes ds (sz + n1) True br1 = (res, n, br')"
        and ds: "(has_prefix l '':'' \<and> ds = dataLines) \<or> (\<not> has_prefix l '':'' \<and>
          (\<exists>nm v. splitSSEField l = (nm, v) \<and> ds = (if nm = ''data'' then dataLines @ [v] else dataLines)))"
        using "1.prems" False Inr line
        by (subst (asm) sse_event_loop.simps) (auto simp: Let_def split: if_splits prod.splits)
      have "sz + n1 \<le> n \<and> rd_rest br' = drop (n - (sz + n1)) (rd_rest br1)
        \<and> n - (sz + n1) \<le> length (rd_rest br1) \<and> rd_stop br' = rd_stop br1
        \<and> int n \<le> max (int (sz + n1)) (maxBytes + 1) \<and> (\<forall>ev. res = Inr ev \<longrightarrow> sz + n1 < n)"
        using ds
      proof (elim disjE conjE exE)
        assume "has_prefix l '':''" "ds = dataLines"
        with rec show ?thesis
          using "1.IH"(1) [OF line [symmetric] refl refl Inr False] by simp
      next
        fix nm v
        assume "\<not> has_prefix l '':''" "splitSSEField l = (nm, v)"
          "ds = (if nm = ''data'' then dataLines @ [v] else dataLines)"
        with rec show ?thesis
          using "1.IH"(2) [OF line [symmetric] refl refl Inr False] by simp
      qed
      with mv Inr show ?thesis
        by (auto simp: max_def split: if_splits)
    qed
  qed
qed

lemma readSSEEvent_moves:
  assumes "readSSEEvent br maxBytes = (res, n, br')"
  shows "rd_rest br' = drop n (rd_rest br)" and "n \<le> length (rd_rest br)"
    and "rd_stop br' = rd_stop br" and "int n \<le> max 0 (maxBytes + 1)"
    and "res = Inr ev \<Longrightarrow> 0 < n"
  using sse_event_loop_moves [OF assms [unfolded readSSEEvent_def]] by auto

lemma readSSEEvent_shrinks:
  "readSSEEvent br maxBytes = (Inr ev, n, br') \<Longrightarrow> length (rd_rest br') < length (rd_rest br)"
  using readSSEEvent_moves(1,2,5) [of br maxBytes "Inr ev" n br'] by simp

section \<open>Framed text\<close>

text \<open>
  A framed event: non-empty lines without CR or LF, each ended by LF or CR LF as the server likes,
  and a blank line.
\<close>

definition line_end :: "string \<Rightarrow> bool" where
  "line_end e \<longleftrightarrow> e = [LF] \<or> e = [CR, LF]"

definition frame_line :: "string \<Rightarrow> bool" where
  "frame_line l \<longleftrightarrow> l \<noteq> [] \<and> list_all (\<lambda>c. \<not> eol_byte c) l"

definition frame_text :: "(string \<times> string) list \<Rightarrow> string" where
  "frame_text les = concat (map (\<lambda>(l, e). l @ e) les)"

definition framed :: "(string \<times> string) list \<Rightarrow> bool" where
  "framed les \<longleftrightarrow> list_all (\<lambda>(l, e). frame_line l \<and> line_end e) les"

fun data_values :: "string list \<Rightarrow> string list" where
  "data_values [] = []"
| "data_values (l # ls) =
     (if has_prefix l '':'' then data_values ls
      else case splitSSEField l of
        (name, val) \<Rightarrow> (if name = ''data'' then [val] else []) @ data_values ls)"

lemma line_of_append:
  assumes "list_all (\<lambda>c. \<not> eol_byte c) l" and "line_end e"
  shows "line_of (l @ e @ s) = l" and "after_line (l @ e @ s) = e @ s"
  using assms by (induction l) (auto simp: line_end_def eol_byte_def)

lemma eol_width_line_end: "line_end e \<Longrightarrow> eol_width (e @ s) = length e"
  by (auto simp: line_end_def)

lemma readSSELine_frame:
  assumes "list_all (\<lambda>c. \<not> eol_byte c) l" and "line_end e" and "rd_rest br = l @ e @ s"
    and "int (length l + length e) \<le> remaining"
  shows "\<exists>br'. readSSELine br remaining = (Inr l, length l + length e, br')
    \<and> rd_rest br' = s \<and> rd_stop br' = rd_stop br"
proof -
  obtain res n br' where r: "readSSELine br remaining = (res, n, br')"
    by (cases "readSSELine br remaining")
  from assms have pos: "0 < remaining" and e: "e \<noteq> []" "1 \<le> length e"
    by (auto simp: line_end_def)
  with r have "sse_line_loop remaining [] 0 br = (res, n, br')"
    by (simp add: readSSELine_def)
  from sse_line_loop_spec [OF _ _ this] pos e assms
  have "res = Inr l \<and> n = length l + length e \<and> rd_rest br' = s \<and> rd_stop br' = rd_stop br"
    by (simp add: line_of_append eol_width_line_end Let_def split: if_splits)
  with r show ?thesis by blast
qed

lemma sse_event_loop_frame:
  assumes "framed les" and "line_end e0" and "rd_rest br = frame_text les @ e0 @ s"
    and "int (sz + length (frame_text les) + length e0) \<le> maxBytes" and "got \<or> les \<noteq> []"
  shows "\<exists>br'. sse_event_loop maxBytes ds sz got br =
      (Inr (Some \<lparr>ev_data = join (ds @ data_values (map fst les)) [LF]\<rparr>),
       sz + length (frame_text les) + length e0, br')
    \<and> rd_rest br' = s \<and> rd_stop br' = rd_stop br"
  using assms
proof (induction les arbitrary: ds sz got br)
  case Nil
  obtain br' where "readSSELine br (maxBytes - int sz) = (Inr [], length e0, br')"
    and "rd_rest br' = s" "rd_stop br' = rd_stop br"
    using readSSELine_frame [of "[]" e0 br s "maxBytes - int sz"] Nil
    by (auto simp: frame_text_def)
  with Nil show ?case
    by (subst sse_event_loop.simps) (simp add: Let_def frame_text_def)
next
  case (Cons le les)
  obtain l e where le: "le = (l, e)" by (cases le)
  with Cons.prems have l: "l \<noteq> []" "list_all (\<lambda>c. \<not> eol_byte c) l" and e: "line_end e"
    and les: "framed les"
    by (auto simp: framed_def frame_line_def)
  obtain br1 where rd: "readSSELine br (maxBytes - int sz) = (Inr l, length l + length e, br1)"
    and br1: "rd_rest br1 = frame_text les @ e0 @ s" "rd_stop br1 = rd_stop br"
    using readSSELine_frame [OF l(2) e, of br "frame_text les @ e0 @ s" "maxBytes - int sz"]
      Cons.prems le by (auto simp: frame_text_def)
  have len: "int (sz + (length l + length e) + length (frame_text les) + length e0) \<le> maxBytes"
    using Cons.prems(4) le by (simp add: frame_text_def)
  define ds' where "ds' = (if has_prefix l '':'' then ds else case splitSSEField l of
    (name, val) \<Rightarrow> (if name = ''data'' then ds @ [val] else ds))"
  have "sse_event_loop maxBytes ds sz got br
      = sse_event_loop maxBytes ds' (sz + (length l + length e)) True br1"
    using l(1) by (subst sse_event_loop.simps) (simp add: rd Let_def ds'_def split: prod.splits)
  moreover have "ds @ data_values (map fst (le # les)) = ds' @ data_values (map fst les)"
    by (simp add: le ds'_def split: prod.splits)
  ultimately show ?case
    using Cons.IH [OF les Cons.prems(2) br1(1) len, of True ds'] br1(2) le
    by (auto simp: frame_text_def ac_simps)
qed

section \<open>Properties\<close>

text \<open>Line reading is exact: with a positive limit, \<open>readSSELine\<close> returns the bytes before the
  first CR or LF and consumes a whole LF, CR or CR LF terminator; at the end of the bytes it reports
  how the source ended; and a line that does not fit is refused one byte past the limit.  The line
  never contains CR or LF, so the code after a failed \<open>UnreadByte\<close> is dead.
\<close>

theorem readSSELine_exact:
  assumes "0 < remaining" and "readSSELine br remaining = (res, n, br')"
  shows "let l = line_of (rd_rest br); r = after_line (rd_rest br) in
    (if int (length l) + (if r = [] then 0 else 1) \<le> remaining then
       (if r = [] then res = Inl (line_read_error (rd_stop br)) \<and> rd_rest br' = []
        else res = Inr l \<and> n = length l + eol_width r \<and> rd_rest br' = drop (eol_width r) r)
     else res = Inl EventTooLarge \<and> int n = remaining + 1)"
proof -
  from assms have "sse_line_loop remaining [] 0 br = (res, n, br')"
    by (simp add: readSSELine_def)
  from sse_line_loop_spec [OF _ _ this] assms(1) show ?thesis
    by (simp add: Let_def split: if_splits)
qed

theorem readSSELine_exact_witness:
  "fst (readSSELine (new_reader ([CHR ''a'', CR] @ ''b'') EOF) 10) = Inr ''a''
   \<and> fst (readSSELine (new_reader ''abc'' EOF) 2) = Inl EventTooLarge"
proof -
  obtain r1 n1 b1 where 1: "readSSELine (new_reader ([CHR ''a'', CR] @ ''b'') EOF) 10 = (r1, n1, b1)"
    by (cases "readSSELine (new_reader ([CHR ''a'', CR] @ ''b'') EOF) 10")
  obtain r2 n2 b2 where 2: "readSSELine (new_reader ''abc'' EOF) 2 = (r2, n2, b2)"
    by (cases "readSSELine (new_reader ''abc'' EOF) 2")
  have "r1 = Inr ''a''" and "r2 = Inl EventTooLarge"
    using readSSELine_exact [OF _ 1] readSSELine_exact [OF _ 2]
    by (simp_all add: new_reader_def eol_byte_def LF_def CR_def)
  with 1 2 show ?thesis by simp
qed

text \<open>An event of any framed lines, and a blank line on its own, which is no event.\<close>

lemma readSSEEvent_framed:
  assumes "framed les" and "line_end e0" and "rd_rest br = frame_text les @ e0 @ s"
    and "int (length (frame_text les) + length e0) \<le> maxBytes"
  shows "\<exists>br'. readSSEEvent br maxBytes =
      (Inr (if les = [] then None else Some \<lparr>ev_data = join (data_values (map fst les)) [LF]\<rparr>),
       length (frame_text les) + length e0, br')
    \<and> rd_rest br' = s \<and> rd_stop br' = rd_stop br"
proof (cases "les = []")
  case True
  with assms obtain br' where "readSSELine br maxBytes = (Inr [], length e0, br')"
    and "rd_rest br' = s" "rd_stop br' = rd_stop br"
    using readSSELine_frame [of "[]" e0 br s maxBytes] by (auto simp: frame_text_def)
  with True show ?thesis
    by (simp add: readSSEEvent_def sse_event_loop.simps [of maxBytes "[]"] frame_text_def)
next
  case False
  with sse_event_loop_frame [OF assms(1-3), of 0 maxBytes False "[]"] assms(4) show ?thesis
    by (simp add: readSSEEvent_def)
qed

text \<open>C18: Framing round trip: an event written as any non-empty lines, each ended by LF or CR LF as the
  server likes, and a blank line, is read back as the values of its \<open>data\<close> fields joined by LF
  (comments and other fields are ignored), consuming exactly its bytes, whenever it is within the
  size limit.
\<close>

theorem readSSEEvent_frames:
  assumes "framed les" and "les \<noteq> []" and "line_end e0"
    and "rd_rest br = frame_text les @ e0 @ s"
    and "int (length (frame_text les) + length e0) \<le> maxBytes"
  shows "\<exists>br'. readSSEEvent br maxBytes =
      (Inr (Some \<lparr>ev_data = join (data_values (map fst les)) [LF]\<rparr>),
       length (frame_text les) + length e0, br')
    \<and> rd_rest br' = s \<and> rd_stop br' = rd_stop br"
  using readSSEEvent_framed [OF assms(1,3-5)] assms(2) by simp

theorem readSSEEvent_frames_witness:
  "\<exists>br'. readSSEEvent (new_reader ('': hi'' @ [CR, LF] @ ''data: a'' @ [LF] @ ''data:b'' @ [LF, LF]) EOF) 100
     = (Inr (Some \<lparr>ev_data = ''a'' @ [LF] @ ''b''\<rparr>), 22, br')"
proof -
  let ?les = "[('': hi'', [CR, LF]), (''data: a'', [LF]), (''data:b'', [LF])]"
  have "framed ?les"
    by (simp add: framed_def frame_line_def line_end_def eol_byte_def LF_def CR_def)
  moreover have "data_values (map fst ?les) = [''a'', ''b'']"
    by (simp add: has_prefix_def splitSSEField_def)
  ultimately show ?thesis
    using readSSEEvent_frames [of ?les "[LF]"
      "new_reader ('': hi'' @ [CR, LF] @ ''data: a'' @ [LF] @ ''data:b'' @ [LF, LF]) EOF" "[]" 100]
    by (auto simp: line_end_def frame_text_def new_reader_def)
qed

text \<open>Bounded reading: one event takes exactly the bytes it is charged for, in order and without
  touching the rest, never more than one byte over the event limit, and at least one byte whenever
  it succeeds, so the decoder's loop makes progress.
\<close>

theorem readSSEEvent_bounded:
  assumes "0 \<le> maxBytes" and "readSSEEvent br maxBytes = (res, n, br')"
  shows "rd_rest br = take n (rd_rest br) @ rd_rest br' \<and> n + length (rd_rest br') = length (rd_rest br)
    \<and> int n \<le> maxBytes + 1 \<and> (\<forall>ev. res = Inr ev \<longrightarrow> 0 < n)"
proof -
  have "rd_rest br' = drop n (rd_rest br)" "n \<le> length (rd_rest br)" "int n \<le> max 0 (maxBytes + 1)"
    "\<forall>ev. res = Inr ev \<longrightarrow> 0 < n"
    using readSSEEvent_moves [OF assms(2)] by auto
  with assms(1) show ?thesis by auto
qed

theorem readSSEEvent_bounded_witness:
  "fst (snd (readSSEEvent (new_reader ''data: abcdef'' EOF) 4)) \<le> 5"
  using readSSEEvent_bounded [of 4 "new_reader ''data: abcdef'' EOF"
      "fst (readSSEEvent (new_reader ''data: abcdef'' EOF) 4)"
      "fst (snd (readSSEEvent (new_reader ''data: abcdef'' EOF) 4))"
      "snd (snd (readSSEEvent (new_reader ''data: abcdef'' EOF) 4))"]
  by simp

end
