(* ===== verification/GoJson.thy ===== *)
theory GoJson imports GoText begin

text \<open>
  The part of Go's \<open>unicode/utf8\<close> and \<open>encoding/json\<close> that the sources use: UTF-8 validity, the JSON
  grammar as \<open>json.Unmarshal\<close> accepts it (with its nesting limit, its treatment of invalid UTF-8 and
  of lone surrogates, and its case-insensitive field names), and the string encoder.

  A parsed object keeps the raw text of every member, which is what a \<open>json.RawMessage\<close> field holds.
\<close>

section \<open>UTF-8\<close>

definition byte_in :: "nat \<Rightarrow> nat \<Rightarrow> char \<Rightarrow> bool" where
  "byte_in lo hi c \<longleftrightarrow> lo \<le> (of_char c :: nat) \<and> (of_char c :: nat) \<le> hi"

text \<open>
  The number of bytes of the valid UTF-8 sequence a string starts with, 0 when there is none: the
  length its lead byte announces, if that many bytes are there and they are continuation bytes
  (the second one in the narrower range that excludes overlong forms and surrogates).
\<close>

definition lead_len :: "char \<Rightarrow> nat" where
  "lead_len a =
     (if byte_in 0 0x7F a then 1 else if byte_in 0xC2 0xDF a then 2
      else if byte_in 0xE0 0xEF a then 3 else if byte_in 0xF0 0xF4 a then 4 else 0)"

definition second_ok :: "char \<Rightarrow> char \<Rightarrow> bool" where
  "second_ok a b \<longleftrightarrow>
     byte_in (if a = CHR 0xE0 then 0xA0 else if a = CHR 0xF0 then 0x90 else 0x80)
             (if a = CHR 0xED then 0x9F else if a = CHR 0xF4 then 0x8F else 0xBF) b"

fun conts_ok :: "char \<Rightarrow> string \<Rightarrow> bool" where
  "conts_ok a [] \<longleftrightarrow> True"
| "conts_ok a (b # bs) \<longleftrightarrow> second_ok a b \<and> list_all (byte_in 0x80 0xBF) bs"

fun rune_len :: "string \<Rightarrow> nat" where
  "rune_len [] = 0"
| "rune_len (a # t) =
     (if lead_len a \<le> Suc (length t) \<and> conts_ok a (take (lead_len a - 1) t) then lead_len a else 0)"

declare rune_len.simps(2) [simp del]

lemma rune_len_le: "rune_len s \<le> length s"
  by (cases s) (auto simp: rune_len.simps)

function valid_utf8 :: "string \<Rightarrow> bool" where
  "valid_utf8 s =
     (if s = [] then True
      else if rune_len s = 0 then False else valid_utf8 (drop (rune_len s) s))"
  by pat_completeness auto
termination
  by (relation "measure length") auto

declare valid_utf8.simps [simp del]

definition replacement_char :: string where
  "replacement_char = [CHR 0xEF, CHR 0xBF, CHR 0xBD]"

definition byte_chr :: "nat \<Rightarrow> char" where
  "byte_chr n = char_of n"

definition encode_rune :: "nat \<Rightarrow> string" where
  "encode_rune r =
     (if r < 0x80 then [byte_chr r]
      else if r < 0x800 then [byte_chr (0xC0 + r div 64), byte_chr (0x80 + r mod 64)]
      else if r < 0x10000 then
        [byte_chr (0xE0 + r div 4096), byte_chr (0x80 + r div 64 mod 64), byte_chr (0x80 + r mod 64)]
      else
        [byte_chr (0xF0 + r div 262144), byte_chr (0x80 + r div 4096 mod 64),
         byte_chr (0x80 + r div 64 mod 64), byte_chr (0x80 + r mod 64)])"

section \<open>JSON values\<close>

datatype json =
    JNull
  | JBool bool
  | JNum string
  | JStr string
  | JArr "json list"
  | JObj "(string \<times> string \<times> json) list"   \<comment> \<open>key, raw text of the value, value\<close>

definition json_space :: "char \<Rightarrow> bool" where
  "json_space c \<longleftrightarrow> c \<in> {CHR 0x20, CHR 0x09, CHR 0x0D, CHR 0x0A}"

definition skip_ws :: "string \<Rightarrow> string" where
  "skip_ws s = dropWhile json_space s"

section \<open>Strings\<close>

definition hex_val :: "char \<Rightarrow> nat option" where
  "hex_val c =
     (if byte_in 0x30 0x39 c then Some (of_char c - 0x30)
      else if byte_in 0x61 0x66 c then Some (of_char c - 0x61 + 10)
      else if byte_in 0x41 0x46 c then Some (of_char c - 0x41 + 10)
      else None)"

definition getu4 :: "string \<Rightarrow> nat option" where
  "getu4 s =
     (case s of
        a # b # c # d # _ \<Rightarrow>
          (case (hex_val a, hex_val b, hex_val c, hex_val d) of
             (Some w, Some x, Some y, Some z) \<Rightarrow> Some (4096 * w + 256 * x + 16 * y + z)
           | _ \<Rightarrow> None)
      | _ \<Rightarrow> None)"

definition is_surrogate :: "nat \<Rightarrow> bool" where
  "is_surrogate r \<longleftrightarrow> 0xD800 \<le> r \<and> r < 0xE000"

text \<open>The second half of a surrogate pair, when the text goes on with one.\<close>

definition low_surrogate :: "nat \<Rightarrow> string \<Rightarrow> nat option" where
  "low_surrogate hi s =
     (if has_prefix s [CHR 0x5C, CHR ''u''] then
        (case getu4 (drop 2 s) of
           Some lo \<Rightarrow>
             (if hi < 0xDC00 \<and> 0xDC00 \<le> lo \<and> lo < 0xE000
              then Some (0x10000 + (hi - 0xD800) * 1024 + (lo - 0xDC00)) else None)
         | None \<Rightarrow> None)
      else None)"

definition simple_escape :: "char \<Rightarrow> char option" where
  "simple_escape e =
     (if e \<in> {CHR 0x22, CHR 0x5C, CHR ''/''} then Some e
      else if e = CHR ''b'' then Some (CHR 0x08)
      else if e = CHR ''f'' then Some (CHR 0x0C)
      else if e = CHR ''n'' then Some (CHR 0x0A)
      else if e = CHR ''r'' then Some (CHR 0x0D)
      else if e = CHR ''t'' then Some (CHR 0x09)
      else None)"

definition put :: "string \<Rightarrow> (string \<times> string) option \<Rightarrow> (string \<times> string) option" where
  "put x r = map_option (\<lambda>(t, rest). (x @ t, rest)) r"

lemma put_Some [simp]: "put x (Some (t, rest)) = Some (x @ t, rest)"
  by (simp add: put_def)

text \<open>A string literal after its opening quote: the decoded text and what follows the closing quote.\<close>

function json_string :: "string \<Rightarrow> (string \<times> string) option" where
  "json_string [] = None"
| "json_string (c # cs) =
     (if c = CHR 0x22 then Some ([], cs)
      else if c = CHR 0x5C then
        (case cs of
           [] \<Rightarrow> None
         | e # es \<Rightarrow>
             (case simple_escape e of
                Some x \<Rightarrow> put [x] (json_string es)
              | None \<Rightarrow>
                  (if e \<noteq> CHR ''u'' then None
                   else case getu4 es of
                     None \<Rightarrow> None
                   | Some r \<Rightarrow>
                       (if is_surrogate r then
                          (case low_surrogate r (drop 4 es) of
                             Some r2 \<Rightarrow> put (encode_rune r2) (json_string (drop 10 es))
                           | None \<Rightarrow> put replacement_char (json_string (drop 4 es)))
                        else put (encode_rune r) (json_string (drop 4 es))))))
      else if (of_char c :: nat) < 0x20 then None
      else if rune_len (c # cs) = 0 then put replacement_char (json_string cs)
      else put (take (rune_len (c # cs)) (c # cs)) (json_string (drop (rune_len (c # cs)) (c # cs))))"
  by pat_completeness auto
termination
  by (relation "measure length") auto

declare json_string.simps(2) [simp del]

section \<open>Numbers and values\<close>

definition json_frac :: "string \<Rightarrow> (string \<times> string) option" where
  "json_frac s =
     (case s of
        c # cs \<Rightarrow>
          (if c = CHR ''.'' then
             (let ds = takeWhile is_digit cs in
              if ds = [] then None else Some (c # ds, dropWhile is_digit cs))
           else Some ([], s))
      | [] \<Rightarrow> Some ([], []))"

definition json_exp :: "string \<Rightarrow> (string \<times> string) option" where
  "json_exp s =
     (case s of
        c # cs \<Rightarrow>
          (if c = CHR ''e'' \<or> c = CHR ''E'' then
             (let sg = (if cs \<noteq> [] \<and> (hd cs = CHR ''+'' \<or> hd cs = CHR ''-'') then [hd cs] else []);
                  t = drop (length sg) cs; ds = takeWhile is_digit t in
              if ds = [] then None else Some (c # sg @ ds, dropWhile is_digit t))
           else Some ([], s))
      | [] \<Rightarrow> Some ([], []))"

definition json_number :: "string \<Rightarrow> (string \<times> string) option" where
  "json_number s =
     (let sg = (if has_prefix s ''-'' then ''-'' else []); t = drop (length sg) s;
          ds = (if has_prefix t ''0'' then ''0'' else takeWhile is_digit t) in
      if ds = [] then None
      else case json_frac (drop (length ds) t) of
        None \<Rightarrow> None
      | Some (fr, t2) \<Rightarrow>
          (case json_exp t2 of
             None \<Rightarrow> None
           | Some (ex, t3) \<Rightarrow> Some (sg @ ds @ fr @ ex, t3)))"

text \<open>
  One value, after white space.  The first argument is fuel (each call uses one unit and every two
  calls take at least one byte, see \<open>parse_json\<close>); the second is the nesting still allowed, which
  Go's scanner limits to 10000.
\<close>

fun json_value :: "nat \<Rightarrow> nat \<Rightarrow> string \<Rightarrow> (json \<times> string) option"
  and json_elems :: "nat \<Rightarrow> nat \<Rightarrow> string \<Rightarrow> (json list \<times> string) option"
  and json_members :: "nat \<Rightarrow> nat \<Rightarrow> string \<Rightarrow> ((string \<times> string \<times> json) list \<times> string) option"
where
  "json_value 0 d s = None"
| "json_value (Suc n) d s =
     (case skip_ws s of
        [] \<Rightarrow> None
      | c # cs \<Rightarrow>
          (if c = CHR ''{'' then
             (if d = 0 then None
              else if has_prefix (skip_ws cs) ''}'' then Some (JObj [], drop 1 (skip_ws cs))
              else map_option (\<lambda>(ms, r). (JObj ms, r)) (json_members n (d - 1) cs))
           else if c = CHR ''['' then
             (if d = 0 then None
              else if has_prefix (skip_ws cs) '']'' then Some (JArr [], drop 1 (skip_ws cs))
              else map_option (\<lambda>(es, r). (JArr es, r)) (json_elems n (d - 1) cs))
           else if c = CHR 0x22 then map_option (\<lambda>(t, r). (JStr t, r)) (json_string cs)
           else if has_prefix (c # cs) ''null'' then Some (JNull, drop 3 cs)
           else if has_prefix (c # cs) ''true'' then Some (JBool True, drop 3 cs)
           else if has_prefix (c # cs) ''false'' then Some (JBool False, drop 4 cs)
           else map_option (\<lambda>(t, r). (JNum t, r)) (json_number (c # cs))))"
| "json_elems 0 d s = None"
| "json_elems (Suc n) d s =
     (case json_value n d s of
        None \<Rightarrow> None
      | Some (v, r) \<Rightarrow>
          (let r = skip_ws r in
           if has_prefix r '']'' then Some ([v], drop 1 r)
           else if has_prefix r '','' then
             map_option (\<lambda>(vs, r'). (v # vs, r')) (json_elems n d (drop 1 r))
           else None))"
| "json_members 0 d s = None"
| "json_members (Suc n) d s =
     (let s = skip_ws s in
      if \<not> has_prefix s [CHR 0x22] then None
      else case json_string (drop 1 s) of
        None \<Rightarrow> None
      | Some (k, r) \<Rightarrow>
          (let r = skip_ws r in
           if \<not> has_prefix r '':'' then None
           else let t = skip_ws (drop 1 r) in
             case json_value n d t of
               None \<Rightarrow> None
             | Some (v, r2) \<Rightarrow>
                 (let raw = take (length t - length r2) t; r2 = skip_ws r2 in
                  if has_prefix r2 ''}'' then Some ([(k, raw, v)], drop 1 r2)
                  else if has_prefix r2 '','' then
                    map_option (\<lambda>(ms, r'). ((k, raw, v) # ms, r')) (json_members n d (drop 1 r2))
                  else None)))"

definition max_nesting :: nat where "max_nesting = 10000"

text \<open>\<open>json.Unmarshal\<close> on a whole document: one value and nothing but white space after it.\<close>

definition parse_json :: "string \<Rightarrow> json option" where
  "parse_json s =
     (case json_value (2 * length s + 2) max_nesting s of
        None \<Rightarrow> None
      | Some (v, r) \<Rightarrow> (if skip_ws r = [] then Some v else None))"

section \<open>Field names\<close>

text \<open>
  \<open>encoding/json\<close> matches object keys with struct fields without regard to case, under Unicode
  simple folding; the only non-ASCII runes that fold to ASCII are the long s and the Kelvin sign.
\<close>

function fold_name :: "string \<Rightarrow> string" where
  "fold_name [] = []"
| "fold_name (c # cs) =
     (if has_prefix (c # cs) [CHR 0xC5, CHR 0xBF] then CHR ''S'' # fold_name (drop 1 cs)
      else if has_prefix (c # cs) [CHR 0xE2, CHR 0x84, CHR 0xAA] then CHR ''K'' # fold_name (drop 2 cs)
      else ascii_upper c # fold_name cs)"
  by pat_completeness auto
termination
  by (relation "measure length") auto

definition names_field :: "string \<Rightarrow> string \<Rightarrow> bool" where
  "names_field key fieldname \<longleftrightarrow> fold_name key = fold_name fieldname"

section \<open>Encoding strings\<close>

definition hex_digit :: "nat \<Rightarrow> char" where
  "hex_digit n = byte_chr (if n < 10 then 0x30 + n else 0x61 + (n - 10))"

definition u_escape :: "nat \<Rightarrow> string" where
  "u_escape n = [CHR 0x5C, CHR ''u'', hex_digit (n div 4096 mod 16), hex_digit (n div 256 mod 16),
     hex_digit (n div 16 mod 16), hex_digit (n mod 16)]"

definition escape_ascii :: "bool \<Rightarrow> char \<Rightarrow> string" where
  "escape_ascii html c =
     (if c = CHR 0x22 \<or> c = CHR 0x5C then [CHR 0x5C, c]
      else if c = CHR 0x08 then [CHR 0x5C, CHR ''b'']
      else if c = CHR 0x0C then [CHR 0x5C, CHR ''f'']
      else if c = CHR 0x0A then [CHR 0x5C, CHR ''n'']
      else if c = CHR 0x0D then [CHR 0x5C, CHR ''r'']
      else if c = CHR 0x09 then [CHR 0x5C, CHR ''t'']
      else if (of_char c :: nat) < 0x20 \<or> html \<and> (c = CHR ''<'' \<or> c = CHR ''>'' \<or> c = CHR ''&'')
        then u_escape (of_char c)
      else [c])"

function quote_body :: "bool \<Rightarrow> string \<Rightarrow> string" where
  "quote_body html [] = []"
| "quote_body html (c # cs) =
     (if byte_in 0 0x7F c then escape_ascii html c @ quote_body html cs
      else if rune_len (c # cs) = 0 then [CHR 0x5C] @ ''ufffd'' @ quote_body html cs
      else if has_prefix (c # cs) [CHR 0xE2, CHR 0x80, CHR 0xA8] then u_escape 0x2028 @ quote_body html (drop 2 cs)
      else if has_prefix (c # cs) [CHR 0xE2, CHR 0x80, CHR 0xA9] then u_escape 0x2029 @ quote_body html (drop 2 cs)
      else take (rune_len (c # cs)) (c # cs) @ quote_body html (drop (rune_len (c # cs)) (c # cs)))"
  by pat_completeness auto
termination
  by (relation "measure (\<lambda>(html, s). length s)") auto

declare quote_body.simps(2) [simp del]

definition json_quote :: "bool \<Rightarrow> string \<Rightarrow> string" where
  "json_quote html s = [CHR 0x22] @ quote_body html s @ [CHR 0x22]"

section \<open>Quoting for diagnostics\<close>

definition rune_value :: "string \<Rightarrow> nat" where
  "rune_value s =
     (case map of_char s of
        [a] \<Rightarrow> a
      | [a, b] \<Rightarrow> (a - 0xC0) * 64 + (b - 0x80)
      | [a, b, c] \<Rightarrow> (a - 0xE0) * 4096 + (b - 0x80) * 64 + (c - 0x80)
      | [a, b, c, d] \<Rightarrow> (a - 0xF0) * 262144 + (b - 0x80) * 4096 + (c - 0x80) * 64 + (d - 0x80)
      | _ \<Rightarrow> 0)"

definition quote_rune :: "(nat \<Rightarrow> bool) \<Rightarrow> string \<Rightarrow> string" where
  "quote_rune printable r =
     (let v = rune_value r in
      if printable v then r
      else if v < 0x10000 then [CHR 0x5C, CHR ''u''] @ hex2 (v div 256) @ hex2 v
      else [CHR 0x5C, CHR ''U''] @ hex2 (v div 16777216) @ hex2 (v div 65536) @ hex2 (v div 256) @ hex2 v)"

function go_quote_body :: "(nat \<Rightarrow> bool) \<Rightarrow> string \<Rightarrow> string" where
  "go_quote_body printable [] = []"
| "go_quote_body printable (c # cs) =
     (if byte_in 0 0x7F c then quote_ascii c @ go_quote_body printable cs
      else if rune_len (c # cs) = 0 then
        [CHR 0x5C, CHR ''x''] @ hex2 (of_char c) @ go_quote_body printable cs
      else quote_rune printable (take (rune_len (c # cs)) (c # cs))
        @ go_quote_body printable (drop (rune_len (c # cs)) (c # cs)))"
  by pat_completeness auto
termination
  by (relation "measure (\<lambda>(_, s). length s)") auto

definition go_quote :: "(nat \<Rightarrow> bool) \<Rightarrow> string \<Rightarrow> string" where
  "go_quote printable s = [CHR 0x22] @ go_quote_body printable s @ [CHR 0x22]"

end
