(* ===== verification/JsonPrint.thy ===== *)
theory JsonPrint imports GoJson begin

text \<open>
  The compact JSON that \<open>json.Marshal\<close> writes, and that the parser of \<open>GoJson\<close> reads it back: for
  strings, then for whole values, with the fuel of \<open>parse_json\<close> shown to be enough.
\<close>

section \<open>UTF-8 sequences at the head of a string\<close>

lemma rune_len_take:
  assumes "rune_len s \<noteq> 0"
  shows "rune_len (take (rune_len s) s @ t) = rune_len s"
proof (cases s)
  case (Cons a bs)
  with assms have k: "rune_len s = lead_len a" "lead_len a \<le> Suc (length bs)"
    "conts_ok a (take (lead_len a - 1) bs)"
    by (auto simp: rune_len.simps split: if_splits)
  with assms obtain m where "lead_len a = Suc m" by (cases "lead_len a") auto
  with k Cons show ?thesis by (simp add: rune_len.simps)
qed (use assms in simp)

lemma rune_len_ascii: "byte_in 0 0x7F c \<Longrightarrow> rune_len (c # cs) = 1"
  by (simp add: rune_len.simps lead_len_def)

lemma valid_utf8_Nil [simp]: "valid_utf8 []"
  by (subst valid_utf8.simps) simp

lemma valid_utf8_Cons:
  "valid_utf8 (c # cs) \<longleftrightarrow>
     rune_len (c # cs) \<noteq> 0 \<and> valid_utf8 (drop (rune_len (c # cs)) (c # cs))"
  by (subst valid_utf8.simps) simp

lemma valid_utf8_ascii: "list_all (byte_in 0 0x7F) s \<Longrightarrow> valid_utf8 s"
  by (induction s) (auto simp: valid_utf8_Cons rune_len_ascii)

section \<open>Escapes\<close>

lemma hex_val_digit: "n < 16 \<Longrightarrow> hex_val (hex_digit n) = Some n"
proof -
  have "list_all (\<lambda>n. hex_val (hex_digit n) = Some n) [0..<16]"
    by (simp add: upt_rec hex_val_def hex_digit_def byte_chr_def byte_in_def)
  then show "n < 16 \<Longrightarrow> hex_val (hex_digit n) = Some n"
    by (simp add: list_all_iff)
qed

lemma getu4_escape: "n < 65536 \<Longrightarrow> getu4 (drop 2 (u_escape n @ t)) = Some n"
proof -
  assume n: "n < 65536"
  have "n div 256 div 16 = n div 4096" "n div 16 div 16 = n div 256"
    by (simp_all add: div_mult2_eq [symmetric])
  moreover have m: "n div 4096 mod 16 = n div 4096"
    using n by simp
  moreover have d: "n div 4096 < 16"
    using n by simp
  ultimately have "4096 * (n div 4096) + 256 * (n div 256 mod 16) + 16 * (n div 16 mod 16)
      + n mod 16 = n"
    using div_mult_mod_eq [of "n div 256" 16] div_mult_mod_eq [of "n div 16" 16]
      div_mult_mod_eq [of n 16] by linarith
  then show ?thesis
    by (simp add: getu4_def u_escape_def hex_val_digit hex_val_digit [OF d] m)
qed

lemma json_string_u_escape:
  assumes "n < 65536" and "\<not> is_surrogate n"
  shows "json_string (u_escape n @ t) = put (encode_rune n) (json_string t)"
proof -
  have "getu4 (drop 2 (u_escape n @ t)) = Some n"
    using assms(1) by (rule getu4_escape)
  with assms(2) show ?thesis
    by (simp add: u_escape_def json_string.simps(2) simple_escape_def)
qed

lemma json_string_escape:
  assumes "byte_in 0 0x7F c"
  shows "json_string (escape_ascii html c @ t) = put [c] (json_string t)"
proof -
  have enc: "encode_rune (of_char c) = [c]"
    using assms by (simp add: encode_rune_def byte_chr_def byte_in_def)
  have "json_string (u_escape (of_char c) @ t) = put [c] (json_string t)"
    using assms json_string_u_escape [of "of_char c" t]
    by (simp add: enc byte_in_def is_surrogate_def)
  moreover have "json_string (c # t) = put [c] (json_string t)"
    if "c \<noteq> CHR 0x22" "c \<noteq> CHR 0x5C" "\<not> (of_char c :: nat) < 0x20"
    using that assms by (simp add: json_string.simps(2) rune_len_ascii)
  ultimately show ?thesis
    by (simp add: escape_ascii_def json_string.simps(2) simple_escape_def)
qed

lemma json_string_rune:
  assumes "rune_len (c # cs) \<noteq> 0" and "\<not> byte_in 0 0x7F c"
  shows "json_string (take (rune_len (c # cs)) (c # cs) @ t)
     = put (take (rune_len (c # cs)) (c # cs)) (json_string t)"
proof -
  let ?k = "rune_len (c # cs)"
  from assms(1) obtain k where k: "?k = Suc k" by (cases ?k) auto
  have "rune_len (take ?k (c # cs) @ t) = ?k"
    using assms(1) by (rule rune_len_take)
  moreover have "c \<noteq> CHR 0x22" "c \<noteq> CHR 0x5C" "\<not> (of_char c :: nat) < 0x20"
    using assms(2) by (auto simp: byte_in_def)
  moreover have "length (take ?k (c # cs)) = ?k"
    using rune_len_le [of "c # cs"] by simp
  ultimately show ?thesis
    using k by (simp add: json_string.simps(2))
qed

lemma encode_separators:
  "encode_rune 0x2028 = [CHR 0xE2, CHR 0x80, CHR 0xA8]"
  "encode_rune 0x2029 = [CHR 0xE2, CHR 0x80, CHR 0xA9]"
  by (simp_all add: encode_rune_def byte_chr_def char_of_def bit_0)

theorem json_string_quote:
  "valid_utf8 s \<Longrightarrow> json_string (quote_body html s @ CHR 0x22 # r) = Some (s, r)"
proof (induction html s rule: quote_body.induct)
  case (1 html)
  then show ?case by (simp add: json_string.simps(2))
next
  case (2 html c cs)
  let ?k = "rune_len (c # cs)"
  from "2.prems" have k: "?k \<noteq> 0" and v: "valid_utf8 (drop ?k (c # cs))"
    by (auto simp: valid_utf8_Cons)
  show ?case
  proof (cases "byte_in 0 0x7F c")
    case True
    with "2.IH"(1) v show ?thesis
      by (simp add: quote_body.simps(2) rune_len_ascii json_string_escape)
  next
    case False
    have sep: "json_string (quote_body html (c # cs) @ CHR 0x22 # r) = Some (c # cs, r)"
      if p: "has_prefix (c # cs) [CHR 0xE2, CHR 0x80, l]" and "n < 65536"
      "\<not> is_surrogate n" "encode_rune n = [CHR 0xE2, CHR 0x80, l]" "byte_in 0x80 0xBF l"
      "quote_body html (c # cs) = u_escape n @ quote_body html (drop 2 cs)"
      "valid_utf8 (drop 2 cs) \<Longrightarrow>
         json_string (quote_body html (drop 2 cs) @ CHR 0x22 # r) = Some (drop 2 cs, r)" for l n
    proof -
      from p obtain cs' where cs: "c = CHR 0xE2" "cs = CHR 0x80 # l # cs'"
        by (auto simp: has_prefix_iff prefix_def)
      with that(5) have "?k = 3"
        by (simp add: rune_len.simps lead_len_def second_ok_def byte_in_def)
      with v cs that show ?thesis
        by (simp add: json_string_u_escape)
    qed
    show ?thesis
    proof (cases "has_prefix (c # cs) [CHR 0xE2, CHR 0x80, CHR 0xA8]")
      case True
      with False k "2.IH"(3) show ?thesis
        by (intro sep [of "CHR 0xA8" "0x2028"])
          (simp_all add: quote_body.simps(2) encode_separators is_surrogate_def byte_in_def)
    next
      case no1: False
      show ?thesis
      proof (cases "has_prefix (c # cs) [CHR 0xE2, CHR 0x80, CHR 0xA9]")
        case True
        with False no1 k "2.IH"(4) show ?thesis
          by (intro sep [of "CHR 0xA9" "0x2029"])
            (simp_all add: quote_body.simps(2) encode_separators is_surrogate_def byte_in_def)
      next
        case no2: False
        with False no1 k v "2.IH"(5) show ?thesis
          by (simp add: quote_body.simps(2) json_string_rune)
      qed
    qed
  qed
qed

section \<open>Whole values\<close>

text \<open>
  The compact form of a value: what \<open>json.Marshal\<close> produces, with the members of an object in the
  given order.  The raw texts kept in a parsed object are determined by its values.
\<close>

fun json_print :: "bool \<Rightarrow> json \<Rightarrow> string" where
  "json_print html JNull = ''null''"
| "json_print html (JBool b) = (if b then ''true'' else ''false'')"
| "json_print html (JNum t) = t"
| "json_print html (JStr s) = json_quote html s"
| "json_print html (JArr es) = ''['' @ join (map (json_print html) es) '','' @ '']''"
| "json_print html (JObj ms) =
     ''{'' @ join (map (\<lambda>(k, raw, v). json_quote html k @ '':'' @ json_print html v) ms) '','' @ ''}''"

definition plain_number :: "string \<Rightarrow> bool" where
  "plain_number t \<longleftrightarrow> t \<noteq> [] \<and> list_all is_digit t \<and> (hd t \<noteq> CHR ''0'' \<or> t = ''0'')"

fun json_wf :: "bool \<Rightarrow> nat \<Rightarrow> json \<Rightarrow> bool" where
  "json_wf html d (JNum t) \<longleftrightarrow> plain_number t"
| "json_wf html d (JStr s) \<longleftrightarrow> valid_utf8 s"
| "json_wf html d (JArr es) \<longleftrightarrow> 0 < d \<and> list_all (json_wf html (d - 1)) es"
| "json_wf html d (JObj ms) \<longleftrightarrow>
     0 < d \<and> list_all (\<lambda>(k, raw, v). valid_utf8 k \<and> raw = json_print html v \<and> json_wf html (d - 1) v) ms"
| "json_wf html d _ \<longleftrightarrow> True"

text \<open>What may follow a value without being read as part of it.\<close>

definition follows :: "string \<Rightarrow> bool" where
  "follows r \<longleftrightarrow> r = [] \<or> hd r \<in> {CHR '','', CHR '']'', CHR ''}''}"

lemma follows_simps [simp]:
  "follows []" "follows (CHR '','' # r)" "follows (CHR '']'' # r)" "follows (CHR ''}'' # r)"
  by (auto simp: follows_def)

lemma skip_ws_Cons [simp]: "\<not> json_space c \<Longrightarrow> skip_ws (c # cs) = c # cs"
  by (simp add: skip_ws_def)

lemma skip_ws_Nil [simp]: "skip_ws [] = []"
  by (simp add: skip_ws_def)

lemma not_space [simp]:
  "\<not> json_space (CHR ''{'')" "\<not> json_space (CHR ''}'')" "\<not> json_space (CHR ''['')"
  "\<not> json_space (CHR '']'')" "\<not> json_space (CHR '','')" "\<not> json_space (CHR '':'')"
  "\<not> json_space (CHR 0x22)" "\<not> json_space (CHR ''n'')" "\<not> json_space (CHR ''t'')"
  "\<not> json_space (CHR ''f'')"
  by (simp_all add: json_space_def)

lemma digit_starts:
  assumes "is_digit c"
  shows "\<not> json_space c" "c \<noteq> CHR ''{''" "c \<noteq> CHR ''}''" "c \<noteq> CHR ''[''" "c \<noteq> CHR '']''" "c \<noteq> CHR 0x22"
    "c \<noteq> CHR ''n''" "c \<noteq> CHR ''t''" "c \<noteq> CHR ''f''" "c \<noteq> CHR ''-''"
  using assms by (auto simp: is_digit_def json_space_def)

lemma follows_not_digit: "follows r \<Longrightarrow> r \<noteq> [] \<Longrightarrow> \<not> is_digit (hd r)"
  by (auto simp: follows_def is_digit_def)

lemma takeWhile_digits: "list_all is_digit t \<Longrightarrow> follows r \<Longrightarrow> takeWhile is_digit (t @ r) = t"
proof -
  assume t: "list_all is_digit t" and r: "follows r"
  have "takeWhile is_digit r = []"
    using follows_not_digit [OF r] by (cases r) auto
  with t show ?thesis
    by (simp add: list_all_iff)
qed

lemma follows_frac: "follows r \<Longrightarrow> json_frac r = Some ([], r)"
  by (cases r) (auto simp: follows_def json_frac_def)

lemma follows_exp: "follows r \<Longrightarrow> json_exp r = Some ([], r)"
  by (cases r) (auto simp: follows_def json_exp_def)

lemma json_number_plain:
  assumes "plain_number t" and "follows r"
  shows "json_number (t @ r) = Some (t, r)"
proof -
  obtain c cs where t: "t = c # cs"
    using assms(1) by (cases t) (auto simp: plain_number_def)
  from assms(1) t have c: "is_digit c" "list_all is_digit t" "c \<noteq> CHR ''0'' \<or> cs = []"
    by (auto simp: plain_number_def)
  then have "\<not> has_prefix (t @ r) ''-''"
    using digit_starts(10) by (auto simp: t has_prefix_def)
  moreover have "has_prefix (t @ r) ''0'' \<Longrightarrow> t = ''0''"
    using c by (auto simp: t has_prefix_def)
  moreover have "takeWhile is_digit (t @ r) = t"
    using c(2) assms(2) by (rule takeWhile_digits)
  ultimately show ?thesis
    using follows_frac [OF assms(2)] follows_exp [OF assms(2)] assms(1)
    by (cases "has_prefix (t @ r) ''0''") (auto simp: json_number_def Let_def plain_number_def)
qed

text \<open>First byte of a printed value.\<close>

lemma json_print_starts:
  assumes "json_wf html d v"
  shows "\<exists>c cs. json_print html v = c # cs \<and> \<not> json_space c \<and> c \<noteq> CHR ''}'' \<and> c \<noteq> CHR '']''"
proof (cases v)
  case (JNum t)
  with assms show ?thesis
    by (cases t) (auto simp: plain_number_def dest: digit_starts)
qed (auto simp: json_quote_def)

lemma json_members_start:
  assumes "valid_utf8 k"
  shows "json_members (Suc n) d (json_quote html k @ CHR '':'' # t) =
    (let t = skip_ws t in
     case json_value n d t of
       None \<Rightarrow> None
     | Some (v, r2) \<Rightarrow>
         (let raw = take (length t - length r2) t; r2 = skip_ws r2 in
          if has_prefix r2 ''}'' then Some ([(k, raw, v)], drop 1 r2)
          else if has_prefix r2 '','' then
            map_option (\<lambda>(ms, r'). ((k, raw, v) # ms, r')) (json_members n d (drop 1 r2))
          else None))"
  using json_string_quote [OF assms, of html "CHR '':'' # t"]
  by (simp add: json_quote_def has_prefix_def Let_def)

text \<open>
  The statement of the round trip at one value: any text that may follow it, any fuel of at least
  twice the printed length.
\<close>

definition reads_back :: "bool \<Rightarrow> nat \<Rightarrow> json \<Rightarrow> bool" where
  "reads_back html d v \<longleftrightarrow>
     (\<forall>n r. 2 * length (json_print html v) \<le> n \<longrightarrow> follows r \<longrightarrow>
        json_value n d (json_print html v @ r) = Some (v, r))"

lemma json_elems_print:
  assumes "es \<noteq> []" and "\<forall>e \<in> set es. reads_back html d e \<and> json_wf html d e"
    and "2 * length (join (map (json_print html) es) '','') + 2 \<le> n"
  shows "json_elems n d (join (map (json_print html) es) '','' @ '']'' @ r) = Some (es, r)"
  using assms
proof (induction es arbitrary: n)
  case (Cons e es)
  obtain m where n: "n = Suc m"
    using Cons.prems(3) by (cases n) auto
  have e: "json_value m d (json_print html e @ t) = Some (e, t)" if "follows t" for t
  proof -
    have "2 * length (json_print html e) \<le> m"
      using Cons.prems(3) n by (cases es) auto
    with that Cons.prems(2) show ?thesis by (simp add: reads_back_def)
  qed
  show ?case
  proof (cases es)
    case Nil
    then show ?thesis
      using e [of "CHR '']'' # r"] by (simp add: n has_prefix_def)
  next
    case (Cons e2 es2)
    let ?t = "join (map (json_print html) es) '','' @ '']'' @ r"
    have "json_elems m d ?t = Some (es, r)"
      using Cons.IH Cons.prems Cons n by simp
    then show ?thesis
      using e [of "CHR '','' # ?t"] Cons by (simp add: n has_prefix_def)
  qed
qed simp

definition member_text :: "bool \<Rightarrow> string \<times> string \<times> json \<Rightarrow> string" where
  "member_text html m = (case m of (k, raw, v) \<Rightarrow> json_quote html k @ '':'' @ json_print html v)"

lemma skip_ws_print:
  assumes "json_wf html d v"
  shows "skip_ws (json_print html v @ t) = json_print html v @ t"
  using json_print_starts [OF assms] by auto

lemma json_members_print:
  assumes "ms \<noteq> []"
    and "\<forall>(k, raw, v) \<in> set ms. valid_utf8 k \<and> raw = json_print html v \<and> reads_back html d v \<and> json_wf html d v"
    and "2 * length (join (map (member_text html) ms) '','') + 2 \<le> n"
  shows "json_members n d (join (map (member_text html) ms) '','' @ ''}'' @ r) = Some (ms, r)"
  using assms
proof (induction ms arbitrary: n)
  case (Cons m ms)
  obtain k raw v where m: "m = (k, raw, v)" by (cases m)
  obtain n' where n: "n = Suc n'"
    using Cons.prems(3) by (cases n) auto
  from Cons.prems(2) m have k: "valid_utf8 k" and raw: "raw = json_print html v"
    and v: "reads_back html d v" "json_wf html d v" by auto
  have mt: "member_text html m = json_quote html k @ '':'' @ json_print html v"
    by (simp add: member_text_def m)
  have mt': "member_text html (k, json_print html v, v) = json_quote html k @ '':'' @ json_print html v"
    by (simp add: member_text_def)
  have val: "json_value n' d (json_print html v @ t) = Some (v, t)" if "follows t" for t
  proof -
    have "2 * length (json_print html v) \<le> n'"
      using Cons.prems(3) n mt by (cases ms) auto
    with that v show ?thesis by (simp add: reads_back_def)
  qed
  show ?case
  proof (cases ms)
    case Nil
    then show ?thesis
      using json_members_start [OF k, of n' d html "json_print html v @ CHR ''}'' # r"]
        val [of "CHR ''}'' # r"]
      by (simp add: n mt' m raw skip_ws_print [OF v(2)] has_prefix_def
          del: json_members.simps)
  next
    case (Cons m2 ms2)
    let ?t = "join (map (member_text html) ms) '','' @ ''}'' @ r"
    have "json_members n' d ?t = Some (ms, r)"
      using Cons.IH [of n'] Cons.prems Cons n by simp
    then show ?thesis
      using json_members_start [OF k, of n' d html "json_print html v @ CHR '','' # ?t"]
        val [of "CHR '','' # ?t"] Cons
      by (simp add: n mt' m raw skip_ws_print [OF v(2)] has_prefix_def
          del: json_members.simps)
  qed
qed simp

lemma json_print_obj: "json_print html (JObj ms) = ''{'' @ join (map (member_text html) ms) '','' @ ''}''"
  unfolding json_print.simps member_text_def by simp

lemma join_members_start:
  assumes "ms \<noteq> []"
  shows "\<exists>t. join (map (member_text html) ms) '','' @ s = CHR 0x22 # t"
proof -
  obtain k raw v ms' where "ms = (k, raw, v) # ms'"
    using assms by (cases ms) auto
  then show ?thesis
    by (cases ms') (auto simp: member_text_def json_quote_def)
qed

lemma join_elems_start:
  assumes "es \<noteq> []" and "\<forall>e \<in> set es. json_wf html d e"
  shows "\<exists>c t. join (map (json_print html) es) '','' @ s = c # t \<and> \<not> json_space c \<and> c \<noteq> CHR '']''"
proof -
  obtain e es' where es: "es = e # es'"
    using assms by (cases es) auto
  obtain c cs where "json_print html e = c # cs" "\<not> json_space c" "c \<noteq> CHR '']''"
    using json_print_starts [of html d e] assms es by auto
  with es show ?thesis by (cases es') auto
qed

lemma scalar_reads_back:
  assumes "json_print html v \<noteq> []"
    and "\<And>m r. follows r \<Longrightarrow> json_value (Suc m) d (json_print html v @ r) = Some (v, r)"
  shows "reads_back html d v"
  unfolding reads_back_def
proof (intro allI impI)
  fix n r
  assume "2 * length (json_print html v) \<le> n" and r: "follows r"
  with assms(1) obtain m where "n = Suc m" by (cases n) auto
  with assms(2) [OF r] show "json_value n d (json_print html v @ r) = Some (v, r)" by simp
qed

lemma json_wf_reads_back: "json_wf html d v \<Longrightarrow> reads_back html d v"
proof (induction html d v rule: json_wf.induct)
  case (1 html d t)
  have "json_value (Suc m) d (t @ r) = Some (JNum t, r)" if "follows r" for m r
  proof -
    obtain c cs where t: "t = c # cs"
      using 1 by (cases t) (auto simp: plain_number_def)
    with 1 have "is_digit c" by (simp add: plain_number_def)
    then show ?thesis
      using json_number_plain [OF _ that, of t] 1 t digit_starts [of c]
      by (simp add: has_prefix_def)
  qed
  moreover have "t \<noteq> []"
    using 1 by (simp add: plain_number_def)
  ultimately show ?case
    by (intro scalar_reads_back) simp_all
next
  case (2 html d s)
  have "json_value (Suc m) d (json_quote html s @ r) = Some (JStr s, r)" for m r
    using json_string_quote [of s html r] 2 by (simp add: json_quote_def)
  then show ?case
    by (intro scalar_reads_back) (simp_all add: json_quote_def)
next
  case (3 html d es)
  show ?case
    unfolding reads_back_def
  proof (intro allI impI)
    fix n r
    assume n: "2 * length (json_print html (JArr es)) \<le> n" and r: "follows r"
    then obtain m where m: "n = Suc m" by (cases n) auto
    show "json_value n d (json_print html (JArr es) @ r) = Some (JArr es, r)"
    proof (cases "es = []")
      case True
      with "3.prems" m show ?thesis by (simp add: has_prefix_def)
    next
      case False
      have ok: "\<forall>e \<in> set es. reads_back html (d - 1) e \<and> json_wf html (d - 1) e"
        using 3 by (auto simp: list_all_iff)
      have len: "2 * length (join (map (json_print html) es) '','') + 2 \<le> m"
        using n m by simp
      obtain c t where "join (map (json_print html) es) '','' @ '']'' @ r = c # t"
        "\<not> json_space c" "c \<noteq> CHR '']''"
        using join_elems_start [OF False, of html "d - 1" "'']'' @ r"] ok by auto
      with json_elems_print [OF False ok len, of r] "3.prems" m show ?thesis
        by (simp add: has_prefix_def)
    qed
  qed
next
  case (4 html d ms)
  show ?case
    unfolding reads_back_def
  proof (intro allI impI)
    fix n r
    assume n: "2 * length (json_print html (JObj ms)) \<le> n" and r: "follows r"
    then obtain m where m: "n = Suc m" by (cases n) auto
    show "json_value n d (json_print html (JObj ms) @ r) = Some (JObj ms, r)"
    proof (cases "ms = []")
      case True
      with "4.prems" m show ?thesis by (simp add: has_prefix_def)
    next
      case False
      have ok: "\<forall>(k, raw, v) \<in> set ms. valid_utf8 k \<and> raw = json_print html v
          \<and> reads_back html (d - 1) v \<and> json_wf html (d - 1) v"
        using 4 by (fastforce simp: list_all_iff)
      have len: "2 * length (join (map (member_text html) ms) '','') + 2 \<le> m"
        using n m unfolding json_print_obj by simp
      obtain t where "join (map (member_text html) ms) '','' @ ''}'' @ r = CHR 0x22 # t"
        using join_members_start [OF False] by blast
      with json_members_print [OF False ok len, of r] "4.prems" m show ?thesis
        unfolding json_print_obj by (simp add: has_prefix_def)
    qed
  qed
qed (intro scalar_reads_back; simp add: has_prefix_def)+

text \<open>Parsing what was printed gives the value back, at any nesting Go allows.\<close>

theorem parse_json_print:
  assumes "json_wf html max_nesting v"
  shows "parse_json (json_print html v) = Some v"
proof -
  have "json_value (2 * length (json_print html v) + 2) max_nesting (json_print html v @ []) = Some (v, [])"
    using json_wf_reads_back [OF assms] unfolding reads_back_def
    by (metis follows_simps(1) le_add1)
  then show ?thesis by (simp add: parse_json_def)
qed

end
