(* ===== verification/Decode.thy ===== *)
theory Decode imports Sse JsonPrint begin

text \<open>
  \<open>internal/client/stream.go\<close>: decoding a chat-completion stream.  The types \<open>streamChunk\<close>,
  \<open>streamChoice\<close> and \<open>streamDelta\<close> with what \<open>json.Unmarshal\<close> stores in them, the tests on one chunk,
  and the loop of \<open>decodeStream\<close> over the events of a reader.

  The two contexts are seen through the polls the code makes: \<open>polls k\<close> is what the \<open>k\<close>th poll finds
  (the parent's error, and whether the stream context is cancelled).  The callback \<open>onDelta\<close> is a
  function on a state of its own, which may answer with an error.
\<close>

section \<open>Chunks\<close>

text \<open>A \<open>json.RawMessage\<close> is its raw text; the empty text is the nil message of an absent field.\<close>

record stream_delta =
  d_role :: string
  d_content :: string
  d_tool_calls :: string
  d_function_call :: string

record stream_choice =
  ch_delta :: stream_delta
  ch_finish :: "string option"

record stream_chunk =
  sc_error :: string
  sc_choices :: "stream_choice list"

definition zero_delta :: stream_delta where
  "zero_delta = \<lparr>d_role = [], d_content = [], d_tool_calls = [], d_function_call = []\<rparr>"

definition zero_choice :: stream_choice where
  "zero_choice = \<lparr>ch_delta = zero_delta, ch_finish = None\<rparr>"

definition delta_member :: "stream_delta \<Rightarrow> string \<times> string \<times> json \<Rightarrow> stream_delta option" where
  "delta_member d m =
     (case m of (k, raw, v) \<Rightarrow>
        if names_field k ''role'' then
          (case v of JStr s \<Rightarrow> Some (d\<lparr>d_role := s\<rparr>) | JNull \<Rightarrow> Some d | _ \<Rightarrow> None)
        else if names_field k ''content'' then Some (d\<lparr>d_content := raw\<rparr>)
        else if names_field k ''tool_calls'' then Some (d\<lparr>d_tool_calls := raw\<rparr>)
        else if names_field k ''function_call'' then Some (d\<lparr>d_function_call := raw\<rparr>)
        else Some d)"

fun fold_opt :: "('s \<Rightarrow> 'x \<Rightarrow> 's option) \<Rightarrow> 's \<Rightarrow> 'x list \<Rightarrow> 's option" where
  "fold_opt f s [] = Some s"
| "fold_opt f s (x # xs) = (case f s x of None \<Rightarrow> None | Some s' \<Rightarrow> fold_opt f s' xs)"

definition unmarshal_delta :: "stream_delta \<Rightarrow> json \<Rightarrow> stream_delta option" where
  "unmarshal_delta d v =
     (case v of JNull \<Rightarrow> Some d | JObj ms \<Rightarrow> fold_opt delta_member d ms | _ \<Rightarrow> None)"

definition choice_member :: "stream_choice \<Rightarrow> string \<times> string \<times> json \<Rightarrow> stream_choice option" where
  "choice_member c m =
     (case m of (k, raw, v) \<Rightarrow>
        if names_field k ''delta'' then
          map_option (\<lambda>d. c\<lparr>ch_delta := d\<rparr>) (unmarshal_delta (ch_delta c) v)
        else if names_field k ''finish_reason'' then
          (case v of JStr s \<Rightarrow> Some (c\<lparr>ch_finish := Some s\<rparr>)
           | JNull \<Rightarrow> Some (c\<lparr>ch_finish := None\<rparr>) | _ \<Rightarrow> None)
        else Some c)"

definition unmarshal_choice :: "stream_choice \<Rightarrow> json \<Rightarrow> stream_choice option" where
  "unmarshal_choice c v =
     (case v of JNull \<Rightarrow> Some c | JObj ms \<Rightarrow> fold_opt choice_member c ms | _ \<Rightarrow> None)"

text \<open>
  A slice being decoded: the elements its backing array holds and its length.  When a document has
  the field twice, Go decodes the second array into the elements left by the first.
\<close>

type_synonym choice_slice = "stream_choice list \<times> nat"

fun unmarshal_elems ::
  "stream_choice list \<Rightarrow> json list \<Rightarrow> stream_choice list option" where
  "unmarshal_elems backing [] = Some backing"
| "unmarshal_elems backing (v # vs) =
     (case unmarshal_choice (case backing of [] \<Rightarrow> zero_choice | c # _ \<Rightarrow> c) v of
        None \<Rightarrow> None
      | Some c \<Rightarrow> map_option (\<lambda>cs. c # cs) (unmarshal_elems (drop 1 backing) vs))"

definition unmarshal_slice :: "choice_slice \<Rightarrow> json \<Rightarrow> choice_slice option" where
  "unmarshal_slice sl v =
     (case v of
        JNull \<Rightarrow> Some ([], 0)
      | JArr [] \<Rightarrow> Some ([], 0)
      | JArr vs \<Rightarrow> map_option (\<lambda>b. (b, length vs)) (unmarshal_elems (fst sl) vs)
      | _ \<Rightarrow> None)"

definition chunk_member ::
  "string \<times> choice_slice \<Rightarrow> string \<times> string \<times> json \<Rightarrow> (string \<times> choice_slice) option" where
  "chunk_member s m =
     (case (s, m) of ((err, sl), (k, raw, v)) \<Rightarrow>
        if names_field k ''error'' then Some (raw, sl)
        else if names_field k ''choices'' then map_option (\<lambda>sl'. (err, sl')) (unmarshal_slice sl v)
        else Some (err, sl))"

definition unmarshal_chunk :: "string \<Rightarrow> stream_chunk option" where
  "unmarshal_chunk data =
     (case parse_json data of
        None \<Rightarrow> None
      | Some JNull \<Rightarrow> Some \<lparr>sc_error = [], sc_choices = []\<rparr>
      | Some (JObj ms) \<Rightarrow>
          map_option (\<lambda>(err, backing, n). \<lparr>sc_error = err, sc_choices = take n backing\<rparr>)
            (fold_opt chunk_member ([], [], 0) ms)
      | _ \<Rightarrow> None)"

section \<open>Errors of a stream\<close>

datatype ctx_error = ContextCanceled | DeadlineExceeded

datatype stream_error =
    CtxErr ctx_error            \<comment> \<open>the parent context's error\<close>
  | StreamIdle                  \<comment> \<open>idle timeout waiting for stream data\<close>
  | StreamLimitErr int          \<comment> \<open>stream exceeded the %d-byte local read limit\<close>
  | StreamEndedEarly            \<comment> \<open>stream ended before [DONE]\<close>
  | SseFailed sse_error
  | MalformedJson
  | MalformedErrorPayload "string option"   \<comment> \<open>with the quoted payload unless omitted\<close>
  | ErrorObject "string option"
  | ManyChoices nat
  | ToolCallsRequested
  | FunctionCallRequested
  | ContentNotString
  | OutputBound int
  | CallbackErr string
  | NoChoices
  | FinishedWith string         \<comment> \<open>tool_calls or function_call\<close>
  | ContentFiltered
  | UnsupportedFinish string

definition classifyStreamError :: "string \<Rightarrow> bool \<Rightarrow> stream_error option" where
  "classifyStreamError raw omitSnippets =
     (let trimmed = trim_space raw;
          shown = (if omitSnippets then None else Some trimmed) in
      if trimmed = [] \<or> trimmed = ''null'' then None
      else if hd trimmed \<noteq> CHR ''{'' then Some (MalformedErrorPayload shown)
      else case parse_json trimmed of
        Some (JObj _) \<Rightarrow> Some (ErrorObject shown)
      | _ \<Rightarrow> Some (MalformedErrorPayload shown))"

definition deltaText :: "string \<Rightarrow> (stream_error, string) result" where
  "deltaText raw =
     (if raw = [] \<or> raw = ''null'' then Inr []
      else case parse_json raw of
        Some (JStr s) \<Rightarrow> Inr s
      | Some JNull \<Rightarrow> Inr []
      | _ \<Rightarrow> Inl ContentNotString)"

section \<open>One chunk\<close>

record decode_opts =
  do_max_event :: int
  do_max_stream :: int
  do_omit :: bool
  do_output_limit :: int

record decode_state =
  ds_text :: string
  ds_finish :: string
  ds_saw :: bool

type_synonym 's callback = "('s \<Rightarrow> string \<Rightarrow> string option \<times> 's) option"

definition call_delta :: "'s callback \<Rightarrow> 's \<Rightarrow> string \<Rightarrow> string option \<times> 's" where
  "call_delta cb s text = (case cb of None \<Rightarrow> (None, s) | Some f \<Rightarrow> f s text)"

definition note_finish :: "stream_choice \<Rightarrow> decode_state \<Rightarrow> decode_state" where
  "note_finish ch ds =
     (case ch_finish ch of
        Some f \<Rightarrow> (if f \<noteq> [] then ds\<lparr>ds_finish := f\<rparr> else ds)
      | None \<Rightarrow> ds)"

text \<open>The loop body from the parsed chunk on: the choice tests, the output bound, the callback.\<close>

definition take_choice ::
  "decode_opts \<Rightarrow> 's callback \<Rightarrow> stream_choice \<Rightarrow> decode_state \<Rightarrow> 's
     \<Rightarrow> stream_error option \<times> decode_state \<times> 's" where
  "take_choice opt cb ch ds s =
     (let tc = d_tool_calls (ch_delta ch); fc = d_function_call (ch_delta ch) in
      if tc \<noteq> [] \<and> tc \<noteq> ''null'' \<and> tc \<noteq> ''[]'' then (Some ToolCallsRequested, ds, s)
      else if fc \<noteq> [] \<and> fc \<noteq> ''null'' then (Some FunctionCallRequested, ds, s)
      else case deltaText (d_content (ch_delta ch)) of
        Inl e \<Rightarrow> (Some e, ds, s)
      | Inr text \<Rightarrow>
          (if text = [] then (None, note_finish ch ds, s)
           else if 0 < do_output_limit opt
                \<and> do_output_limit opt < int (length (ds_text ds)) + int (length text)
             then (Some (OutputBound (do_output_limit opt)), ds, s)
           else
             let ds' = ds\<lparr>ds_text := ds_text ds @ text\<rparr> in
             case call_delta cb s text of
               (Some e, s') \<Rightarrow> (Some (CallbackErr e), ds', s')
             | (None, s') \<Rightarrow> (None, note_finish ch ds', s')))"

definition take_chunk ::
  "decode_opts \<Rightarrow> 's callback \<Rightarrow> string \<Rightarrow> decode_state \<Rightarrow> 's
     \<Rightarrow> stream_error option \<times> decode_state \<times> 's" where
  "take_chunk opt cb data ds s =
     (case unmarshal_chunk data of
        None \<Rightarrow> (Some MalformedJson, ds, s)
      | Some chunk \<Rightarrow>
          (case classifyStreamError (sc_error chunk) (do_omit opt) of
             Some e \<Rightarrow> (Some e, ds, s)
           | None \<Rightarrow>
               (case sc_choices chunk of
                  [] \<Rightarrow> (None, ds, s)
                | [ch] \<Rightarrow> take_choice opt cb ch (ds\<lparr>ds_saw := True\<rparr>) s
                | chs \<Rightarrow> (Some (ManyChoices (length chs)), ds, s))))"

section \<open>The loop over the events\<close>

type_synonym polls = "nat \<Rightarrow> ctx_error option \<times> bool"

definition poll_error :: "ctx_error option \<times> bool \<Rightarrow> stream_error option" where
  "poll_error p =
     (case p of
        (Some e, _) \<Rightarrow> Some (CtxErr e)
      | (None, True) \<Rightarrow> Some StreamIdle
      | (None, False) \<Rightarrow> None)"

definition read_failure :: "sse_error \<Rightarrow> stream_error" where
  "read_failure e = (if e = SseEOF then StreamEndedEarly else SseFailed e)"

function decode_loop ::
  "decode_opts \<Rightarrow> 's callback \<Rightarrow> polls \<Rightarrow> nat \<Rightarrow> nat \<Rightarrow> decode_state \<Rightarrow> 's \<Rightarrow> reader
     \<Rightarrow> stream_error option \<times> decode_state \<times> 's \<times> reader" where
  "decode_loop opt cb polls k totalRead ds s br =
     (case poll_error (polls k) of
        Some e \<Rightarrow> (Some e, ds, s, br)
      | None \<Rightarrow>
          (case readSSEEvent br (do_max_event opt) of
             (res, n, br') \<Rightarrow>
               (if do_max_stream opt < int (totalRead + n)
                then (Some (StreamLimitErr (do_max_stream opt)), ds, s, br')
                else case res of
                  Inl e \<Rightarrow>
                    (case poll_error (polls (Suc k)) of
                       Some pe \<Rightarrow> (Some pe, ds, s, br')
                     | None \<Rightarrow> (Some (read_failure e), ds, s, br'))
                | Inr None \<Rightarrow> decode_loop opt cb polls (Suc k) (totalRead + n) ds s br'
                | Inr (Some ev) \<Rightarrow>
                    (let data = trim_space (ev_data ev) in
                     if data = [] then decode_loop opt cb polls (Suc k) (totalRead + n) ds s br'
                     else if data = ''[DONE]'' then (None, ds, s, br')
                     else
                       (case take_chunk opt cb data ds s of
                          (Some e, ds', s') \<Rightarrow> (Some e, ds', s', br')
                        | (None, ds', s') \<Rightarrow>
                            decode_loop opt cb polls (Suc k) (totalRead + n) ds' s' br')))))"
  by pat_completeness auto
termination
  by (relation "measure (\<lambda>(_, _, _, _, _, _, _, br). length (rd_rest br))")
    (auto dest!: sym [of _ "readSSEEvent _ _"] readSSEEvent_shrinks)

declare decode_loop.simps [simp del]

text \<open>What the code answers after the loop has seen \<open>[DONE]\<close>.\<close>

definition finish_stream :: "decode_state \<Rightarrow> stream_error option \<times> string \<times> string" where
  "finish_stream ds =
     (if \<not> ds_saw ds \<and> ds_text ds = [] then (Some NoChoices, [], [])
      else if ds_finish ds \<in> {[], ''stop'', ''length''} then (None, ds_text ds, ds_finish ds)
      else if ds_finish ds \<in> {''tool_calls'', ''function_call''}
        then (Some (FinishedWith (ds_finish ds)), ds_text ds, [])
      else if ds_finish ds = ''content_filter'' then (Some ContentFiltered, ds_text ds, [])
      else (Some (UnsupportedFinish (ds_finish ds)), ds_text ds, []))"

definition start_state :: decode_state where
  "start_state = \<lparr>ds_text = [], ds_finish = [], ds_saw = False\<rparr>"

text \<open>The result: the error if any, the assembled text, the finish reason, the callback's state.\<close>

definition decodeStream ::
  "polls \<Rightarrow> reader \<Rightarrow> decode_opts \<Rightarrow> 's callback \<Rightarrow> 's
     \<Rightarrow> stream_error option \<times> string \<times> string \<times> 's" where
  "decodeStream polls br opt cb s =
     (case decode_loop opt cb polls 0 0 start_state s br of
        (Some e, ds, s', br') \<Rightarrow> (Some e, ds_text ds, [], s')
      | (None, ds, s', br') \<Rightarrow>
          (case finish_stream ds of (e, text, fin) \<Rightarrow> (e, text, fin, s')))"

section \<open>Deltas and the callback\<close>

text \<open>The callback run over a list of deltas, up to its first error.\<close>

fun run_deltas :: "'s callback \<Rightarrow> 's \<Rightarrow> string list \<Rightarrow> string option \<times> 's" where
  "run_deltas cb s [] = (None, s)"
| "run_deltas cb s (d # ds) =
     (case call_delta cb s d of
        (Some e, s') \<Rightarrow> (Some e, s')
      | (None, s') \<Rightarrow> run_deltas cb s' ds)"

lemma run_deltas_snoc:
  "run_deltas cb s ds = (None, s') \<Longrightarrow> run_deltas cb s (ds @ [d]) = call_delta cb s' d"
  by (induction ds arbitrary: s) (auto split: prod.splits option.splits)

definition callback_error :: "stream_error \<Rightarrow> string option" where
  "callback_error e = (case e of CallbackErr m \<Rightarrow> Some m | _ \<Rightarrow> None)"

definition within_limit :: "decode_opts \<Rightarrow> string \<Rightarrow> bool" where
  "within_limit opt text \<longleftrightarrow> 0 < do_output_limit opt \<longrightarrow> int (length text) \<le> do_output_limit opt"

text \<open>What has been delivered so far is exactly the text assembled so far, in non-empty pieces.\<close>

definition delivered :: "decode_opts \<Rightarrow> 's callback \<Rightarrow> 's \<Rightarrow> string \<Rightarrow> string option \<Rightarrow> 's \<Rightarrow> bool" where
  "delivered opt cb s0 text ce s \<longleftrightarrow>
     (\<exists>deltas. text = concat deltas \<and> [] \<notin> set deltas \<and> run_deltas cb s0 deltas = (ce, s))
     \<and> within_limit opt text"

lemma ds_text_note_finish [simp]: "ds_text (note_finish ch ds) = ds_text ds"
  by (simp add: note_finish_def split: option.split)

lemma ds_saw_note_finish [simp]: "ds_saw (note_finish ch ds) = ds_saw ds"
  by (simp add: note_finish_def split: option.split)

lemma deltaText_error: "deltaText raw = Inl e \<Longrightarrow> e = ContentNotString"
  by (auto simp: deltaText_def split: if_splits option.splits json.splits)

lemma take_choice_cases:
  assumes "take_choice opt cb ch ds s = (e, ds', s')"
  shows "(ds_text ds' = ds_text ds \<and> s' = s \<and> (\<forall>x. e = Some x \<longrightarrow> callback_error x = None))
    \<or> (\<exists>t ce. t \<noteq> [] \<and> ds_text ds' = ds_text ds @ t \<and> within_limit opt (ds_text ds')
        \<and> call_delta cb s t = (ce, s') \<and> e = map_option CallbackErr ce)"
  using assms
proof (cases "deltaText (d_content (ch_delta ch))")
  case (Inl x)
  with assms deltaText_error [OF Inl] show ?thesis
    by (auto simp: take_choice_def Let_def callback_error_def split: if_splits)
next
  case (Inr t)
  obtain ce s1 where call: "call_delta cb s t = (ce, s1)"
    by (cases "call_delta cb s t")
  with assms Inr show ?thesis
    by (cases ce)
      (auto simp: take_choice_def Let_def callback_error_def within_limit_def split: if_splits)
qed

lemma take_chunk_cases:
  assumes "take_chunk opt cb data ds s = (e, ds', s')"
  shows "(ds_text ds' = ds_text ds \<and> s' = s \<and> (\<forall>x. e = Some x \<longrightarrow> callback_error x = None))
    \<or> (\<exists>t ce. t \<noteq> [] \<and> ds_text ds' = ds_text ds @ t \<and> within_limit opt (ds_text ds')
        \<and> call_delta cb s t = (ce, s') \<and> e = map_option CallbackErr ce)"
proof (cases "\<exists>ch. take_choice opt cb ch (ds\<lparr>ds_saw := True\<rparr>) s = (e, ds', s')")
  case True
  then obtain ch where "take_choice opt cb ch (ds\<lparr>ds_saw := True\<rparr>) s = (e, ds', s')" by blast
  from take_choice_cases [OF this] show ?thesis by simp
next
  case False
  with assms show ?thesis
    by (auto simp: take_chunk_def classifyStreamError_def callback_error_def Let_def
        split: option.splits list.splits if_splits json.splits)
qed

lemma take_chunk_delivered:
  assumes "delivered opt cb s0 (ds_text ds) None s" and "take_chunk opt cb data ds s = (e, ds', s')"
  shows "delivered opt cb s0 (ds_text ds') (Option.bind e callback_error) s'"
  using take_chunk_cases [OF assms(2)]
proof (elim disjE exE conjE)
  assume "ds_text ds' = ds_text ds" "s' = s" "\<forall>x. e = Some x \<longrightarrow> callback_error x = None"
  with assms(1) show ?thesis by (cases e) auto
next
  fix t ce
  assume t: "t \<noteq> []" "ds_text ds' = ds_text ds @ t" "within_limit opt (ds_text ds')"
    "call_delta cb s t = (ce, s')" "e = map_option CallbackErr ce"
  from assms(1) obtain deltas where d: "ds_text ds = concat deltas" "[] \<notin> set deltas"
    "run_deltas cb s0 deltas = (None, s)"
    by (auto simp: delivered_def)
  have "Option.bind e callback_error = ce"
    using t(5) by (cases ce) (auto simp: callback_error_def)
  with t d run_deltas_snoc [OF d(3), of t] show ?thesis
    unfolding delivered_def by (auto intro!: exI [of _ "deltas @ [t]"])
qed

section \<open>Reasoning about the loop\<close>

text \<open>Errors of the loop itself, which leave the assembled text and the callback alone.\<close>

fun loop_error :: "stream_error \<Rightarrow> bool" where
  "loop_error (CtxErr _) = True"
| "loop_error StreamIdle = True"
| "loop_error (StreamLimitErr _) = True"
| "loop_error StreamEndedEarly = True"
| "loop_error (SseFailed _) = True"
| "loop_error _ = False"

lemma loop_error_poll: "poll_error p = Some e \<Longrightarrow> loop_error e"
  by (auto simp: poll_error_def split: prod.splits option.splits bool.splits)

lemma decode_loop_rule:
  assumes "decode_loop opt cb polls k tr ds s br = (e, ds', s', br')" and "P ds s"
    and "\<And>data ds s e ds' s'. P ds s \<Longrightarrow> take_chunk opt cb data ds s = (e, ds', s') \<Longrightarrow>
      (case e of None \<Rightarrow> P ds' s' | Some x \<Rightarrow> Q x ds' s')"
    and "\<And>ds s x. P ds s \<Longrightarrow> loop_error x \<Longrightarrow> Q x ds s"
  shows "case e of None \<Rightarrow> P ds' s' | Some x \<Rightarrow> Q x ds' s'"
  using assms
proof (induction opt cb polls k tr ds s br arbitrary: e ds' s' br' rule: decode_loop.induct)
  case (1 opt cb polls k tr ds s br)
  note P = "1.prems"(2) and chunk = "1.prems"(3) and loop = "1.prems"(4)
  obtain res n br1 where rd: "readSSEEvent br (do_max_event opt) = (res, n, br1)"
    by (cases "readSSEEvent br (do_max_event opt)")
  show ?case
  proof (cases "poll_error (polls k) = None \<and> \<not> do_max_stream opt < int (tr + n) \<and> (\<exists>ev. res = Inr ev)")
    case False
    with "1.prems"(1) rd have "\<exists>x. e = Some x \<and> loop_error x \<and> ds' = ds \<and> s' = s"
      by (subst (asm) decode_loop.simps)
        (auto simp: read_failure_def split: option.splits if_splits sum.splits;
          metis loop_error_poll)
    with P loop show ?thesis by auto
  next
    case True
    then obtain ev where ok: "poll_error (polls k) = None" "\<not> do_max_stream opt < int (tr + n)"
      "res = Inr ev" by blast
    show ?thesis
    proof (cases ev)
      case None
      with "1.prems"(1) rd ok
      have "decode_loop opt cb polls (Suc k) (tr + n) ds s br1 = (e, ds', s', br')"
        by (subst (asm) decode_loop.simps) simp
      then show ?thesis
        by (rule "1.IH"(1) [OF ok(1) rd [symmetric] refl ok(2,3) None _ P chunk loop])
    next
      case (Some x)
      let ?data = "trim_space (ev_data x)"
      consider "?data = []" | "?data \<noteq> []" "?data = ''[DONE]''" | "?data \<noteq> []" "?data \<noteq> ''[DONE]''"
        by blast
      then show ?thesis
      proof cases
        case 1
        with "1.prems"(1) rd ok Some
        have "decode_loop opt cb polls (Suc k) (tr + n) ds s br1 = (e, ds', s', br')"
          by (subst (asm) decode_loop.simps) simp
        then show ?thesis
          by (rule "1.IH"(2) [OF ok(1) rd [symmetric] refl ok(2,3) Some refl 1 _ P chunk loop])
      next
        case 2
        with "1.prems"(1) rd ok Some P show ?thesis
          by (subst (asm) decode_loop.simps) simp
      next
        case 3
        obtain e1 ds1 s1 where tc: "take_chunk opt cb ?data ds s = (e1, ds1, s1)"
          by (cases "take_chunk opt cb ?data ds s")
        show ?thesis
        proof (cases e1)
          case None
          with chunk [OF P tc] have P1: "P ds1 s1" by simp
          from 3 "1.prems"(1) rd ok Some tc None
          have "decode_loop opt cb polls (Suc k) (tr + n) ds1 s1 br1 = (e, ds', s', br')"
            by (subst (asm) decode_loop.simps) simp
          then show ?thesis
            by (rule "1.IH"(3) [OF ok(1) rd [symmetric] refl ok(2,3) Some refl 3 tc [symmetric] None refl
                  _ P1 chunk loop])
        next
          case (Some x1)
          with 3 "1.prems"(1) rd ok \<open>ev = Some x\<close> tc chunk [OF P tc] show ?thesis
            by (subst (asm) decode_loop.simps) auto
        qed
      qed
    qed
  qed
qed

section \<open>The decoder over framed streams\<close>

text \<open>
  The meaning of a stream as a list of framed events: this is the specification the byte-level loop
  is proved to implement.  An event without lines is a blank line between events.
\<close>

type_synonym framed_event = "(string \<times> string) list \<times> string"

definition event_ok :: "decode_opts \<Rightarrow> framed_event \<Rightarrow> bool" where
  "event_ok opt ev \<longleftrightarrow> framed (fst ev) \<and> line_end (snd ev)
     \<and> int (length (frame_text (fst ev)) + length (snd ev)) \<le> do_max_event opt"

definition event_text :: "framed_event \<Rightarrow> string" where
  "event_text ev = frame_text (fst ev) @ snd ev"

definition event_data :: "framed_event \<Rightarrow> string" where
  "event_data ev = trim_space (join (data_values (map fst (fst ev))) [LF])"

fun run_events ::
  "decode_opts \<Rightarrow> 's callback \<Rightarrow> framed_event list \<Rightarrow> decode_state \<Rightarrow> 's
     \<Rightarrow> stream_error option \<times> decode_state \<times> 's" where
  "run_events opt cb [] ds s = (Some StreamEndedEarly, ds, s)"
| "run_events opt cb (ev # evs) ds s =
     (if event_data ev = [] then run_events opt cb evs ds s
      else if event_data ev = ''[DONE]'' then (None, ds, s)
      else case take_chunk opt cb (event_data ev) ds s of
        (Some e, ds', s') \<Rightarrow> (Some e, ds', s')
      | (None, ds', s') \<Rightarrow> run_events opt cb evs ds' s')"

definition quiet :: polls where
  "quiet k = (None, False)"

lemma decode_loop_events:
  assumes "list_all (event_ok opt) evs" and "rd_rest br = concat (map event_text evs)"
    and "rd_stop br = EOF" and "int (tr + length (rd_rest br)) \<le> do_max_stream opt"
    and "0 < do_max_event opt"
  shows "\<exists>br'. decode_loop opt cb quiet k tr ds s br =
    (case run_events opt cb evs ds s of (e, ds', s') \<Rightarrow> (e, ds', s', br'))"
  using assms
proof (induction evs arbitrary: k tr ds s br)
  case Nil
  then have "readSSEEvent br (do_max_event opt) = (Inl SseEOF, 0, br)"
    by (simp add: readSSEEvent_def sse_event_loop.simps readSSELine_def sse_line_loop.simps
        read_byte_def line_read_error_def)
  with Nil show ?case
    by (simp add: decode_loop.simps quiet_def poll_error_def read_failure_def)
next
  case (Cons ev evs)
  obtain les e0 where ev: "ev = (les, e0)" by (cases ev)
  with Cons.prems have le: "framed les" "line_end e0"
    "rd_rest br = frame_text les @ e0 @ concat (map event_text evs)"
    "int (length (frame_text les) + length e0) \<le> do_max_event opt"
    by (auto simp: event_ok_def event_text_def [of "(les, e0)"])
  let ?n = "length (frame_text les) + length e0"
  obtain br1 where rd: "readSSEEvent br (do_max_event opt) =
      (Inr (if les = [] then None else Some \<lparr>ev_data = join (data_values (map fst les)) [LF]\<rparr>), ?n, br1)"
    and br1: "rd_rest br1 = concat (map event_text evs)" "rd_stop br1 = EOF"
    using readSSEEvent_framed [OF le] Cons.prems(3) by auto
  have blank: "event_data ev = []" if "les = []"
    using that by (simp add: event_data_def ev trim_space_Nil)
  have tot: "int (tr + ?n + length (rd_rest br1)) \<le> do_max_stream opt"
    using Cons.prems(4) le(3) br1 by simp
  then have lim: "\<not> do_max_stream opt < int (tr + ?n)" by simp
  have ih: "\<exists>br'. decode_loop opt cb quiet (Suc k) (tr + ?n) ds s br1 =
      (case run_events opt cb evs ds s of (e, ds', s') \<Rightarrow> (e, ds', s', br'))" for ds s
    using Cons.IH [OF _ br1 tot Cons.prems(5), of "Suc k" ds s] Cons.prems(1) by simp
  let ?data = "event_data ev"
  have step: "decode_loop opt cb quiet k tr ds s br =
    (if ?data = [] then decode_loop opt cb quiet (Suc k) (tr + ?n) ds s br1
     else if ?data = ''[DONE]'' then (None, ds, s, br1)
     else case take_chunk opt cb ?data ds s of
       (Some e, ds', s') \<Rightarrow> (Some e, ds', s', br1)
     | (None, ds', s') \<Rightarrow> decode_loop opt cb quiet (Suc k) (tr + ?n) ds' s' br1)"
    using lim blank by (subst decode_loop.simps)
      (auto simp: rd quiet_def [of k] poll_error_def ev event_data_def Let_def)
  obtain e1 ds1 s1 where "take_chunk opt cb ?data ds s = (e1, ds1, s1)"
    by (cases "take_chunk opt cb ?data ds s")
  with step ih [of ds s] ih [of ds1 s1] show ?case
    by (cases e1) auto
qed


section \<open>Properties\<close>

lemma finish_stream_ok:
  assumes "finish_stream ds = (None, text, fin)"
  shows "text = ds_text ds \<and> fin = ds_finish ds \<and> fin \<in> {[], ''stop'', ''length''}
    \<and> (ds_saw ds \<or> ds_text ds \<noteq> [])"
  using assms by (auto simp: finish_stream_def split: if_splits)

lemma finish_stream_text: "finish_stream ds = (e, text, fin) \<Longrightarrow> text = ds_text ds"
  by (auto simp: finish_stream_def split: if_splits)

lemma finish_stream_error: "finish_stream ds = (Some x, text, fin) \<Longrightarrow> callback_error x = None"
  by (auto simp: finish_stream_def callback_error_def split: if_splits)

lemma decode_loop_delivered:
  assumes "decode_loop opt cb polls k 0 start_state s br = (e, ds, s', br')"
  shows "delivered opt cb s (ds_text ds) (Option.bind e callback_error) s'"
proof -
  have init: "delivered opt cb s (ds_text start_state) None s"
    by (auto simp: delivered_def start_state_def within_limit_def intro!: exI [of _ "[]"])
  have "case e of None \<Rightarrow> delivered opt cb s (ds_text ds) None s'
      | Some x \<Rightarrow> delivered opt cb s (ds_text ds) (callback_error x) s'"
  proof (rule decode_loop_rule [OF assms, where P = "\<lambda>ds s'. delivered opt cb s (ds_text ds) None s'"
        and Q = "\<lambda>x ds s'. delivered opt cb s (ds_text ds) (callback_error x) s'"])
    fix data dsa sa ea ds1 s1
    assume "delivered opt cb s (ds_text dsa) None sa"
      and "take_chunk opt cb data dsa sa = (ea, ds1, s1)"
    from take_chunk_delivered [OF this]
    show "case ea of None \<Rightarrow> delivered opt cb s (ds_text ds1) None s1
      | Some x \<Rightarrow> delivered opt cb s (ds_text ds1) (callback_error x) s1"
      by (cases ea) auto
  next
    fix dsa sa x
    assume "delivered opt cb s (ds_text dsa) None sa" and "loop_error x"
    then show "delivered opt cb s (ds_text dsa) (callback_error x) sa"
      by (cases x) (auto simp: callback_error_def)
  qed (rule init)
  then show ?thesis by (cases e) auto
qed

lemma decodeStream_events:
  assumes "list_all (event_ok opt) evs" and "0 < do_max_event opt"
    and "int (length (concat (map event_text evs))) \<le> do_max_stream opt"
  shows "decodeStream quiet (new_reader (concat (map event_text evs)) EOF) opt cb s =
    (case run_events opt cb evs start_state s of
       (Some e, ds, s') \<Rightarrow> (Some e, ds_text ds, [], s')
     | (None, ds, s') \<Rightarrow> (case finish_stream ds of (e, text, fin) \<Rightarrow> (e, text, fin, s')))"
proof -
  let ?br = "new_reader (concat (map event_text evs)) EOF"
  obtain br' where "decode_loop opt cb quiet 0 0 start_state s ?br =
      (case run_events opt cb evs start_state s of (e, ds', s') \<Rightarrow> (e, ds', s', br'))"
    using decode_loop_events [OF assms(1), where br = ?br and tr = 0 and k = 0 and ds = start_state
        and s = s and cb = cb] assms(2,3)
    by (auto simp: new_reader_def)
  then show ?thesis
    by (auto simp: decodeStream_def split: prod.splits option.splits)
qed

lemma decodeStream_deltas:
  assumes "decodeStream polls br opt cb s = (e, text, fin, s')"
  shows "\<exists>deltas. text = concat deltas \<and> [] \<notin> set deltas
      \<and> run_deltas cb s deltas = (Option.bind e callback_error, s')
      \<and> (0 < do_output_limit opt \<longrightarrow> int (length text) \<le> do_output_limit opt)"
proof -
  obtain e1 ds s1 br1 where loop: "decode_loop opt cb polls 0 0 start_state s br = (e1, ds, s1, br1)"
    by (cases "decode_loop opt cb polls 0 0 start_state s br")
  have "delivered opt cb s text (Option.bind e callback_error) s'"
  proof (cases e1)
    case (Some x)
    with assms loop decode_loop_delivered [OF loop] show ?thesis
      by (auto simp: decodeStream_def)
  next
    case None
    with assms loop have fin: "finish_stream ds = (e, text, fin)" and "s' = s1"
      by (auto simp: decodeStream_def split: prod.splits)
    have "Option.bind e callback_error = None"
      using fin finish_stream_error by (cases e) auto
    with None decode_loop_delivered [OF loop] finish_stream_text [OF fin] \<open>s' = s1\<close> show ?thesis
      by simp
  qed
  then show ?thesis
    by (auto simp: delivered_def within_limit_def)
qed

text \<open>C17: The callback sees the assembled text: whatever the stream and however decoding ends, the text
  \<open>decodeStream\<close> returns is the concatenation of the non-empty deltas handed to \<open>onDelta\<close> in
  order, the callback's error (if it gave one) is the error returned and nothing is delivered after
  it, and the text never exceeds a positive output limit.
\<close>

theorem decodeStream_delivers:
  assumes "decodeStream polls br opt cb s = (e, text, fin, s')"
  shows "\<exists>deltas. text = concat deltas \<and> [] \<notin> set deltas
      \<and> run_deltas cb s deltas = (Option.bind e callback_error, s')
      \<and> (0 < do_output_limit opt \<longrightarrow> int (length text) \<le> do_output_limit opt)"
  using assms by (rule decodeStream_deltas)

text \<open>C2: Decoding implements its specification: on any stream of framed events within the limits
  (any mixture of LF and CR LF line ends, comments, other fields, several data lines, blank lines), with no
  cancellation, the byte-level loop gives exactly what the event-level definition \<open>run_events\<close> gives,
  followed by the verdict on the finish reason.
\<close>

theorem decodeStream_refines_events:
  assumes "list_all (event_ok opt) evs" and "0 < do_max_event opt"
    and "int (length (concat (map event_text evs))) \<le> do_max_stream opt"
  shows "decodeStream quiet (new_reader (concat (map event_text evs)) EOF) opt cb s =
    (case run_events opt cb evs start_state s of
       (Some e, ds, s') \<Rightarrow> (Some e, ds_text ds, [], s')
     | (None, ds, s') \<Rightarrow> (case finish_stream ds of (e, text, fin) \<Rightarrow> (e, text, fin, s')))"
  using assms by (rule decodeStream_events)


section \<open>The terminal marker is in the bytes\<close>

lemma trim_left_suffix: "suffix (trim_left s) s"
proof (induction s rule: trim_left.induct)
  case (1 s)
  then show ?case
    by (cases "lead_space s = 0")
      (simp_all add: trim_left_id trim_left.simps [of s], meson suffix_drop suffix_order.trans)
qed

lemma trim_space_sublist: "sublist (trim_space s) s"
  unfolding trim_space_def
  using trim_right_prefix [of "trim_left s"] trim_left_suffix [of s]
  by (meson prefix_imp_sublist suffix_imp_sublist sublist_order.order_trans)

lemma sublist_join:
  assumes "sublist t (join xs [c])" and "t \<noteq> []" and "c \<notin> set t"
  shows "\<exists>x \<in> set xs. sublist t x"
  using assms
proof (induction xs "[c]" rule: join.induct)
  case (3 x y xs)
  have no: "\<not> prefix t2 (c # l)" if "t2 \<noteq> []" "c \<notin> set t2" for t2 l
    using that by (cases t2) auto
  from "3.prems"(1) consider "sublist t x" | "sublist t (c # join (y # xs) [c])"
    | t1 t2 where "t = t1 @ t2" "suffix t1 x" "prefix t2 (c # join (y # xs) [c])"
    by (auto simp: sublist_append)
  then show ?case
  proof cases
    case 1
    then show ?thesis by simp
  next
    case 2
    with "3.prems"(2,3) no have "sublist t (join (y # xs) [c])"
      by (auto simp: sublist_Cons_right)
    with 3 show ?thesis by auto
  next
    case 3
    with "3.prems"(2,3) no [of t2] have "t2 = []" by auto
    with 3 show ?thesis by (auto dest: suffix_imp_sublist)
  qed
qed auto

lemma readSSELine_sublist:
  assumes "readSSELine br remaining = (Inr line, n, br')"
  shows "sublist line (rd_rest br)" and "suffix (rd_rest br') (rd_rest br)"
proof -
  from assms have "sse_line_loop remaining [] 0 br = (Inr line, n, br')" and "0 < remaining"
    by (auto simp: readSSELine_def split: if_splits)
  from sse_line_loop_spec [OF _ _ this(1)] this(2) have "line = line_of (rd_rest br)"
    by (auto simp: Let_def split: if_splits)
  then show "sublist line (rd_rest br)"
    using line_split [of "rd_rest br"] by (metis prefixI prefix_imp_sublist)
  show "suffix (rd_rest br') (rd_rest br)"
    using readSSELine_moves(1) [OF assms] by (simp add: suffix_drop)
qed

lemma splitSSEField_sublist: "splitSSEField line = (name, val) \<Longrightarrow> sublist val line"
proof -
  assume s: "splitSSEField line = (name, val)"
  obtain b a ok where c: "cut line (CHR '':'') = (b, a, ok)" by (cases "cut line (CHR '':'')")
  then have "suffix a line"
    by (induction line arbitrary: b) (auto split: if_splits prod.splits intro: suffix_ConsI)
  with s c show ?thesis
    by (auto simp: splitSSEField_def split: if_splits dest: suffix_imp_sublist)
      (metis One_nat_def drop_Suc drop_0 suffix_drop suffix_imp_sublist suffix_order.trans)
qed

lemma sse_event_loop_data:
  assumes "sse_event_loop maxBytes ds sz got br = (Inr (Some ev), n, br')"
  shows "\<exists>vs. ev_data ev = join (ds @ vs) [LF] \<and> (\<forall>v \<in> set vs. sublist v (rd_rest br))"
  using assms
proof (induction maxBytes ds sz got br rule: sse_event_loop.induct)
  case (1 maxBytes ds sz got br)
  obtain res1 n1 br1 where line: "readSSELine br (maxBytes - int sz) = (res1, n1, br1)"
    by (cases "readSSELine br (maxBytes - int sz)")
  then obtain l where res1: "res1 = Inr l"
    using "1.prems" by (subst (asm) sse_event_loop.simps)
      (auto simp: Let_def split: sum.splits if_splits)
  note sub = readSSELine_sublist [OF line [unfolded res1]]
  have lift: "sublist v (rd_rest br)" if "sublist v (rd_rest br1)" for v
    using that sub(2) by (meson suffix_imp_sublist sublist_order.order_trans)
  consider "l = []" | "l \<noteq> []" "has_prefix l '':''"
    | name val where "l \<noteq> []" "\<not> has_prefix l '':''" "splitSSEField l = (name, val)"
    by (cases "splitSSEField l") auto
  then show ?case
  proof cases
    case 1
    with "1.prems" line res1 show ?thesis
      by (subst (asm) sse_event_loop.simps)
        (auto simp: Let_def split: if_splits intro!: exI [of _ "[]"])
  next
    case 2
    with "1.prems" line res1 have "sse_event_loop maxBytes ds (sz + n1) True br1 = (Inr (Some ev), n, br')"
      by (subst (asm) sse_event_loop.simps) (simp add: Let_def)
    from "1.IH"(1) [OF line [symmetric] refl refl res1 2 this] lift show ?thesis by blast
  next
    case 3
    with "1.prems" line res1 have "sse_event_loop maxBytes (if name = ''data'' then ds @ [val] else ds)
        (sz + n1) True br1 = (Inr (Some ev), n, br')"
      by (subst (asm) sse_event_loop.simps) (simp add: Let_def)
    from "1.IH"(2) [OF line [symmetric] refl refl res1 3(1,2) 3(3) [symmetric] this]
    obtain vs where vs: "ev_data ev = join ((if name = ''data'' then ds @ [val] else ds) @ vs) [LF]"
      "\<forall>v \<in> set vs. sublist v (rd_rest br1)" by blast
    have "sublist val (rd_rest br)"
      using splitSSEField_sublist [OF 3(3)] sub(1) by (rule sublist_order.order_trans)
    with vs lift show ?thesis
      by (intro exI [of _ "(if name = ''data'' then [val] else []) @ vs"]) auto
  qed
qed

lemma readSSEEvent_done:
  assumes "readSSEEvent br maxBytes = (Inr (Some ev), n, br')" and "trim_space (ev_data ev) = ''[DONE]''"
  shows "contains (rd_rest br) ''[DONE]''"
proof -
  obtain vs where vs: "ev_data ev = join vs [LF]" "\<forall>v \<in> set vs. sublist v (rd_rest br)"
    using sse_event_loop_data [OF assms(1) [unfolded readSSEEvent_def]] by auto
  have "sublist ''[DONE]'' (join vs [LF])"
    using trim_space_sublist [of "ev_data ev"] assms(2) vs(1) by simp
  from sublist_join [OF this] obtain v where "v \<in> set vs" "sublist ''[DONE]'' v"
    by (auto simp: LF_def)
  with vs(2) show ?thesis
    by (auto simp: contains_iff intro: sublist_order.order_trans)
qed

lemma decode_loop_done:
  assumes "decode_loop opt cb polls k tr ds s br = (None, ds', s', br')"
  shows "contains (rd_rest br) ''[DONE]''"
  using assms
proof (induction opt cb polls k tr ds s br rule: decode_loop.induct)
  case (1 opt cb polls k tr ds s br)
  obtain res n br1 where rd: "readSSEEvent br (do_max_event opt) = (res, n, br1)"
    by (cases "readSSEEvent br (do_max_event opt)")
  then obtain ev where ok: "poll_error (polls k) = None" "\<not> do_max_stream opt < int (tr + n)"
    "res = Inr ev"
    using "1.prems" by (subst (asm) decode_loop.simps)
      (auto split: option.splits if_splits sum.splits)
  have lift: "contains (rd_rest br) t" if "contains (rd_rest br1) t" for t
    using that readSSEEvent_moves(1) [OF rd]
    by (auto simp: contains_iff intro: sublist_order.order_trans)
  show ?case
  proof (cases ev)
    case None
    with "1.prems" rd ok have "decode_loop opt cb polls (Suc k) (tr + n) ds s br1 = (None, ds', s', br')"
      by (subst (asm) decode_loop.simps) simp
    then show ?thesis
      using "1.IH"(1) [OF ok(1) rd [symmetric] refl ok(2,3) None] lift by blast
  next
    case (Some x)
    let ?data = "trim_space (ev_data x)"
    consider "?data = []" | "?data \<noteq> []" "?data = ''[DONE]''" | "?data \<noteq> []" "?data \<noteq> ''[DONE]''"
      by blast
    then show ?thesis
    proof cases
      case 1
      with "1.prems" rd ok Some have "decode_loop opt cb polls (Suc k) (tr + n) ds s br1 = (None, ds', s', br')"
        by (subst (asm) decode_loop.simps) simp
      then show ?thesis
        using "1.IH"(2) [OF ok(1) rd [symmetric] refl ok(2,3) Some refl 1] lift by blast
    next
      case 2
      with rd ok Some show ?thesis using readSSEEvent_done [of br _ x n br1] by simp
    next
      case 3
      with "1.prems" rd ok Some obtain ds1 s1 where tc: "take_chunk opt cb ?data ds s = (None, ds1, s1)"
        and "decode_loop opt cb polls (Suc k) (tr + n) ds1 s1 br1 = (None, ds', s', br')"
        by (subst (asm) decode_loop.simps) (auto split: prod.splits option.splits)
      then show ?thesis
        using "1.IH"(3) [OF ok(1) rd [symmetric] refl ok(2,3) Some refl 3 tc [symmetric] refl refl] lift
        by blast
    qed
  qed
qed

text \<open>C5: Success is narrow: for arbitrary bytes, however they end and whatever the contexts do,
  \<open>decodeStream\<close> returns no error only when the bytes contain the terminal marker \<open>[DONE]\<close>, the
  finish reason is empty, \<open>stop\<close> or \<open>length\<close>, and the context was not cancelled at the first poll.
\<close>

theorem decodeStream_success:
  assumes "decodeStream polls br opt cb s = (None, text, fin, s')"
  shows "contains (rd_rest br) ''[DONE]'' \<and> fin \<in> {[], ''stop'', ''length''}
    \<and> polls 0 = (None, False)"
proof -
  obtain e1 ds s1 br1 where loop: "decode_loop opt cb polls 0 0 start_state s br = (e1, ds, s1, br1)"
    by (cases "decode_loop opt cb polls 0 0 start_state s br")
  with assms have e1: "e1 = None" "finish_stream ds = (None, text, fin)"
    by (auto simp: decodeStream_def split: option.splits prod.splits)
  have "poll_error (polls 0) = None"
    using loop e1(1) by (subst (asm) decode_loop.simps) (auto split: option.splits)
  then have "polls 0 = (None, False)"
    by (auto simp: poll_error_def split: prod.splits option.splits bool.splits)
  with finish_stream_ok [OF e1(2)] decode_loop_done [OF loop [unfolded e1(1)]] show ?thesis
    by auto
qed

section \<open>Witnesses\<close>

definition demo_opts :: decode_opts where
  "demo_opts = \<lparr>do_max_event = 1000, do_max_stream = 1000, do_omit = False, do_output_limit = 100\<rparr>"

definition demo_choice :: "string \<Rightarrow> json" where
  "demo_choice t = JObj [(''choices'', json_print True (JArr [JObj [(''delta'',
       json_print True (JObj [(''content'', json_quote True t, JStr t)]),
       JObj [(''content'', json_quote True t, JStr t)])]]),
     JArr [JObj [(''delta'', json_print True (JObj [(''content'', json_quote True t, JStr t)]),
       JObj [(''content'', json_quote True t, JStr t)])]])]"

definition demo_payload :: string where
  "demo_payload = json_print True (demo_choice ''hi'')"

definition demo_ev1 :: framed_event where
  "demo_ev1 = ([(''data: '' @ demo_payload, [LF])], [LF])"

definition demo_ev2 :: framed_event where
  "demo_ev2 = ([(''data: [DONE]'', [CR, LF])], [CR, LF])"

definition demo_events :: "framed_event list" where
  "demo_events = [demo_ev1, demo_ev2]"

definition collect :: "string list callback" where
  "collect = Some (\<lambda>ds d. (None, ds @ [d]))"

lemma quote_ascii_hi: "json_quote True ''hi'' = [CHR 0x22, CHR ''h'', CHR ''i'', CHR 0x22]"
  by (simp add: json_quote_def quote_body.simps(2) byte_in_def escape_ascii_def)

lemma demo_chunk:
  "unmarshal_chunk demo_payload = Some \<lparr>sc_error = [],
     sc_choices = [\<lparr>ch_delta = zero_delta\<lparr>d_content := json_quote True ''hi''\<rparr>, ch_finish = None\<rparr>]\<rparr>"
proof -
  have "parse_json demo_payload = Some (demo_choice ''hi'')"
    unfolding demo_payload_def
    by (rule parse_json_print)
      (simp add: demo_choice_def max_nesting_def valid_utf8_ascii byte_in_def)
  then show ?thesis
    by (simp add: unmarshal_chunk_def demo_choice_def chunk_member_def names_field_def has_prefix_def
        ascii_upper_def unmarshal_slice_def unmarshal_choice_def choice_member_def unmarshal_delta_def
        delta_member_def zero_choice_def zero_delta_def)
qed

lemmas quote_eval = json_quote_def quote_body.simps(2) byte_in_def escape_ascii_def

lemma demo_payload_text:
  "demo_payload = ''{'' @ [CHR 0x22] @ ''choices'' @ [CHR 0x22] @ '':[{'' @ [CHR 0x22] @ ''delta''
     @ [CHR 0x22] @ '':{'' @ [CHR 0x22] @ ''content'' @ [CHR 0x22] @ '':'' @ [CHR 0x22] @ ''hi''
     @ [CHR 0x22] @ ''}}]}''"
  by (simp add: demo_payload_def demo_choice_def quote_eval)

lemma demo_events_ok: "list_all (event_ok demo_opts) demo_events"
  by (simp add: demo_events_def demo_ev1_def demo_ev2_def event_ok_def framed_def frame_line_def line_end_def frame_text_def
      demo_payload_text eol_byte_def LF_def CR_def demo_opts_def)

lemma demo_events_length: "int (length (concat (map event_text demo_events))) \<le> do_max_stream demo_opts"
  by (simp add: demo_events_def demo_ev1_def demo_ev2_def event_text_def frame_text_def demo_payload_text demo_opts_def)

lemma demo_event_data:
  "event_data demo_ev1 = demo_payload"
  "event_data demo_ev2 = ''[DONE]''"
  by (simp_all add: demo_ev1_def demo_ev2_def event_data_def has_prefix_def splitSSEField_def demo_payload_text trim_space_plain
      plain_byte_def)

lemma demo_run:
  "run_events demo_opts collect demo_events start_state [] =
     (None, \<lparr>ds_text = ''hi'', ds_finish = [], ds_saw = True\<rparr>, [''hi''])"
proof -
  have "deltaText (json_quote True ''hi'') = Inr ''hi''"
    using parse_json_print [of True "JStr ''hi''"]
    by (simp add: deltaText_def quote_ascii_hi valid_utf8_ascii byte_in_def)
  moreover have "demo_payload \<noteq> []" "demo_payload \<noteq> ''[DONE]''"
    by (simp_all add: demo_payload_text)
  ultimately show ?thesis
    by (simp add: demo_events_def demo_event_data take_chunk_def demo_chunk classifyStreamError_def
        trim_space_def trim_left_id trim_right_id take_choice_def zero_delta_def demo_opts_def
        collect_def call_delta_def start_state_def note_finish_def)
qed

lemma demo_decode:
  "decodeStream quiet (new_reader (concat (map event_text demo_events)) EOF) demo_opts collect []
     = (None, ''hi'', [], [''hi''])"
  using decodeStream_events [OF demo_events_ok _ demo_events_length, of collect "[]"]
  by (simp add: demo_run finish_stream_def) (simp add: demo_opts_def)

theorem decodeStream_delivers_witness:
  "\<exists>deltas. ''hi'' = concat deltas \<and> [] \<notin> set deltas \<and> run_deltas collect [] deltas = (None, [''hi''])"
  using decodeStream_delivers [OF demo_decode] by auto

theorem decodeStream_refines_events_witness:
  "fst (snd (decodeStream quiet (new_reader (concat (map event_text demo_events)) EOF) demo_opts
     collect [])) = ''hi''"
  using decodeStream_refines_events [OF demo_events_ok _ demo_events_length, of collect "[]"]
  by (simp add: demo_run finish_stream_def) (simp add: demo_opts_def)


theorem decodeStream_success_witness:
  "contains (concat (map event_text demo_events)) ''[DONE]''"
  using decodeStream_success [OF demo_decode] by (simp add: new_reader_def)

end
