(* ===== verification/GoUrl.thy ===== *)
theory GoUrl imports GoJson begin

text \<open>
  \<open>net/url.Parse\<close> as far as the sources look at its result: scheme, opaque part, user information,
  host, query and fragment, or an error.

  A host with a bracket is an IP literal; how strictly it is read differs between releases of the
  library, so that reading is a parameter \<open>ip_host\<close> (the host to the unescaped host, \<open>None\<close> for an
  error).  All other hosts are read here.
\<close>

record go_url =
  u_scheme :: string
  u_opaque :: string
  u_user :: bool
  u_host :: string
  u_rawquery :: string
  u_fragment :: string

definition empty_url :: go_url where
  "empty_url = \<lparr>u_scheme = [], u_opaque = [], u_user = False, u_host = [], u_rawquery = [], u_fragment = []\<rparr>"

datatype url_error =
    ControlChar | MissingScheme | ColonInFirstSegment | InvalidUserinfo
  | BadPort string | BadEscape string | BadHostChar char | BadIpLiteral

type_synonym ip_host = "string \<Rightarrow> string option"

section \<open>Characters and escapes\<close>

definition is_alpha :: "char \<Rightarrow> bool" where
  "is_alpha c \<longleftrightarrow> byte_in 0x61 0x7A c \<or> byte_in 0x41 0x5A c"

definition is_ctl :: "char \<Rightarrow> bool" where
  "is_ctl c \<longleftrightarrow> (of_char c :: nat) < 0x20 \<or> c = CHR 0x7F"

definition host_char :: "char \<Rightarrow> bool" where
  "host_char c \<longleftrightarrow> is_alpha c \<or> is_digit c \<or> 0x80 \<le> (of_char c :: nat)
     \<or> c \<in> set ''!$&()*+,;=:[]<>-_.~'' \<or> c = CHR 0x27 \<or> c = CHR 0x22"

definition userinfo_char :: "char \<Rightarrow> bool" where
  "userinfo_char c \<longleftrightarrow> is_alpha c \<or> is_digit c \<or> c \<in> set ''-._:~!$&()*+,;=%@'' \<or> c = CHR 0x27"

text \<open>The two modes of \<open>unescape\<close>: a host keeps the escapes of ASCII bytes forbidden.\<close>

fun unescape :: "bool \<Rightarrow> string \<Rightarrow> (url_error, string) result" where
  "unescape inhost [] = Inr []"
| "unescape inhost (c # cs) =
     (if c = CHR ''%'' then
        (case cs of
           a # b # rest \<Rightarrow>
             (case (hex_val a, hex_val b) of
                (Some x, Some y) \<Rightarrow>
                  (if inhost \<and> x < 8 \<and> \<not> (a = CHR ''2'' \<and> b = CHR ''5'') then Inl (BadEscape [c, a, b])
                   else map_sum id (\<lambda>t. char_of (16 * x + y) # t) (unescape inhost rest))
              | _ \<Rightarrow> Inl (BadEscape [c, a, b]))
         | _ \<Rightarrow> Inl (BadEscape (take 3 (c # cs))))
      else if inhost \<and> \<not> host_char c then Inl (BadHostChar c)
      else map_sum id (\<lambda>t. c # t) (unescape inhost cs))"

section \<open>Authority\<close>

text \<open>\<open>strings.LastIndex\<close> of one byte: the text before and after its last occurrence.\<close>

definition cut_last :: "string \<Rightarrow> char \<Rightarrow> (string \<times> string) option" where
  "cut_last s c =
     (if c \<in> set s then
        Some (rev (drop 1 (dropWhile (\<lambda>x. x \<noteq> c) (rev s))), rev (takeWhile (\<lambda>x. x \<noteq> c) (rev s)))
      else None)"

definition parse_host :: "ip_host \<Rightarrow> string \<Rightarrow> (url_error, string) result" where
  "parse_host ip h =
     (if CHR ''['' \<in> set h then (case ip h of None \<Rightarrow> Inl BadIpLiteral | Some u \<Rightarrow> Inr u)
      else case cut_last h (CHR '':'') of
        None \<Rightarrow> unescape True h
      | Some (_, port) \<Rightarrow>
          (if list_all is_digit port then unescape True h else Inl (BadPort (CHR '':'' # port))))"

definition parse_userinfo :: "string \<Rightarrow> (url_error, unit) result" where
  "parse_userinfo ui =
     (if \<not> list_all userinfo_char ui then Inl InvalidUserinfo
      else case cut ui (CHR '':'') of
        (name, pass, _) \<Rightarrow>
          (case unescape False name of
             Inl e \<Rightarrow> Inl e
           | Inr _ \<Rightarrow> (case unescape False pass of Inl e \<Rightarrow> Inl e | Inr _ \<Rightarrow> Inr ())))"

text \<open>Whether there is user information, and the host.\<close>

definition parse_authority :: "ip_host \<Rightarrow> string \<Rightarrow> (url_error, bool \<times> string) result" where
  "parse_authority ip a =
     (case cut_last a (CHR ''@'') of
        None \<Rightarrow> map_sum id (\<lambda>h. (False, h)) (parse_host ip a)
      | Some (ui, hs) \<Rightarrow>
          (case parse_host ip hs of
             Inl e \<Rightarrow> Inl e
           | Inr h \<Rightarrow> map_sum id (\<lambda>_. (True, h)) (parse_userinfo ui)))"

section \<open>The whole URL\<close>

fun scheme_loop :: "bool \<Rightarrow> string \<Rightarrow> string \<Rightarrow> (url_error, (string \<times> string) option) result" where
  "scheme_loop first seen [] = Inr None"
| "scheme_loop first seen (c # cs) =
     (if is_alpha c then scheme_loop False (seen @ [c]) cs
      else if is_digit c \<or> c \<in> set ''+-.'' then
        (if first then Inr None else scheme_loop False (seen @ [c]) cs)
      else if c = CHR '':'' then (if first then Inl MissingScheme else Inr (Some (seen, cs)))
      else Inr None)"

definition get_scheme :: "string \<Rightarrow> (url_error, string \<times> string) result" where
  "get_scheme s =
     map_sum id (\<lambda>r. case r of None \<Rightarrow> ([], s) | Some (sch, rest) \<Rightarrow> (sch, rest)) (scheme_loop True [] s)"

definition cut_query :: "string \<Rightarrow> string \<times> string" where
  "cut_query rest =
     (if has_suffix rest ''?'' \<and> count_list rest (CHR ''?'') = 1 then (butlast rest, [])
      else (case cut rest (CHR ''?'') of (p, q, _) \<Rightarrow> (p, q)))"

definition set_path :: "go_url \<Rightarrow> string \<Rightarrow> (url_error, go_url) result" where
  "set_path u path = map_sum id (\<lambda>_. u) (unescape False path)"

definition url_body :: "ip_host \<Rightarrow> string \<Rightarrow> (url_error, go_url) result" where
  "url_body ip s =
     (if list_ex is_ctl s then Inl ControlChar
      else if s = ''*'' then Inr empty_url
      else case get_scheme s of
        Inl e \<Rightarrow> Inl e
      | Inr (sch, rest0) \<Rightarrow>
          (case cut_query rest0 of
             (rest, q) \<Rightarrow>
               (let u = empty_url\<lparr>u_scheme := to_lower sch, u_rawquery := q\<rparr> in
                if \<not> has_prefix rest ''/'' \<and> sch \<noteq> [] then Inr (u\<lparr>u_opaque := rest\<rparr>)
                else if \<not> has_prefix rest ''/'' \<and> CHR '':'' \<in> set (fst (cut rest (CHR ''/''))) then
                  Inl ColonInFirstSegment
                else if (sch \<noteq> [] \<or> \<not> has_prefix rest ''///'') \<and> has_prefix rest ''//'' then
                  (let au = takeWhile (\<lambda>c. c \<noteq> CHR ''/'') (drop 2 rest);
                       path = dropWhile (\<lambda>c. c \<noteq> CHR ''/'') (drop 2 rest) in
                   case parse_authority ip au of
                     Inl e \<Rightarrow> Inl e
                   | Inr (ui, h) \<Rightarrow> set_path (u\<lparr>u_user := ui, u_host := h\<rparr>) path)
                else set_path u rest)))"

definition url_parse :: "ip_host \<Rightarrow> string \<Rightarrow> (url_error, go_url) result" where
  "url_parse ip raw =
     (case cut raw (CHR ''#'') of
        (s, frag, _) \<Rightarrow>
          (case url_body ip s of
             Inl e \<Rightarrow> Inl e
           | Inr u \<Rightarrow>
               (case unescape False frag of
                  Inl e \<Rightarrow> Inl e
                | Inr f \<Rightarrow> Inr (u\<lparr>u_fragment := f\<rparr>))))"

end
