(* ===== verification/JsonTokens.thy ===== *)
theory JsonTokens imports GoJson begin

text \<open>
  The token side of \<open>encoding/json\<close>: \<open>Decoder.Token\<close> and \<open>Decoder.More\<close> over the decoder's token
  state and its stack.  A scalar token is read by \<open>Decoder.Decode\<close> into an \<open>any\<close>, which fails on a
  number that overflows a \<open>float64\<close>.
\<close>

section \<open>Decoder state\<close>

datatype token_state =
    TopValue | ArrayStart | ArrayValue | ArrayComma
  | ObjectStart | ObjectKey | ObjectColon | ObjectValue | ObjectComma

record decoder =
  dec_rest :: string
  dec_state :: token_state
  dec_stack :: "token_state list"

definition new_decoder :: "string \<Rightarrow> decoder" where
  "new_decoder s = \<lparr>dec_rest = s, dec_state = TopValue, dec_stack = []\<rparr>"

datatype json_token = Delim char | Scalar json | KeyText string

definition value_allowed :: "token_state \<Rightarrow> bool" where
  "value_allowed st \<longleftrightarrow> st \<in> {TopValue, ArrayStart, ArrayValue, ObjectValue}"

fun value_end :: "token_state \<Rightarrow> token_state" where
  "value_end ArrayStart = ArrayComma"
| "value_end ArrayValue = ArrayComma"
| "value_end ObjectValue = ObjectComma"
| "value_end st = st"

section \<open>Numbers\<close>

text \<open>
  \<open>strconv.ParseFloat\<close> reports a range error when the nearest \<open>float64\<close> is infinite: from half a unit
  above the largest one on.  Its exponent counter stops growing at five digits.
\<close>

definition exp_value :: "string \<Rightarrow> nat" where
  "exp_value ds = fold (\<lambda>c e. if e < 10000 then 10 * e + digit_val c else e) ds 0"

definition overflows_at :: "nat \<Rightarrow> int \<Rightarrow> bool" where
  "overflows_at m e \<longleftrightarrow>
     (if 0 \<le> e then 2 ^ 1024 - 2 ^ 970 \<le> m * 10 ^ nat e else (2 ^ 1024 - 2 ^ 970) * 10 ^ nat (- e) \<le> m)"

text \<open>A number text as a sign, a mantissa and a power of ten.\<close>

definition decimal_of :: "string \<Rightarrow> bool \<times> nat \<times> int" where
  "decimal_of t =
     (let u = (if has_prefix t ''-'' then drop 1 t else t);
          whole = takeWhile is_digit u; r = dropWhile is_digit u;
          frac = (if has_prefix r ''.'' then takeWhile is_digit (drop 1 r) else []);
          r2 = (if has_prefix r ''.'' then dropWhile is_digit (drop 1 r) else r);
          x = drop 1 r2;
          e = (if r2 = [] then 0 else if has_prefix x ''-'' then - int (exp_value (drop 1 x))
               else if has_prefix x ''+'' then int (exp_value (drop 1 x)) else int (exp_value x)) in
      (has_prefix t ''-'', dec_value (whole @ frac), e - int (length frac)))"

definition float_overflow :: "string \<Rightarrow> bool" where
  "float_overflow t = (case decimal_of t of (_, m, e) \<Rightarrow> overflows_at m e)"

section \<open>Tokens\<close>

text \<open>\<open>Decode(&x)\<close> of a scalar: no bracket or brace starts it, so no nesting is used.\<close>

definition decode_scalar :: "string \<Rightarrow> (json \<times> string) option" where
  "decode_scalar s =
     (case json_value 1 0 s of
        Some (JNum t, r) \<Rightarrow> (if float_overflow t then None else Some (JNum t, r))
      | Some (v, r) \<Rightarrow> Some (v, r)
      | None \<Rightarrow> None)"

text \<open>
  One token, \<open>None\<close> for an error.  After a colon or a comma the decoder goes on to the next byte; the
  states allow at most one of them before a token.
\<close>

definition token_here :: "decoder \<Rightarrow> (json_token \<times> decoder) option" where
  "token_here d =
     (let st = dec_state d in
      case skip_ws (dec_rest d) of
        [] \<Rightarrow> None
      | c # cs \<Rightarrow>
          (if c = CHR ''['' then
             (if value_allowed st
              then Some (Delim c, \<lparr>dec_rest = cs, dec_state = ArrayStart, dec_stack = st # dec_stack d\<rparr>)
              else None)
           else if c = CHR ''{'' then
             (if value_allowed st
              then Some (Delim c, \<lparr>dec_rest = cs, dec_state = ObjectStart, dec_stack = st # dec_stack d\<rparr>)
              else None)
           else if c = CHR '']'' then
             (if st \<in> {ArrayStart, ArrayComma}
              then Some (Delim c, \<lparr>dec_rest = cs, dec_state = value_end (hd (dec_stack d)),
                                   dec_stack = tl (dec_stack d)\<rparr>)
              else None)
           else if c = CHR ''}'' then
             (if st \<in> {ObjectStart, ObjectComma}
              then Some (Delim c, \<lparr>dec_rest = cs, dec_state = value_end (hd (dec_stack d)),
                                   dec_stack = tl (dec_stack d)\<rparr>)
              else None)
           else if c = CHR 0x22 \<and> st \<in> {ObjectStart, ObjectKey} then
             (case json_string cs of
                None \<Rightarrow> None
              | Some (k, r) \<Rightarrow> Some (KeyText k, d\<lparr>dec_rest := r, dec_state := ObjectColon\<rparr>))
           else if c = CHR '':'' \<or> c = CHR '','' \<or> \<not> value_allowed st then None
           else (case decode_scalar (c # cs) of
                   None \<Rightarrow> None
                 | Some (v, r) \<Rightarrow> Some (Scalar v, d\<lparr>dec_rest := r, dec_state := value_end st\<rparr>))))"

definition Token :: "decoder \<Rightarrow> (json_token \<times> decoder) option" where
  "Token d =
     (case skip_ws (dec_rest d) of
        [] \<Rightarrow> None
      | c # cs \<Rightarrow>
          (if c = CHR '':'' \<and> dec_state d = ObjectColon
           then token_here (d\<lparr>dec_rest := cs, dec_state := ObjectValue\<rparr>)
           else if c = CHR '','' \<and> dec_state d = ArrayComma
           then token_here (d\<lparr>dec_rest := cs, dec_state := ArrayValue\<rparr>)
           else if c = CHR '','' \<and> dec_state d = ObjectComma
           then token_here (d\<lparr>dec_rest := cs, dec_state := ObjectKey\<rparr>)
           else token_here d))"

definition More :: "decoder \<Rightarrow> bool" where
  "More d =
     (case skip_ws (dec_rest d) of
        [] \<Rightarrow> False
      | c # _ \<Rightarrow> c \<noteq> CHR '']'' \<and> c \<noteq> CHR ''}'')"

end
