(* ===== verification/Config.thy ===== *)
theory Config imports GoUrl JsonPrint JsonTokens Readers begin

text \<open>
  \<open>internal/config/config.go\<close>: reading, checking and resolving the configuration.  Every check of the
  source is a definition of its own, in the source's order, and every error is a constructor of
  \<open>config_error\<close> that carries what the message prints.
\<close>

section \<open>Constants, the configuration and its errors\<close>

definition DefaultPath :: string where "DefaultPath = ''radichat.json''"
definition MaxFileBytes :: nat where "MaxFileBytes = 1048576"
definition maxEnvName :: nat where "maxEnvName = 256"
definition maxTokenBytes :: nat where "maxTokenBytes = 8192"

definition bom :: string where "bom = [CHR 0xEF, CHR 0xBB, CHR 0xBF]"

record config =
  cfg_Endpoint :: string
  cfg_Model :: string
  cfg_ContextBudget :: int64
  cfg_GenerationReserve :: int64
  cfg_SystemPrompt :: string
  cfg_SystemPromptFile :: string
  cfg_Path :: string
  cfg_BearerTokenEnv :: string
  cfg_BearerToken :: string

text \<open>A \<open>json.RawMessage\<close> field: \<open>None\<close> is the nil message of an absent field.\<close>

record file_config =
  raw_endpoint :: "string option"
  raw_model :: "string option"
  raw_context_budget :: "string option"
  raw_generation_reserve :: "string option"
  raw_system_prompt :: "string option"
  raw_system_prompt_file :: "string option"
  raw_bearer_token_env :: "string option"

datatype config_error =
    ConfigNotFound string
  | CannotReadConfig string
  | CannotStatConfig string
  | ConfigIsDirectory string
  | ConfigTooLarge string
  | ConfigEmpty string
  | JsonMalformed
  | JsonObjectMalformed
  | DuplicateKey string
  | JsonSyntax
  | UnknownField string
  | NotAnObject
  | TrailingJson
  | MissingField string
  | NonemptyString string
  | NullField string
  | NotAString string
  | NotPositive string
  | FractionOrExponent string
  | LeadingZeros string
  | NotIn64Bits string
  | ReserveNotSmaller
  | PromptConflict
  | BadEnvName
  | EnvUnset string
  | EnvEmpty string
  | BadTokenValue
  | UnusableUrl url_error
  | NotHttpUrl
  | MissingHost
  | HasUserinfo
  | HasQuery
  | HasFragment
  | OpaqueUrl
  | PromptNotFound string
  | CannotReadPrompt string
  | PromptIsDirectory string
  | PromptNotRegular string
  | PromptTooLarge string
  | PromptNotUtf8 string
  | PromptEmpty string

section \<open>Field values\<close>

definition parseString :: "string \<Rightarrow> string \<Rightarrow> (config_error, string) result" where
  "parseString raw name =
     (let trimmed = trim_space raw in
      if trimmed = [] \<or> hd trimmed \<noteq> CHR 0x22 then
        (if trimmed = ''null'' then Inl (NullField name) else Inl (NotAString name))
      else case parse_json raw of
        Some (JStr s) \<Rightarrow> Inr s
      | _ \<Rightarrow> Inl (NotAString name))"

definition parseOptionalString :: "string \<Rightarrow> string \<Rightarrow> (config_error, string) result" where
  "parseOptionalString raw name = parseString raw name"

definition parseRequiredString :: "string option \<Rightarrow> string \<Rightarrow> (config_error, string) result" where
  "parseRequiredString r name =
     (case r of
        None \<Rightarrow> Inl (MissingField name)
      | Some raw \<Rightarrow>
          (case parseString raw name of
             Inl e \<Rightarrow> Inl e
           | Inr s \<Rightarrow> (if trim_space s = [] then Inl (NonemptyString name) else Inr s)))"

text \<open>\<open>strconv.ParseInt(s, 10, 64)\<close>: \<open>None\<close> stands for its two errors, which the caller treats alike.\<close>

definition parse_int64 :: "string \<Rightarrow> int64 option" where
  "parse_int64 s =
     (let neg = has_prefix s ''-'';
          ds = (if neg \<or> has_prefix s ''+'' then drop 1 s else s);
          n = dec_value ds in
      if ds = [] \<or> \<not> list_all is_digit ds then None
      else if neg then (if n \<le> 2 ^ 63 then Some (word_of_int (- int n)) else None)
      else (if n < 2 ^ 63 then Some (word_of_int (int n)) else None))"

definition parsePositiveInt :: "string option \<Rightarrow> string \<Rightarrow> (config_error, int64) result" where
  "parsePositiveInt r name =
     (case r of
        None \<Rightarrow> Inl (MissingField name)
      | Some raw \<Rightarrow>
          (let s = trim_space raw in
           if s = [] \<or> hd s \<in> {CHR 0x22, CHR ''{'', CHR ''[''} \<or> s \<in> {''null'', ''true'', ''false''}
             then Inl (NotPositive name)
           else if contains_any s ''.eE+'' then Inl (FractionOrExponent name)
           else if 1 < length s \<and> hd s = CHR ''0'' then Inl (LeadingZeros name)
           else case parse_int64 s of
             None \<Rightarrow> Inl (NotIn64Bits name)
           | Some n \<Rightarrow> (if n <=s 0 then Inl (NotPositive name) else Inr n)))"

section \<open>The bearer token\<close>

definition validEnvName :: "string \<Rightarrow> bool" where
  "validEnvName name \<longleftrightarrow>
     name \<noteq> [] \<and> length name \<le> maxEnvName
     \<and> list_all (\<lambda>(i, c). is_alpha c \<or> c = CHR ''_'' \<or> (0 < i \<and> is_digit c))
         (zip [0..<length name] name)"

definition validateBearerToken :: "string \<Rightarrow> (config_error, unit) result" where
  "validateBearerToken token =
     (if maxTokenBytes < length token then Inl BadTokenValue
      else if list_ex (\<lambda>c. (of_char c :: nat) < 0x21 \<or> 0x7E < (of_char c :: nat)) token then Inl BadTokenValue
      else Inr ())"

type_synonym environment = "string \<Rightarrow> string option"

definition resolveBearerToken :: "environment \<Rightarrow> config \<Rightarrow> (config_error, config) result" where
  "resolveBearerToken env cfg =
     (let name = cfg_BearerTokenEnv cfg in
      if \<not> validEnvName name then Inl BadEnvName
      else case env name of
        None \<Rightarrow> Inl (EnvUnset name)
      | Some val \<Rightarrow>
          (if val = [] then Inl (EnvEmpty name)
           else case validateBearerToken val of
             Inl e \<Rightarrow> Inl e
           | Inr _ \<Rightarrow> Inr (cfg\<lparr>cfg_BearerToken := val\<rparr>)))"

section \<open>The endpoint\<close>

text \<open>\<open>u.IsAbs()\<close> is a nonempty scheme.\<close>

definition validateEndpoint :: "ip_host \<Rightarrow> string \<Rightarrow> (config_error, unit) result" where
  "validateEndpoint ip endpoint =
     (case url_parse ip endpoint of
        Inl e \<Rightarrow> Inl (UnusableUrl e)
      | Inr u \<Rightarrow>
          (if u_scheme u = [] \<or> (u_scheme u \<noteq> ''http'' \<and> u_scheme u \<noteq> ''https'') then Inl NotHttpUrl
           else if u_host u = [] then Inl MissingHost
           else if u_user u then Inl HasUserinfo
           else if u_rawquery u \<noteq> [] then Inl HasQuery
           else if u_fragment u \<noteq> [] \<or> contains endpoint ''#'' then Inl HasFragment
           else if u_opaque u \<noteq> [] then Inl OpaqueUrl
           else Inr ()))"

section \<open>Duplicate keys\<close>

text \<open>
  \<open>consumeJSONValue\<close> and its two loops.  The first argument is fuel, one unit a call; \<open>None\<close> is running
  out of it, which never happens with the fuel \<open>rejectDuplicateKeys\<close> gives (lemma \<open>consume_fuel\<close>).
\<close>

definition token_text :: "json_token \<Rightarrow> string option" where
  "token_text t = (case t of KeyText k \<Rightarrow> Some k | Scalar (JStr k) \<Rightarrow> Some k | _ \<Rightarrow> None)"

definition closing_token :: "decoder \<Rightarrow> (config_error, decoder) result" where
  "closing_token d = (case Token d of None \<Rightarrow> Inl JsonMalformed | Some (_, d1) \<Rightarrow> Inr d1)"

fun consumeJSONValue :: "nat \<Rightarrow> decoder \<Rightarrow> (config_error, decoder) result option"
  and object_loop :: "nat \<Rightarrow> string list \<Rightarrow> decoder \<Rightarrow> (config_error, decoder) result option"
  and array_loop :: "nat \<Rightarrow> decoder \<Rightarrow> (config_error, decoder) result option"
where
  "consumeJSONValue 0 d = None"
| "consumeJSONValue (Suc n) d =
     (case Token d of
        None \<Rightarrow> Some (Inl JsonMalformed)
      | Some (Delim c, d1) \<Rightarrow>
          (if c = CHR ''{'' then object_loop n [] d1
           else if c = CHR ''['' then array_loop n d1
           else Some (Inl JsonMalformed))
      | Some (_, d1) \<Rightarrow> Some (Inr d1))"
| "object_loop 0 seen d = None"
| "object_loop (Suc n) seen d =
     (if \<not> More d then Some (closing_token d)
      else case Token d of
        None \<Rightarrow> Some (Inl JsonMalformed)
      | Some (kt, d1) \<Rightarrow>
          (case token_text kt of
             None \<Rightarrow> Some (Inl JsonObjectMalformed)
           | Some key \<Rightarrow>
               (if key \<in> set seen then Some (Inl (DuplicateKey key))
                else case consumeJSONValue n d1 of
                  Some (Inr d2) \<Rightarrow> object_loop n (key # seen) d2
                | r \<Rightarrow> r)))"
| "array_loop 0 d = None"
| "array_loop (Suc n) d =
     (if \<not> More d then Some (closing_token d)
      else case consumeJSONValue n d of
        Some (Inr d2) \<Rightarrow> array_loop n d2
      | r \<Rightarrow> r)"

definition rejectDuplicateKeys :: "string \<Rightarrow> (config_error, unit) result" where
  "rejectDuplicateKeys data =
     (case consumeJSONValue (2 * length data + 3) (new_decoder data) of
        Some (Inl e) \<Rightarrow> Inl e
      | Some (Inr _) \<Rightarrow> Inr ()
      | None \<Rightarrow> Inl JsonMalformed)"

section \<open>The whole document\<close>

text \<open>
  \<open>Decode(&raw)\<close> with unknown fields refused: a later occurrence of a field replaces an earlier one,
  and decoding goes on after an unknown field, which is the error reported.
\<close>

definition zero_file_config :: file_config where
  "zero_file_config = \<lparr>raw_endpoint = None, raw_model = None, raw_context_budget = None,
     raw_generation_reserve = None, raw_system_prompt = None, raw_system_prompt_file = None,
     raw_bearer_token_env = None\<rparr>"

definition set_field :: "string \<Rightarrow> string \<Rightarrow> file_config \<Rightarrow> file_config option" where
  "set_field k raw fc =
     (if names_field k ''endpoint'' then Some (fc\<lparr>raw_endpoint := Some raw\<rparr>)
      else if names_field k ''model'' then Some (fc\<lparr>raw_model := Some raw\<rparr>)
      else if names_field k ''context_budget'' then Some (fc\<lparr>raw_context_budget := Some raw\<rparr>)
      else if names_field k ''generation_reserve'' then Some (fc\<lparr>raw_generation_reserve := Some raw\<rparr>)
      else if names_field k ''system_prompt'' then Some (fc\<lparr>raw_system_prompt := Some raw\<rparr>)
      else if names_field k ''system_prompt_file'' then Some (fc\<lparr>raw_system_prompt_file := Some raw\<rparr>)
      else if names_field k ''bearer_token_env'' then Some (fc\<lparr>raw_bearer_token_env := Some raw\<rparr>)
      else None)"

fun decode_fields :: "file_config \<Rightarrow> (string \<times> string \<times> json) list \<Rightarrow> (config_error, file_config) result" where
  "decode_fields fc [] = Inr fc"
| "decode_fields fc ((k, raw, v) # ms) =
     (case set_field k raw fc of
        None \<Rightarrow> Inl (UnknownField k)
      | Some fc' \<Rightarrow> decode_fields fc' ms)"

text \<open>The decoded document and the text after it.\<close>

definition decode_config :: "string \<Rightarrow> (config_error, file_config \<times> string) result" where
  "decode_config data =
     (case json_value (2 * length data + 2) max_nesting data of
        None \<Rightarrow> Inl JsonSyntax
      | Some (JNull, r) \<Rightarrow> Inr (zero_file_config, r)
      | Some (JObj ms, r) \<Rightarrow> map_sum id (\<lambda>fc. (fc, r)) (decode_fields zero_file_config ms)
      | _ \<Rightarrow> Inl NotAnObject)"

definition rejectTrailing :: "string \<Rightarrow> (config_error, unit) result" where
  "rejectTrailing r = (if skip_ws r = [] then Inr () else Inl TrailingJson)"

definition bind_sum :: "('e, 'a) result \<Rightarrow> ('a \<Rightarrow> ('e, 'b) result) \<Rightarrow> ('e, 'b) result" where
  "bind_sum r f = (case r of Inl e \<Rightarrow> Inl e | Inr x \<Rightarrow> f x)"

lemma bind_sum_Inr: "bind_sum r f = Inr y \<longleftrightarrow> (\<exists>x. r = Inr x \<and> f x = Inr y)"
  by (cases r) (auto simp: bind_sum_def)

text \<open>The fields of the configuration, in the order the source checks them.\<close>

definition config_fields ::
  "environment \<Rightarrow> ip_host \<Rightarrow> string \<Rightarrow> file_config \<Rightarrow> (config_error, config) result" where
  "config_fields env ip path raw =
     bind_sum (parseRequiredString (raw_endpoint raw) ''endpoint'') (\<lambda>endpoint.
     bind_sum (parseRequiredString (raw_model raw) ''model'') (\<lambda>model.
     bind_sum (parsePositiveInt (raw_context_budget raw) ''context_budget'') (\<lambda>budget.
     bind_sum (parsePositiveInt (raw_generation_reserve raw) ''generation_reserve'') (\<lambda>reserve.
       if budget <=s reserve then Inl ReserveNotSmaller
       else if raw_system_prompt raw \<noteq> None \<and> raw_system_prompt_file raw \<noteq> None then Inl PromptConflict
       else
         let cfg = \<lparr>cfg_Endpoint = endpoint, cfg_Model = model, cfg_ContextBudget = budget,
               cfg_GenerationReserve = reserve, cfg_SystemPrompt = [], cfg_SystemPromptFile = [],
               cfg_Path = path, cfg_BearerTokenEnv = [], cfg_BearerToken = []\<rparr> in
         bind_sum (case raw_system_prompt raw of None \<Rightarrow> Inr cfg
           | Some r \<Rightarrow> map_sum id (\<lambda>s. cfg\<lparr>cfg_SystemPrompt := s\<rparr>)
               (parseOptionalString r ''system_prompt'')) (\<lambda>cfg.
         bind_sum (case raw_system_prompt_file raw of None \<Rightarrow> Inr cfg
           | Some r \<Rightarrow> map_sum id (\<lambda>s. cfg\<lparr>cfg_SystemPromptFile := s\<rparr>)
               (parseRequiredString (Some r) ''system_prompt_file'')) (\<lambda>cfg.
         bind_sum (case raw_bearer_token_env raw of None \<Rightarrow> Inr cfg
           | Some r \<Rightarrow> bind_sum (parseRequiredString (Some r) ''bearer_token_env'')
               (\<lambda>s. resolveBearerToken env (cfg\<lparr>cfg_BearerTokenEnv := s\<rparr>))) (\<lambda>cfg.
         bind_sum (validateEndpoint ip (cfg_Endpoint cfg)) (\<lambda>_. Inr cfg))))))))"

definition Parse :: "environment \<Rightarrow> ip_host \<Rightarrow> string \<Rightarrow> string \<Rightarrow> (config_error, config) result" where
  "Parse env ip path data =
     (let trimmed = trim_space (trim_prefix data bom) in
      if trimmed = [] then Inl (ConfigEmpty path)
      else
        bind_sum (rejectDuplicateKeys trimmed) (\<lambda>_.
        bind_sum (decode_config trimmed) (\<lambda>(raw, rest).
        bind_sum (rejectTrailing rest) (\<lambda>_. config_fields env ip path raw))))"

section \<open>Files\<close>

text \<open>
  The file system as the code sees it: what \<open>os.Stat\<close> says of a path and what \<open>os.Open\<close> gives, a file
  with its own \<open>Stat\<close> and the bytes read from it.  The two are independent, so a file may change
  between the calls.
\<close>

datatype fs_error = NotExist | OtherFsError

record file_info =
  fi_dir :: bool
  fi_regular :: bool
  fi_size :: int

record open_file =
  of_stat :: "file_info option"
  of_reader :: reader

record file_system =
  fs_stat :: "string \<Rightarrow> (fs_error, file_info) result"
  fs_open :: "string \<Rightarrow> (fs_error, open_file) result"

text \<open>\<open>filepath.Clean\<close>: the path's elements, with dot and double dot resolved lexically.\<close>

fun split_path :: "string \<Rightarrow> string list" where
  "split_path [] = [[]]"
| "split_path (c # cs) =
     (if c = CHR ''/'' then [] # split_path cs
      else (case split_path cs of [] \<Rightarrow> [[c]] | e # es \<Rightarrow> (c # e) # es))"

fun clean_elems :: "bool \<Rightarrow> string list \<Rightarrow> string list \<Rightarrow> string list" where
  "clean_elems rooted out [] = rev out"
| "clean_elems rooted out (e # es) =
     (if e = [] \<or> e = ''.'' then clean_elems rooted out es
      else if e = ''..'' then
        (case out of
           [] \<Rightarrow> clean_elems rooted (if rooted then [] else [e]) es
         | x # xs \<Rightarrow> clean_elems rooted (if x = ''..'' then e # out else xs) es)
      else clean_elems rooted (e # out) es)"

definition is_abs :: "string \<Rightarrow> bool" where
  "is_abs path \<longleftrightarrow> has_prefix path ''/''"

definition clean_path :: "string \<Rightarrow> string" where
  "clean_path path =
     (let body = join (clean_elems (is_abs path) [] (split_path path)) ''/'' in
      if is_abs path then CHR ''/'' # body else if body = [] then ''.'' else body)"

definition dir_path :: "string \<Rightarrow> string" where
  "dir_path path =
     clean_path (case cut_last path (CHR ''/'') of None \<Rightarrow> [] | Some (d, _) \<Rightarrow> d @ ''/'')"

definition join_path :: "string \<Rightarrow> string \<Rightarrow> string" where
  "join_path a b = (if a = [] then (if b = [] then [] else clean_path b) else clean_path (a @ ''/'' @ b))"

definition strip_newline :: "string \<Rightarrow> string" where
  "strip_newline data =
     (if has_suffix data [CHR 0x0D, CHR 0x0A] then take (length data - 2) data
      else if has_suffix data [CHR 0x0A] then take (length data - 1) data
      else data)"

text \<open>The bounded read both loaders share: the bytes, or whether the read failed or went past the limit.\<close>

datatype bounded = Bytes string | ReadFailure | PastLimit

definition read_file :: "reader \<Rightarrow> bounded" where
  "read_file br =
     (case read_all (limit_reader (MaxFileBytes + 1) br) of
        (data, Some _) \<Rightarrow> ReadFailure
      | (data, None) \<Rightarrow> (if MaxFileBytes < length data then PastLimit else Bytes data))"

definition prompt_text :: "string \<Rightarrow> string \<Rightarrow> (config_error, string) result" where
  "prompt_text resolved data =
     (if \<not> valid_utf8 data then Inl (PromptNotUtf8 resolved)
      else
        let text = strip_newline (trim_prefix data bom) in
        if text = [] then Inl (PromptEmpty resolved) else Inr text)"

definition readSystemPromptFile :: "file_system \<Rightarrow> string \<Rightarrow> string \<Rightarrow> (config_error, string) result" where
  "readSystemPromptFile fs configPath promptPath =
     (let resolved = (if is_abs promptPath then promptPath else join_path (dir_path configPath) promptPath) in
      case fs_stat fs resolved of
        Inl NotExist \<Rightarrow> Inl (PromptNotFound resolved)
      | Inl OtherFsError \<Rightarrow> Inl (CannotReadPrompt resolved)
      | Inr info \<Rightarrow>
          (if fi_dir info then Inl (PromptIsDirectory resolved)
           else if \<not> fi_regular info then Inl (PromptNotRegular resolved)
           else if int MaxFileBytes < fi_size info then Inl (PromptTooLarge resolved)
           else case fs_open fs resolved of
             Inl _ \<Rightarrow> Inl (CannotReadPrompt resolved)
           | Inr f \<Rightarrow>
               (case read_file (of_reader f) of
                  ReadFailure \<Rightarrow> Inl (CannotReadPrompt resolved)
                | PastLimit \<Rightarrow> Inl (PromptTooLarge resolved)
                | Bytes data \<Rightarrow> prompt_text resolved data)))"

definition Load ::
  "environment \<Rightarrow> ip_host \<Rightarrow> file_system \<Rightarrow> string \<Rightarrow> (config_error, config) result" where
  "Load env ip fs path0 =
     (let path = (if path0 = [] then DefaultPath else path0) in
      case fs_open fs path of
        Inl NotExist \<Rightarrow> Inl (ConfigNotFound path)
      | Inl OtherFsError \<Rightarrow> Inl (CannotReadConfig path)
      | Inr f \<Rightarrow>
          (case of_stat f of
             None \<Rightarrow> Inl (CannotStatConfig path)
           | Some info \<Rightarrow>
               (if fi_dir info then Inl (ConfigIsDirectory path)
                else if int MaxFileBytes < fi_size info then Inl (ConfigTooLarge path)
                else case read_file (of_reader f) of
                  ReadFailure \<Rightarrow> Inl (CannotReadConfig path)
                | PastLimit \<Rightarrow> Inl (ConfigTooLarge path)
                | Bytes data \<Rightarrow>
                    bind_sum (Parse env ip path data) (\<lambda>cfg.
                      if cfg_SystemPromptFile cfg = [] then Inr cfg
                      else bind_sum (readSystemPromptFile fs path (cfg_SystemPromptFile cfg))
                             (\<lambda>text. Inr (cfg\<lparr>cfg_SystemPrompt := text\<rparr>))))))"

end
