(* ===== verification/JsonFuel.thy ===== *)
theory JsonFuel imports GoJson begin

text \<open>
  The JSON parser takes at least one byte for every value, so the fuel \<open>parse_json\<close> gives it is enough:
  any larger amount has the same outcome, and a text is never refused for want of fuel.
\<close>

section \<open>What is read is shorter\<close>

lemma skip_ws_le: "length (skip_ws s) \<le> length s"
  by (simp add: skip_ws_def length_dropWhile_le)

lemma skip_ws_Cons_length: "skip_ws s = c # cs \<Longrightarrow> length cs < length s"
  using skip_ws_le [of s] by simp

lemma put_Some_iff: "put x r = Some (t, rest) \<longleftrightarrow> (\<exists>t'. r = Some (t', rest) \<and> t = x @ t')"
  by (cases r) (auto simp: put_def)

lemma json_string_shrinks: "json_string s = Some (t, r) \<Longrightarrow> length r < length s"
proof (induction s arbitrary: t r rule: length_induct)
  case (1 s)
  then obtain c cs where s: "s = c # cs" by (cases s) auto
  have IH: "json_string u = Some (t', r) \<Longrightarrow> length u < length s \<Longrightarrow> length r < length s" for u t'
    using 1(1) less_trans by blast
  show ?case
    using 1(2) IH rune_len_le [of "c # cs"] unfolding s
    by (auto simp: json_string.simps put_Some_iff split: if_splits list.splits option.splits)
qed

lemma json_frac_le: "json_frac s = Some (t, r) \<Longrightarrow> length r \<le> length s"
  by (auto simp: json_frac_def Let_def le_SucI length_dropWhile_le split: list.splits if_splits)

lemma json_exp_le:
  assumes "json_exp s = Some (t, r)"
  shows "length r \<le> length s"
proof (cases s)
  case (Cons c cs)
  have "length (dropWhile is_digit (drop k cs)) \<le> length cs" for k
    using length_dropWhile_le [of is_digit "drop k cs"] by simp
  from this this [of 0] show ?thesis
    using assms Cons by (auto simp: json_exp_def Let_def le_SucI split: if_splits)
qed (use assms in \<open>simp add: json_exp_def\<close>)

lemma json_number_shrinks:
  assumes "json_number s = Some (t, r)"
  shows "length r < length s"
proof -
  define u where "u = drop (length (if has_prefix s ''-'' then ''-'' else [])) s"
  define ds where "ds = (if has_prefix u ''0'' then ''0'' else takeWhile is_digit u)"
  have ds: "ds \<noteq> []" and le: "length r \<le> length (drop (length ds) u)"
    using assms
    by (auto simp: json_number_def Let_def u_def ds_def split: if_splits option.splits
      dest!: json_frac_le json_exp_le)
  have "0 < length u"
    using ds by (cases u) (auto simp: ds_def has_prefix_def split: if_splits)
  moreover have "0 < length ds" and "length r \<le> length u - length ds"
    using ds le by simp_all
  ultimately have "length r < length u"
    by linarith
  moreover have "length u \<le> length s"
    by (simp add: u_def)
  ultimately show ?thesis by simp
qed

lemma drop_1_less: "has_prefix s [c] \<Longrightarrow> length (drop 1 s) < length s"
  by (cases s) (simp_all add: has_prefix_def)

lemma skip_ws_quote: "has_prefix (skip_ws s) [c] \<Longrightarrow> length (drop 1 (skip_ws s)) < length s"
  using drop_1_less skip_ws_le less_le_trans by blast

lemma json_value_shrinks_step:
  assumes "json_value (Suc n) d s = Some (v, r)"
    and "\<And>d s vs r. json_elems n d s = Some (vs, r) \<Longrightarrow> length r < length s"
    and "\<And>d s ms r. json_members n d s = Some (ms, r) \<Longrightarrow> length r < length s"
  shows "length r < length s"
proof (cases "skip_ws s")
  case (Cons c cs)
  then have less: "length cs < length s" by (rule skip_ws_Cons_length)
  have "length r \<le> length cs"
    using assms(1) Cons
    by (auto split: if_splits dest!: assms(2,3) json_string_shrinks json_number_shrinks
        intro: le_trans [OF _ skip_ws_le] simp: less_imp_le)
  with less show ?thesis by simp
qed (use assms(1) in simp)

lemma json_elems_shrinks_step:
  assumes "json_elems (Suc n) d s = Some (vs, r)"
    and val: "\<And>d s v r. json_value n d s = Some (v, r) \<Longrightarrow> length r < length s"
    and elems: "\<And>d s vs r. json_elems n d s = Some (vs, r) \<Longrightarrow> length r < length s"
  shows "length r < length s"
proof -
  obtain v u where v: "json_value n d s = Some (v, u)"
    using assms(1) by (auto split: option.splits)
  have "length r \<le> length (skip_ws u)"
    using assms(1) v elems by (fastforce simp: Let_def split: if_splits dest: less_imp_le)
  with val [OF v] skip_ws_le [of u] show ?thesis by linarith
qed

lemma json_members_shrinks_step:
  assumes "json_members (Suc n) d s = Some (ms, r)"
    and val: "\<And>d s v r. json_value n d s = Some (v, r) \<Longrightarrow> length r < length s"
    and members: "\<And>d s ms r. json_members n d s = Some (ms, r) \<Longrightarrow> length r < length s"
  shows "length r < length s"
proof -
  obtain k u v w where q: "has_prefix (skip_ws s) [CHR 0x22]" and k: "json_string (drop 1 (skip_ws s)) = Some (k, u)"
    and v: "json_value n d (skip_ws (drop 1 (skip_ws u))) = Some (v, w)"
    using assms(1) by (auto simp: Let_def split: option.splits if_splits)
  have "length r \<le> length (skip_ws w)"
    using assms(1) q k v members by (fastforce simp: Let_def split: if_splits dest: less_imp_le)
  moreover have "length w < length (skip_ws (drop 1 (skip_ws u)))" using val [OF v] .
  moreover have "length (skip_ws (drop 1 (skip_ws u))) \<le> length u"
    using skip_ws_le [of "drop 1 (skip_ws u)"] skip_ws_le [of u] by simp
  moreover have "length u < length s"
    using json_string_shrinks [OF k] skip_ws_quote [OF q] by linarith
  ultimately show ?thesis using skip_ws_le [of w] by linarith
qed

lemma json_shrinks:
  shows json_value_shrinks: "json_value n d s = Some (v, r) \<Longrightarrow> length r < length s"
    and json_elems_shrinks: "json_elems n d s = Some (vs, r) \<Longrightarrow> length r < length s"
    and json_members_shrinks: "json_members n d s = Some (ms, r) \<Longrightarrow> length r < length s"
proof (induction n arbitrary: d s v vs ms r)
  case (Suc n)
  {
    case 1
    then show ?case by (rule json_value_shrinks_step) (blast intro: Suc)+
  next
    case 2
    then show ?case by (rule json_elems_shrinks_step) (blast intro: Suc)+
  next
    case 3
    then show ?case by (rule json_members_shrinks_step) (blast intro: Suc)+
  }
qed simp_all

section \<open>One more unit changes nothing\<close>

lemma fuel_value_step:
  assumes "2 * length s + 1 \<le> Suc n"
    and "\<And>d s. 2 * length s + 2 \<le> n \<Longrightarrow> json_elems (Suc n) d s = json_elems n d s"
    and "\<And>d s. 2 * length s + 2 \<le> n \<Longrightarrow> json_members (Suc n) d s = json_members n d s"
  shows "json_value (Suc (Suc n)) d s = json_value (Suc n) d s"
proof (cases "skip_ws s")
  case (Cons c cs)
  then have "2 * length cs + 2 \<le> n"
    using skip_ws_Cons_length [of s c cs] assms(1) by simp
  with assms(2,3) show ?thesis
    by (simp only: json_value.simps(2) Cons list.case)
qed simp

lemma fuel_elems_step:
  assumes "2 * length s + 2 \<le> Suc n"
    and "\<And>d s. 2 * length s + 1 \<le> n \<Longrightarrow> json_value (Suc n) d s = json_value n d s"
    and "\<And>d s. 2 * length s + 2 \<le> n \<Longrightarrow> json_elems (Suc n) d s = json_elems n d s"
  shows "json_elems (Suc (Suc n)) d s = json_elems (Suc n) d s"
proof -
  have v: "json_value (Suc n) d s = json_value n d s"
    using assms(1,2) by simp
  show ?thesis
  proof (cases "json_value n d s")
    case (Some vr)
    obtain u r where vr: "vr = (u, r)" by fastforce
    have "2 * length (drop 1 (skip_ws r)) + 2 \<le> n"
      using json_value_shrinks [OF Some [unfolded vr]] skip_ws_le [of r] assms(1) by simp
    from assms(3) [OF this] show ?thesis
      by (simp only: json_elems.simps(2) v Some vr option.case prod.case Let_def)
  qed (simp only: json_elems.simps(2) v option.case)
qed

lemma fuel_members_step:
  assumes "2 * length s + 2 \<le> Suc n"
    and "\<And>d s. 2 * length s + 1 \<le> n \<Longrightarrow> json_value (Suc n) d s = json_value n d s"
    and "\<And>d s. 2 * length s + 2 \<le> n \<Longrightarrow> json_members (Suc n) d s = json_members n d s"
  shows "json_members (Suc (Suc n)) d s = json_members (Suc n) d s"
proof (cases "has_prefix (skip_ws s) [CHR 0x22]")
  case True
  show ?thesis
  proof (cases "json_string (drop 1 (skip_ws s))")
    case (Some ku)
    obtain k u where ku: "ku = (k, u)" by fastforce
    let ?t = "skip_ws (drop 1 (skip_ws u))"
    have "length u < length s"
      using json_string_shrinks [OF Some [unfolded ku]] skip_ws_quote [OF True] by linarith
    moreover have "length ?t \<le> length u"
      using skip_ws_le [of "drop 1 (skip_ws u)"] skip_ws_le [of u] by simp
    ultimately have t: "length ?t < length s" by linarith
    then have v: "json_value (Suc n) d ?t = json_value n d ?t"
      using assms(1) by (intro assms(2)) linarith
    show ?thesis
    proof (cases "json_value n d ?t")
      case None
      show ?thesis
        by (simp only: json_members.simps(2) Let_def True not_True_eq_False if_False Some ku option.case prod.case v None)
    next
      case Val: (Some vr)
      obtain x r where vr: "vr = (x, r)" by fastforce
      have "2 * length (drop 1 (skip_ws r)) + 2 \<le> n"
        using json_value_shrinks [OF Val [unfolded vr]] skip_ws_le [of r] t assms(1) by simp
      from assms(3) [OF this] show ?thesis
        by (simp only: json_members.simps(2) Let_def True not_True_eq_False if_False Some ku option.case prod.case v Val vr)
    qed
  qed (simp only: json_members.simps(2) Let_def True not_True_eq_False if_False option.case)
qed (simp only: json_members.simps(2) Let_def not_False_eq_True if_True)

lemma fuel_steps:
  shows "2 * length s + 1 \<le> n \<Longrightarrow> json_value (Suc n) d s = json_value n d s"
    and "2 * length s + 2 \<le> n \<Longrightarrow> json_elems (Suc n) d s = json_elems n d s"
    and "2 * length s + 2 \<le> n \<Longrightarrow> json_members (Suc n) d s = json_members n d s"
proof (induction n arbitrary: d s)
  case (Suc n)
  {
    case 1
    then show ?case by (rule fuel_value_step) (blast intro: Suc)+
  next
    case 2
    then show ?case by (rule fuel_elems_step) (blast intro: Suc)+
  next
    case 3
    then show ?case by (rule fuel_members_step) (blast intro: Suc)+
  }
qed simp_all

text \<open>The parser's fuel is enough: a document has the same parse under any larger amount.\<close>

lemma parse_json_fuel:
  assumes "2 * length s + 2 \<le> n"
  shows "parse_json s = (case json_value n max_nesting s of
     None \<Rightarrow> None | Some (v, r) \<Rightarrow> (if skip_ws r = [] then Some v else None))"
proof -
  have "json_value (2 * length s + 2 + k) max_nesting s = json_value (2 * length s + 2) max_nesting s" for k
    using fuel_steps(1) [of s] by (induction k) (simp_all del: json_value.simps)
  from this [of "n - (2 * length s + 2)"] have "json_value n max_nesting s = json_value (2 * length s + 2) max_nesting s"
    unfolding le_add_diff_inverse [OF assms] .
  then show ?thesis by (simp only: parse_json_def)
qed

end
