(* ===== verification/ConfigKeys.thy ===== *)
theory ConfigKeys imports Config JsonFuel begin

text \<open>
  The duplicate-key scan of \<open>internal/config/config.go\<close>: \<open>consumeJSONValue\<close> over the decoder's tokens
  never runs out of the fuel it is given, and on a text that parses it answers what a recursion over
  the parsed value answers.
\<close>

section \<open>Every token takes text\<close>

lemma decode_scalar_shrinks:
  assumes "decode_scalar s = Some (v, r)"
  shows "length r < length s"
proof -
  obtain w where "json_value 1 0 s = Some (w, r)"
    using assms by (auto simp: decode_scalar_def split: option.splits json.splits if_splits)
  then show ?thesis
    using skip_ws_le [of s]
    by (auto split: list.splits if_splits
      dest!: json_string_shrinks json_number_shrinks)
qed

lemma token_here_shrinks: "token_here d = Some (t, d') \<Longrightarrow> length (dec_rest d') < length (dec_rest d)"
  using skip_ws_le [of "dec_rest d"]
  by (auto simp: token_here_def Let_def split: list.splits if_splits option.splits
    dest!: json_string_shrinks decode_scalar_shrinks)

lemma Token_shrinks: "Token d = Some (t, d') \<Longrightarrow> length (dec_rest d') < length (dec_rest d)"
  using skip_ws_le [of "dec_rest d"]
  by (auto simp: Token_def split: list.splits if_splits dest!: token_here_shrinks)

section \<open>The fuel is enough\<close>

lemma closing_shrinks: "closing_token d = Inr d' \<Longrightarrow> length (dec_rest d') < length (dec_rest d)"
  by (auto simp: closing_token_def split: option.splits dest: Token_shrinks)

lemma consume_shrinks:
  "consumeJSONValue n d = Some (Inr d') \<Longrightarrow> length (dec_rest d') < length (dec_rest d)"
  "object_loop n seen d = Some (Inr d') \<Longrightarrow> length (dec_rest d') < length (dec_rest d)"
  "array_loop n d = Some (Inr d') \<Longrightarrow> length (dec_rest d') < length (dec_rest d)"
proof (induction n d and n seen d and n d arbitrary: d' and d' and d'
    rule: consumeJSONValue_object_loop_array_loop.induct)
  case (2 n d)
  then show ?case
    by (fastforce split: option.splits json_token.splits if_splits dest: Token_shrinks)
next
  case (4 n seen d)
  then show ?case
    by (auto split: option.splits if_splits sum.splits dest!: Token_shrinks closing_shrinks)
      (meson less_trans)+
next
  case (6 n d)
  then show ?case
    by (auto split: option.splits if_splits sum.splits dest!: closing_shrinks) (meson less_trans)+
qed simp_all

lemma consume_fuel:
  "2 * length (dec_rest d) < n \<Longrightarrow> consumeJSONValue n d \<noteq> None"
  "2 * length (dec_rest d) + 1 < n \<Longrightarrow> object_loop n seen d \<noteq> None"
  "2 * length (dec_rest d) + 1 < n \<Longrightarrow> array_loop n d \<noteq> None"
proof (induction n d and n seen d and n d rule: consumeJSONValue_object_loop_array_loop.induct)
  case (2 n d)
  then show ?case
    by (fastforce split: option.splits json_token.splits dest: Token_shrinks)
next
  case (4 n seen d)
  then show ?case
    by (fastforce split: option.splits sum.splits dest: Token_shrinks consume_shrinks(1))
next
  case (6 n d)
  then show ?case
    by (fastforce split: option.splits sum.splits dest: consume_shrinks(1))
qed simp_all

section \<open>The scan against the parsed value\<close>

text \<open>The first problem of a value in document order: a repeated key, or a number beyond \<open>float64\<close>.\<close>

fun first_problem :: "config_error option list \<Rightarrow> config_error option" where
  "first_problem [] = None"
| "first_problem (p # ps) = (case p of None \<Rightarrow> first_problem ps | Some e \<Rightarrow> Some e)"

fun scan_members :: "string list \<Rightarrow> (string \<times> config_error option) list \<Rightarrow> config_error option" where
  "scan_members seen [] = None"
| "scan_members seen ((k, p) # ms) =
     (if k \<in> set seen then Some (DuplicateKey k)
      else case p of None \<Rightarrow> scan_members (k # seen) ms | Some e \<Rightarrow> Some e)"

fun json_problem :: "json \<Rightarrow> config_error option" where
  "json_problem (JNum t) = (if float_overflow t then Some JsonMalformed else None)"
| "json_problem (JArr vs) = first_problem (map json_problem vs)"
| "json_problem (JObj ms) = scan_members [] (map (\<lambda>(k, raw, v). (k, json_problem v)) ms)"
| "json_problem _ = None"

definition answer :: "config_error option \<Rightarrow> decoder \<Rightarrow> (config_error, decoder) result option" where
  "answer p d = Some (case p of None \<Rightarrow> Inr d | Some e \<Rightarrow> Inl e)"

lemma answer_simps [simp]: "answer None d = Some (Inr d)" "answer (Some e) d = Some (Inl e)"
  by (simp_all add: answer_def)

lemma skip_ws_head: "skip_ws s = c # cs \<Longrightarrow> \<not> json_space c"
  by (metis hd_dropWhile list.distinct(1) list.sel(1) skip_ws_def)

lemma skip_ws_idem [simp]: "skip_ws (skip_ws s) = skip_ws s"
  by (simp add: skip_ws_def)

lemma scalar_value:
  assumes "skip_ws s = c # cs" and "c \<noteq> CHR ''{''" and "c \<noteq> CHR ''[''"
  shows "json_value (Suc n) dp s = json_value 1 0 (c # cs)"
  using assms skip_ws_Cons [OF skip_ws_head [OF assms(1)]] by simp

lemma json_number_head:
  assumes "json_number (c # cs) = Some x"
  shows "is_digit c \<or> c = CHR ''-''"
proof (rule ccontr)
  assume n: "\<not> ?thesis"
  then have "c \<noteq> CHR ''0''" by (auto simp: is_digit_def)
  with n assms show False
    by (simp add: json_number_def has_prefix_def)
qed

lemma scalar_head:
  assumes "json_value 1 0 (c # cs) = Some x" and "skip_ws (c # cs) = c # cs"
  shows "c \<notin> {CHR ''['', CHR '']'', CHR ''{'', CHR ''}'', CHR '':'', CHR '',''}"
proof -
  have "\<not> is_digit d" if "d \<in> {CHR ''['', CHR '']'', CHR ''{'', CHR ''}'', CHR '':'', CHR '',''}" for d
    using that by (auto simp: is_digit_def)
  then show ?thesis
    using assms json_number_head [of c cs] by (fastforce simp: has_prefix_def split: if_splits)
qed

lemma scalar_answer:
  assumes "json_value 1 0 (c # cs) = Some (v, r)" and "skip_ws (c # cs) = c # cs"
  shows "decode_scalar (c # cs) = (if json_problem v = None then Some (v, r) else None)
     \<and> (\<forall>e. json_problem v = Some e \<longrightarrow> e = JsonMalformed)"
  using assms by (auto simp: decode_scalar_def split: if_splits option.splits)

definition at :: "string \<Rightarrow> token_state \<Rightarrow> token_state list \<Rightarrow> decoder" where
  "at s st stk = \<lparr>dec_rest = s, dec_state = st, dec_stack = stk\<rparr>"

lemma at_sel [simp]: "dec_rest (at s st stk) = s" "dec_state (at s st stk) = st" "dec_stack (at s st stk) = stk"
  by (simp_all add: at_def)

lemma token_here_skip: "skip_ws s = skip_ws t \<Longrightarrow> token_here (at s st stk) = token_here (at t st stk)"
  by (cases "skip_ws t") (auto simp: token_here_def at_def split: option.split)

lemma Token_colon: "skip_ws s = CHR '':'' # t \<Longrightarrow> Token (at s ObjectColon stk) = token_here (at t ObjectValue stk)"
  by (simp add: Token_def at_def)

lemma Token_comma:
  "skip_ws s = CHR '','' # t \<Longrightarrow> Token (at s ObjectComma stk) = token_here (at t ObjectKey stk)"
  "skip_ws s = CHR '','' # t \<Longrightarrow> Token (at s ArrayComma stk) = token_here (at t ArrayValue stk)"
  by (simp_all add: Token_def at_def)

lemma Token_start:
  "st \<in> {TopValue, ArrayStart, ArrayValue, ObjectStart, ObjectKey, ObjectValue} \<Longrightarrow> Token (at s st stk) = token_here (at s st stk)"
  by (cases "skip_ws s") (auto simp: Token_def token_here_def [of "at s _ stk"])

lemma More_at: "skip_ws s = c # cs \<Longrightarrow> More (at s st stk) \<longleftrightarrow> c \<noteq> CHR '']'' \<and> c \<noteq> CHR ''}''"
  by (simp add: More_def)

lemma closing_at:
  "skip_ws s = CHR ''}'' # t \<Longrightarrow> st \<in> {ObjectStart, ObjectComma}
     \<Longrightarrow> closing_token (at s st stk) = Inr (at t (value_end (hd stk)) (tl stk))"
  "skip_ws s = CHR '']'' # t \<Longrightarrow> st \<in> {ArrayStart, ArrayComma}
     \<Longrightarrow> closing_token (at s st stk) = Inr (at t (value_end (hd stk)) (tl stk))"
  by (auto simp: closing_token_def Token_def token_here_def at_def)

lemma token_open:
  assumes "skip_ws s = c # cs" and "value_allowed st"
  shows "c = CHR ''{'' \<Longrightarrow> token_here (at s st stk) = Some (Delim c, at cs ObjectStart (st # stk))"
    and "c = CHR ''['' \<Longrightarrow> token_here (at s st stk) = Some (Delim c, at cs ArrayStart (st # stk))"
  using assms by (simp_all add: token_here_def at_def)

lemma token_scalar:
  assumes "skip_ws s = c # cs" and "value_allowed st" and "json_value 1 0 (c # cs) = Some (v, r)"
  shows "token_here (at s st stk) =
     (if json_problem v = None then Some (Scalar v, at r (value_end st) stk) else None)"
proof -
  have w: "skip_ws (c # cs) = c # cs"
    using assms(1) skip_ws_Cons skip_ws_head by blast
  have "st \<notin> {ObjectStart, ObjectKey}"
    using assms(2) by (auto simp: value_allowed_def)
  with assms scalar_head [OF assms(3) w] scalar_answer [OF assms(3) w] show ?thesis
    by (auto simp: token_here_def at_def)
qed

lemma token_key:
  assumes "skip_ws s = CHR 0x22 # cs" and "st \<in> {ObjectStart, ObjectKey}" and "json_string cs = Some (k, r)"
  shows "token_here (at s st stk) = Some (KeyText k, at r ObjectColon stk)"
  using assms by (auto simp: token_here_def at_def)

lemma value_head:
  assumes "json_value n dp s = Some (v, r)"
  shows "\<exists>c cs. skip_ws s = c # cs \<and> c \<notin> {CHR '']'', CHR ''}'', CHR '':'', CHR '',''}"
proof -
  obtain m where n: "n = Suc m"
    using assms by (cases n) auto
  obtain c cs where w: "skip_ws s = c # cs"
    using assms n by (cases "skip_ws s") auto
  have k: "skip_ws (c # cs) = c # cs"
    using w skip_ws_Cons skip_ws_head by blast
  show ?thesis
  proof (cases "c = CHR ''{'' \<or> c = CHR ''[''")
    case False
    then have "json_value 1 0 (c # cs) = Some (v, r)"
      using assms n scalar_value [OF w] by simp
    from scalar_head [OF this k] w show ?thesis by simp
  qed (use w in auto)
qed

lemma elems_head: "json_elems n dp s = Some (vs, r) \<Longrightarrow> \<exists>v r'. json_value (n - 1) dp s = Some (v, r')"
  by (cases n) (auto split: option.splits)

lemma More_value: "json_value n dp s = Some (v, r) \<Longrightarrow> More (at s st stk)"
  using value_head [of n dp s v r] by (auto simp: More_at)

lemma has_prefix_one: "has_prefix s [c] \<longleftrightarrow> (\<exists>t. s = c # t)"
  by (cases s) (auto simp: has_prefix_def)

lemma members_head:
  assumes "json_members (Suc n) dp s = Some (ms, r)"
  obtains cs k r1 u v r2 where "skip_ws s = CHR 0x22 # cs" and "json_string cs = Some (k, r1)"
    and "skip_ws r1 = CHR '':'' # u" and "json_value n dp (skip_ws u) = Some (v, r2)"
proof -
  from assms obtain cs where a: "skip_ws s = CHR 0x22 # cs"
    by (auto simp: Let_def has_prefix_one split: if_splits)
  with assms obtain k r1 where b: "json_string cs = Some (k, r1)"
    by (auto simp: Let_def has_prefix_one split: option.splits)
  with assms a obtain u where c: "skip_ws r1 = CHR '':'' # u"
    by (auto simp: Let_def has_prefix_one split: if_splits)
  with assms a b obtain v r2 where "json_value n dp (skip_ws u) = Some (v, r2)"
    by (auto simp: Let_def has_prefix_one split: option.splits)
  with a b c show thesis by (rule that)
qed

text \<open>The three loops against the three parsers, with one unit of fuel more.\<close>

lemma consume_parsed:
  "json_value n dp s = Some (v, r) \<Longrightarrow> value_allowed st \<Longrightarrow> Token d = token_here (at s st stk)
     \<Longrightarrow> consumeJSONValue (Suc n) d = answer (json_problem v) (at r (value_end st) stk)"
  "json_elems n dp s = Some (vs, r) \<Longrightarrow> st \<in> {ArrayStart, ArrayValue} \<Longrightarrow> More d
     \<Longrightarrow> Token d = token_here (at s st stk)
     \<Longrightarrow> array_loop (Suc n) d = answer (first_problem (map json_problem vs)) (at r (value_end (hd stk)) (tl stk))"
  "json_members n dp s = Some (ms, r) \<Longrightarrow> st \<in> {ObjectStart, ObjectKey} \<Longrightarrow> More d
     \<Longrightarrow> Token d = token_here (at s st stk)
     \<Longrightarrow> object_loop (Suc n) seen d =
           answer (scan_members seen (map (\<lambda>(k, raw, v). (k, json_problem v)) ms)) (at r (value_end (hd stk)) (tl stk))"
proof (induction n dp s and n dp s and n dp s arbitrary: v r st stk d and vs r st stk d and ms r st stk d seen
    rule: json_value_json_elems_json_members.induct)
  case (2 n dp s)
  obtain c cs where w: "skip_ws s = c # cs"
    using 2(3) by (cases "skip_ws s") auto
  show ?case
  proof (cases "c = CHR ''{'' \<or> c = CHR ''[''")
    case False
    then have j: "json_value 1 0 (c # cs) = Some (v, r)"
      using 2(3) scalar_value [OF w] by simp
    have "skip_ws (c # cs) = c # cs"
      using w skip_ws_Cons skip_ws_head by blast
    with token_scalar [OF w 2(4) j] scalar_answer [OF j] show ?thesis
      using 2(5) by (auto split: option.split)
  next
    case True
    then show ?thesis
    proof
      assume c: "c = CHR ''{''"
      note t = token_open(1) [OF w 2(4) c]
      show ?thesis
      proof (cases "has_prefix (skip_ws cs) ''}''")
        case True
        then obtain u where u: "skip_ws cs = CHR ''}'' # u"
          by (cases "skip_ws cs") (auto simp: has_prefix_def)
        then have "v = JObj []" and "r = u"
          using 2(3) w c True by (auto split: if_splits)
        with t u c show ?thesis
          using 2(5) by (simp add: More_at closing_at(1))
      next
        case False
        then obtain ms where ms: "json_members n (dp - 1) cs = Some (ms, r)" and v: "v = JObj ms"
          using 2(3) w c by (auto split: if_splits)
        have "\<exists>u. skip_ws cs = CHR 0x22 # u"
          using ms by (cases n; cases "skip_ws cs") (auto simp: has_prefix_def split: if_splits)
        then have "More (at cs ObjectStart (st # stk))"
          by (auto simp: More_at)
        then have "object_loop (Suc n) [] (at cs ObjectStart (st # stk))
            = answer (json_problem v) (at r (value_end st) stk)"
          using 2(1) [of c cs ms r ObjectStart "at cs ObjectStart (st # stk)" "st # stk" "[]"]
            w c ms v False 2(3) by (auto simp: Token_start split: if_splits)
        with t c show ?thesis
          using 2(5) by simp
      qed
    next
      assume c: "c = CHR ''[''"
      note t = token_open(2) [OF w 2(4) c]
      show ?thesis
      proof (cases "has_prefix (skip_ws cs) '']''")
        case True
        then obtain u where u: "skip_ws cs = CHR '']'' # u"
          by (cases "skip_ws cs") (auto simp: has_prefix_def)
        then have "v = JArr []" and "r = u"
          using 2(3) w c True by (auto split: if_splits)
        with t u c show ?thesis
          using 2(5) by (simp add: More_at closing_at(2))
      next
        case False
        then obtain vs where vs: "json_elems n (dp - 1) cs = Some (vs, r)" and v: "v = JArr vs"
          using 2(3) w c by (auto split: if_splits)
        have "More (at cs ArrayStart (st # stk))"
          using elems_head [OF vs] More_value by blast
        then have "array_loop (Suc n) (at cs ArrayStart (st # stk))
            = answer (json_problem v) (at r (value_end st) stk)"
          using 2(2) [of c cs vs r ArrayStart "at cs ArrayStart (st # stk)" "st # stk"]
            w c vs v False 2(3) by (auto simp: Token_start split: if_splits)
        with t c show ?thesis
          using 2(5) by simp
      qed
    qed
  qed
next
  case (4 n dp s)
  obtain v r1 where v: "json_value n dp s = Some (v, r1)"
    using 4(3) by (auto split: option.splits)
  have st: "value_allowed st" "value_end st = ArrayComma"
    using 4(4) by (auto simp: value_allowed_def)
  have one: "consumeJSONValue (Suc n) d = answer (json_problem v) (at r1 ArrayComma stk)"
    using 4(1) [OF v st(1) 4(6)] st by simp
  show ?case
  proof (cases "json_problem v")
    case (Some e)
    then show ?thesis
      using 4(3,5) v one by (auto simp: Let_def split: if_splits option.splits)
  next
    case None
    note ok = this
    show ?thesis
    proof (cases "has_prefix (skip_ws r1) '']''")
      case True
      then obtain u where u: "skip_ws r1 = CHR '']'' # u"
        by (cases "skip_ws r1") (auto simp: has_prefix_def)
      then have "vs = [v]" and "r = u"
        using 4(3) v True by (auto simp: Let_def split: if_splits)
      moreover obtain m where "n = Suc m"
        using v by (cases n) auto
      ultimately show ?thesis
        using one ok u 4(5) by (simp add: More_at closing_at(2))
    next
      case False
      then obtain u vs' where u: "skip_ws r1 = CHR '','' # u"
        and vs': "json_elems n dp u = Some (vs', r)" and vs: "vs = v # vs'"
        using 4(3) v by (cases "skip_ws r1") (auto simp: Let_def has_prefix_def split: if_splits)
      obtain m where n: "n = Suc m"
        using v by (cases n) auto
      have "array_loop (Suc n) (at r1 ArrayComma stk)
          = answer (first_problem (map json_problem vs')) (at r (value_end (hd stk)) (tl stk))"
        by (rule 4(2) [OF v refl refl, where st = ArrayValue])
          (use False u vs' Token_comma(2) [OF u] in \<open>simp_all add: More_at has_prefix_def\<close>)
      with one ok vs 4(5) show ?thesis
        by simp
    qed
  qed
next
  case (6 n dp s)
  obtain cs k r1 u v r2 where w: "skip_ws s = CHR 0x22 # cs" and k: "json_string cs = Some (k, r1)"
    and u: "skip_ws r1 = CHR '':'' # u" and v: "json_value n dp (skip_ws u) = Some (v, r2)"
    by (rule members_head [OF 6(3)])
  have key: "Token d = Some (KeyText k, at r1 ObjectColon stk)"
    using token_key [OF w 6(4) k] 6(6) by simp
  have a: "\<not> \<not> has_prefix (skip_ws s) [CHR 0x22]" and b: "json_string (drop 1 (skip_ws s)) = Some (k, r1)"
    and c: "\<not> \<not> has_prefix (skip_ws r1) '':''" and e: "skip_ws u = skip_ws (drop 1 (skip_ws r1))"
    using w k u by (simp_all add: has_prefix_def)
  have one: "consumeJSONValue (Suc n) (at r1 ObjectColon stk)
      = answer (json_problem v) (at r2 ObjectComma stk)"
    by (rule 6(1) [OF refl a b refl refl c e, where st = ObjectValue, unfolded value_end.simps])
      (use v Token_colon [OF u] token_here_skip [OF skip_ws_idem, of u] in
        \<open>simp_all add: value_allowed_def\<close>)
  have more: "More d" and seen: "token_text (KeyText k) = Some k"
    using 6(5) by (simp_all add: token_text_def)
  show ?case
  proof (cases "k \<in> set seen \<or> json_problem v \<noteq> None")
    case True
    then show ?thesis
      using 6(3) w k u v key one more seen
      by (auto simp: Let_def has_prefix_def split: if_splits)
  next
    case ok: False
    obtain m where n: "n = Suc m"
      using v by (cases n) auto
    show ?thesis
    proof (cases "has_prefix (skip_ws r2) ''}''")
      case True
      then obtain t where t: "skip_ws r2 = CHR ''}'' # t"
        by (cases "skip_ws r2") (auto simp: has_prefix_def)
      have "object_loop (Suc n) (k # seen) (at r2 ObjectComma stk)
          = Some (Inr (at t (value_end (hd stk)) (tl stk)))"
        using t by (simp add: More_at closing_at(1))
      moreover have "r = t" and "map (\<lambda>(k, raw, v). (k, json_problem v)) ms = [(k, json_problem v)]"
        using 6(3) w k u v t by (auto simp: Let_def has_prefix_def split: if_splits)
      ultimately show ?thesis
        using key one ok more seen by simp
    next
      case False
      then obtain t raw ms' where t: "skip_ws r2 = CHR '','' # t"
        and ms': "json_members n dp t = Some (ms', r)" and ms: "ms = (k, raw, v) # ms'"
        using 6(3) w k u v
        by (cases "skip_ws r2") (auto simp: Let_def has_prefix_def split: if_splits)
      have "object_loop (Suc n) (k # seen) (at r2 ObjectComma stk)
          = answer (scan_members (k # seen) (map (\<lambda>(k, raw, v). (k, json_problem v)) ms'))
              (at r (value_end (hd stk)) (tl stk))"
        by (rule 6(2) [OF refl a b refl refl c e v refl refl refl, where st = ObjectKey])
          (use t ms' Token_comma(1) [OF t] in \<open>simp_all add: has_prefix_def More_at\<close>)
      with key one ok more seen ms show ?thesis
        by simp
    qed
  qed
qed simp_all

section \<open>Properties\<close>

text \<open>C27: \<open>rejectDuplicateKeys\<close> terminates on every input: the recursion over tokens never needs more
  steps than twice the text's length and three, malformed texts included.\<close>

theorem rejectDuplicateKeys_terminates:
  "consumeJSONValue (2 * length data + 3) (new_decoder data) \<noteq> None"
  using consume_fuel(1) [of "new_decoder data" "2 * length data + 3"] by (simp add: new_decoder_def)

lemma rejectDuplicateKeys_parsed:
  assumes "json_value (2 * length s + 2) dp s = Some (v, r)"
  shows "rejectDuplicateKeys s = (case json_problem v of None \<Rightarrow> Inr () | Some e \<Rightarrow> Inl e)"
proof -
  have "consumeJSONValue (Suc (2 * length s + 2)) (new_decoder s)
      = answer (json_problem v) (at r (value_end TopValue) [])"
    by (rule consume_parsed(1) [OF assms])
      (simp_all add: value_allowed_def new_decoder_def at_def [symmetric] Token_start)
  then show ?thesis
    by (simp add: rejectDuplicateKeys_def answer_def numeral_3_eq_3 split: option.splits)
qed

text \<open>C19: on every text that starts with a JSON value, the token scan answers exactly what the parsed
  value calls for: the first key, in document order, that an object at any depth repeats, or a
  malformed-number error for a number beyond \<open>float64\<close>, and no error otherwise.\<close>

theorem rejectDuplicateKeys_exact:
  assumes "json_value (2 * length s + 2) dp s = Some (v, r)"
  shows "rejectDuplicateKeys s = (case json_problem v of None \<Rightarrow> Inr () | Some e \<Rightarrow> Inl e)"
  using assms by (rule rejectDuplicateKeys_parsed)

definition twice_inner :: json where
  "twice_inner = JObj [(''b'', ''1'', JNum ''1''), (''b'', ''2'', JNum ''2'')]"

definition twice_keyed :: json where
  "twice_keyed = JObj [(''a'', json_print False twice_inner, twice_inner)]"

lemma ascii_letter: "valid_utf8 ''a''" "valid_utf8 ''b''"
  by (rule valid_utf8_ascii, simp add: byte_in_def)+

lemma twice_keyed_wf: "json_wf False 2 twice_keyed"
  by (simp add: twice_keyed_def twice_inner_def ascii_letter plain_number_def is_digit_def)

lemma json_value_print:
  assumes "json_wf html dp v"
  shows "json_value (2 * length (json_print html v) + 2) dp (json_print html v) = Some (v, [])"
  using json_wf_reads_back [OF assms] unfolding reads_back_def
  by (metis append_Nil2 follows_simps(1) le_add1)

lemma float_overflow_digit: "is_digit c \<Longrightarrow> \<not> float_overflow [c]"
  by (auto simp: float_overflow_def decimal_of_def overflows_at_def has_prefix_def is_digit_def dec_value.simps digit_val_def)

lemma twice_keyed_problem: "json_problem twice_keyed = Some (DuplicateKey ''b'')"
  by (simp add: twice_keyed_def twice_inner_def float_overflow_digit is_digit_def)

theorem rejectDuplicateKeys_exact_witness:
  "rejectDuplicateKeys (json_print False twice_keyed) = Inl (DuplicateKey ''b'')"
  using rejectDuplicateKeys_exact [OF json_value_print [OF twice_keyed_wf]]
  by (simp add: twice_keyed_problem)

end
