(* ===== verification/Utf8.thy ===== *)
theory Utf8 imports JsonPrint begin

text \<open>
  Where valid UTF-8 comes from: concatenations, encoded runes, decoded JSON strings, and texts whose
  byte order mark and trailing newline are removed.
\<close>

section \<open>Concatenation\<close>

lemma rune_len_append:
  assumes "rune_len s \<noteq> 0"
  shows "rune_len (s @ t) = rune_len s"
proof (cases s)
  case (Cons a bs)
  with assms have "lead_len a \<le> Suc (length bs)" "conts_ok a (take (lead_len a - 1) bs)" "rune_len s = lead_len a"
    by (auto simp: rune_len.simps split: if_splits)
  then show ?thesis
    using Cons by (simp add: rune_len.simps)
qed (use assms in simp)

lemma valid_utf8_step:
  "s \<noteq> [] \<Longrightarrow> valid_utf8 s \<longleftrightarrow> rune_len s \<noteq> 0 \<and> valid_utf8 (drop (rune_len s) s)"
  by (subst valid_utf8.simps) simp

lemma valid_utf8_append: "valid_utf8 a \<Longrightarrow> valid_utf8 (a @ b) \<longleftrightarrow> valid_utf8 b"
proof (induction a rule: valid_utf8.induct)
  case (1 a)
  show ?case
  proof (cases "a = []")
    case False
    then have k: "rune_len a \<noteq> 0" and v: "valid_utf8 (drop (rune_len a) a)"
      using 1(2) valid_utf8_step by auto
    have "valid_utf8 (a @ b) \<longleftrightarrow> valid_utf8 (drop (rune_len a) a @ b)"
      using False k rune_len_le [of a] by (subst valid_utf8_step) (simp_all add: rune_len_append)
    with 1(1) [OF False k v] show ?thesis by simp
  qed simp
qed

lemma valid_utf8_rune:
  assumes "rune_len r = length r"
  shows "valid_utf8 r"
  using assms by (cases "r = []") (simp_all add: valid_utf8_step)

section \<open>Encoded runes and decoded strings\<close>

lemma byte_in_byte_chr: "n < 256 \<Longrightarrow> byte_in lo hi (byte_chr n) \<longleftrightarrow> lo \<le> n \<and> n \<le> hi"
  by (simp add: byte_in_def byte_chr_def)

lemma byte_chr_eq: "n < 256 \<Longrightarrow> byte_chr n = c \<longleftrightarrow> n = of_char c"
  by (auto simp: byte_chr_def)

lemma encode_rune_valid:
  assumes "n < 0x110000" and "\<not> is_surrogate n"
  shows "valid_utf8 (encode_rune n)"
proof (rule valid_utf8_rune)
  consider "n < 0x80" | "0x80 \<le> n" "n < 0x800" | "0x800 \<le> n" "n < 0x10000" | "0x10000 \<le> n"
    by linarith
  then show "rune_len (encode_rune n) = length (encode_rune n)"
  proof cases
    case 1
    then show ?thesis
      by (simp add: encode_rune_def rune_len.simps lead_len_def byte_in_byte_chr)
  next
    case 2
    then have "n div 64 < 32" "2 \<le> n div 64" by auto
    with 2 show ?thesis
      by (simp add: encode_rune_def rune_len.simps lead_len_def byte_in_byte_chr second_ok_def byte_chr_eq)
  next
    case 3
    define q where "q = n div 64"
    have d: "n div 4096 = q div 64"
      by (simp add: q_def div_mult2_eq [symmetric])
    have q: "32 \<le> q" "q < 1024" "q < 864 \<or> 896 \<le> q"
      using 3 assms(2) by (auto simp: q_def is_surrogate_def)
    have "q = 64 * (q div 64) + q mod 64" "q mod 64 < 64"
      by simp_all
    with q have "q div 64 < 16" "q div 64 = 0 \<Longrightarrow> 32 \<le> q mod 64" "q div 64 = 13 \<Longrightarrow> q mod 64 < 32"
      by linarith+
    with 3 show ?thesis
      by (simp add: encode_rune_def rune_len.simps lead_len_def byte_in_byte_chr second_ok_def byte_chr_eq d
          flip: q_def) (auto simp: byte_in_byte_chr)
  next
    case 4
    define q where "q = n div 4096"
    have d: "n div 262144 = q div 64"
      by (simp add: q_def div_mult2_eq [symmetric])
    have q: "16 \<le> q" "q < 272"
      using 4 assms(1) by (auto simp: q_def)
    have "q = 64 * (q div 64) + q mod 64" "q mod 64 < 64"
      by simp_all
    with q have "q div 64 < 5" "q div 64 = 0 \<Longrightarrow> 16 \<le> q mod 64" "q div 64 = 4 \<Longrightarrow> q mod 64 < 16"
      by linarith+
    with 4 show ?thesis
      by (simp add: encode_rune_def rune_len.simps lead_len_def byte_in_byte_chr second_ok_def byte_chr_eq d
          flip: q_def) (auto simp: byte_in_byte_chr)
  qed
qed

lemma valid_replacement: "valid_utf8 replacement_char"
  by (rule valid_utf8_rune)
    (simp add: replacement_char_def rune_len.simps lead_len_def byte_in_def second_ok_def)

lemma hex_val_less: "hex_val c = Some n \<Longrightarrow> n < 16"
  by (auto simp: hex_val_def byte_in_def split: if_splits)

lemma getu4_less: "getu4 s = Some n \<Longrightarrow> n < 65536"
  by (auto simp: getu4_def split: list.splits option.splits dest!: hex_val_less)

lemma low_surrogate_range:
  assumes "low_surrogate hi s = Some n" and "is_surrogate hi"
  shows "0x10000 \<le> n" and "n < 0x110000"
  using assms by (auto simp: low_surrogate_def is_surrogate_def split: if_splits option.splits)

lemma valid_utf8_byte: "byte_in 0 0x7F c \<Longrightarrow> valid_utf8 [c]"
  by (rule valid_utf8_ascii) simp

lemma simple_escape_ascii: "simple_escape e = Some x \<Longrightarrow> byte_in 0 0x7F x"
  by (auto simp: simple_escape_def byte_in_def split: if_splits)

lemma put_valid: "put x r = Some (t, rest) \<Longrightarrow> valid_utf8 x \<Longrightarrow> (\<And>t'. r = Some (t', rest) \<Longrightarrow> valid_utf8 t')
    \<Longrightarrow> valid_utf8 t"
  by (cases r) (auto simp: put_def valid_utf8_append)

lemma valid_take_rune: "rune_len s \<noteq> 0 \<Longrightarrow> valid_utf8 (take (rune_len s) s)"
  using rune_len_take [of s "[]"] rune_len_le [of s] by (intro valid_utf8_rune) simp

text \<open>What \<open>json.Unmarshal\<close> stores in a string is valid UTF-8, whatever the bytes of the document.\<close>

lemma json_string_valid: "json_string s = Some (t, r) \<Longrightarrow> valid_utf8 t"
proof (induction s arbitrary: t rule: length_induct)
  case (1 s)
  then obtain c cs where s: "s = c # cs" by (cases s) auto
  have IH: "json_string u = Some (t', r) \<Longrightarrow> length u < length s \<Longrightarrow> valid_utf8 t'" for u t'
    using 1(1) by blast
  have len: "length (drop k cs) < length s" for k
    by (simp add: s)
  consider "c = CHR 0x22" | "c = CHR 0x5C" | "c \<noteq> CHR 0x22" "c \<noteq> CHR 0x5C" by blast
  then show ?case
  proof cases
    case 1
    with \<open>json_string s = Some (t, r)\<close> show ?thesis
      by (simp add: s json_string.simps)
  next
    case 2
    with \<open>json_string s = Some (t, r)\<close> obtain e es where cs: "cs = e # es"
      by (cases cs) (auto simp: s json_string.simps)
    have esc: "valid_utf8 t'" if "json_string (drop k es) = Some (t', r)" for k t'
      using that by (rule IH) (simp add: s cs)
    show ?thesis
    proof (cases "simple_escape e")
      case (Some x)
      with \<open>json_string s = Some (t, r)\<close> 2 have "put [x] (json_string es) = Some (t, r)"
        by (simp add: s cs json_string.simps)
      then show ?thesis
        using simple_escape_ascii [OF Some] esc [of 0] by (elim put_valid) (auto simp: valid_utf8_byte)
    next
      case None
      with \<open>json_string s = Some (t, r)\<close> 2 obtain n where n: "getu4 es = Some n"
        by (auto simp: s cs json_string.simps split: if_splits option.splits)
      then have "(is_surrogate n \<and> (\<exists>n2. low_surrogate n (drop 4 es) = Some n2
            \<and> put (encode_rune n2) (json_string (drop 10 es)) = Some (t, r)))
        \<or> put replacement_char (json_string (drop 4 es)) = Some (t, r)
        \<or> (\<not> is_surrogate n \<and> put (encode_rune n) (json_string (drop 4 es)) = Some (t, r))"
        using \<open>json_string s = Some (t, r)\<close> 2 None
        by (auto simp: s cs json_string.simps split: if_splits option.splits)
      moreover have "valid_utf8 (encode_rune n2)" if "is_surrogate n" "low_surrogate n (drop 4 es) = Some n2" for n2
        using low_surrogate_range [OF that(2,1)] by (intro encode_rune_valid) (auto simp: is_surrogate_def)
      moreover have "valid_utf8 (encode_rune n)" if "\<not> is_surrogate n"
        using that getu4_less [OF n] by (intro encode_rune_valid) auto
      ultimately show ?thesis
        using esc valid_replacement by (elim disjE conjE exE) (erule put_valid; blast)+
    qed
  next
    case 3
    let ?k = "rune_len (c # cs)"
    show ?thesis
    proof (cases "?k = 0")
      case True
      then have "put replacement_char (json_string cs) = Some (t, r)"
        using \<open>json_string s = Some (t, r)\<close> 3 by (auto simp: s json_string.simps split: if_splits)
      then show ?thesis
        using valid_replacement IH [of cs] by (elim put_valid) (auto simp: s)
    next
      case False
      then have "put (take ?k (c # cs)) (json_string (drop ?k (c # cs))) = Some (t, r)"
        using \<open>json_string s = Some (t, r)\<close> 3 by (auto simp: s json_string.simps split: if_splits)
      then show ?thesis
        using valid_take_rune [OF False] IH [of "drop ?k (c # cs)"] False by (elim put_valid) (auto simp: s)
    qed
  qed
qed

section \<open>Ends removed\<close>

lemma conts_ok_high: "conts_ok a bs \<Longrightarrow> b \<in> set bs \<Longrightarrow> \<not> byte_in 0 0x7F b"
  by (cases bs) (auto simp: second_ok_def byte_in_def list_all_iff split: if_splits)

lemma rune_len_suffix:
  assumes "rune_len (s @ u) \<noteq> 0" and "s \<noteq> []" and "list_all (byte_in 0 0x7F) u"
  shows "rune_len s = rune_len (s @ u)"
proof -
  obtain a bs where s: "s = a # bs" using assms by (cases s) auto
  let ?k = "lead_len a"
  have k: "?k \<le> Suc (length (bs @ u))" and c: "conts_ok a (take (?k - 1) (bs @ u))" and r: "rune_len (s @ u) = ?k"
    using assms(1) by (auto simp: s rune_len.simps split: if_splits)
  have "?k - 1 \<le> length bs"
  proof (rule ccontr)
    assume "\<not> ?thesis"
    moreover from this obtain b us where "u = b # us"
      using k by (cases u) auto
    ultimately have "b \<in> set (take (?k - 1) (bs @ u))" and "byte_in 0 0x7F b"
      using assms(3) by (auto simp: take_Cons')
    with conts_ok_high [OF c] show False by blast
  qed
  with c r show ?thesis
    by (auto simp: s rune_len.simps)
qed

lemma valid_utf8_drop_suffix: "valid_utf8 (s @ u) \<Longrightarrow> list_all (byte_in 0 0x7F) u \<Longrightarrow> valid_utf8 s"
proof (induction s rule: length_induct)
  case (1 s)
  show ?case
  proof (cases "s = []")
    case False
    have k: "rune_len (s @ u) \<noteq> 0" and v: "valid_utf8 (drop (rune_len (s @ u)) (s @ u))"
      using 1(2) False valid_utf8_step by auto
    note e = rune_len_suffix [OF k False 1(3)]
    have "valid_utf8 (drop (rune_len s) s @ u)"
      using v rune_len_le [of s] by (simp flip: e)
    then have "valid_utf8 (drop (rune_len s) s)"
      using 1(1,3) False k e by simp
    with False k e show ?thesis
      by (simp add: valid_utf8_step)
  qed simp
qed

end
