(* ===== verification/ConfigParse.thy ===== *)
theory ConfigParse imports ConfigProps Utf8 begin

text \<open>
  \<open>Parse\<close> and \<open>Load\<close> of \<open>internal/config/config.go\<close>: what a configuration they return satisfies, and
  that every such configuration is the reading of a document.
\<close>

section \<open>Valid configurations\<close>

definition valid_token :: "environment \<Rightarrow> config \<Rightarrow> bool" where
  "valid_token env c \<longleftrightarrow>
     (cfg_BearerTokenEnv c = [] \<and> cfg_BearerToken c = [])
     \<or> (validEnvName (cfg_BearerTokenEnv c) \<and> env (cfg_BearerTokenEnv c) = Some (cfg_BearerToken c)
         \<and> cfg_BearerToken c \<noteq> [] \<and> length (cfg_BearerToken c) \<le> maxTokenBytes
         \<and> list_all plain_byte (cfg_BearerToken c))"

definition valid_config :: "environment \<Rightarrow> ip_host \<Rightarrow> string \<Rightarrow> config \<Rightarrow> bool" where
  "valid_config env ip path c \<longleftrightarrow>
     (\<exists>sch au p q. endpoint_shape ip (cfg_Endpoint c) sch au p q)
     \<and> trim_space (cfg_Endpoint c) \<noteq> [] \<and> trim_space (cfg_Model c) \<noteq> []
     \<and> 0 < sint (cfg_GenerationReserve c) \<and> sint (cfg_GenerationReserve c) < sint (cfg_ContextBudget c)
     \<and> (cfg_SystemPrompt c = [] \<or> cfg_SystemPromptFile c = [])
     \<and> (cfg_SystemPromptFile c \<noteq> [] \<longrightarrow> trim_space (cfg_SystemPromptFile c) \<noteq> [])
     \<and> valid_token env c \<and> cfg_Path c = path"

lemma required_string: "parseRequiredString r name = Inr s \<Longrightarrow> trim_space s \<noteq> [] \<and> (\<exists>raw. r = Some raw)"
  by (auto simp: parseRequiredString_def split: option.splits sum.splits if_splits)

lemma positive_int_positive: "parsePositiveInt r name = Inr n \<Longrightarrow> 0 < sint n"
  by (cases r) (auto simp: positive_int_value, simp add: parsePositiveInt_def)

lemma token_ok: "validateBearerToken t = Inr () \<longleftrightarrow> length t \<le> maxTokenBytes \<and> list_all plain_byte t"
proof -
  have "list_ex (\<lambda>c. (of_char c :: nat) < 0x21 \<or> 0x7E < (of_char c :: nat)) t \<longleftrightarrow> \<not> list_all plain_byte t"
    by (induction t) (auto simp: plain_byte_def)
  then show ?thesis by (simp add: validateBearerToken_def)
qed

lemma validEnvName_Nil [simp]: "\<not> validEnvName []"
  by (simp add: validEnvName_def)

lemma resolve_ok:
  "resolveBearerToken env c = Inr c' \<longleftrightarrow>
     validEnvName (cfg_BearerTokenEnv c) \<and> (\<exists>t. env (cfg_BearerTokenEnv c) = Some t \<and> t \<noteq> []
        \<and> length t \<le> maxTokenBytes \<and> list_all plain_byte t \<and> c' = c\<lparr>cfg_BearerToken := t\<rparr>)"
proof (cases "env (cfg_BearerTokenEnv c)")
  case (Some t)
  then show ?thesis
    using token_ok [of t] by (cases "validateBearerToken t") (auto simp: resolveBearerToken_def Let_def split: if_splits)
qed (simp add: resolveBearerToken_def Let_def)

lemma resolve_token:
  assumes "validEnvName (cfg_BearerTokenEnv c)" and "env (cfg_BearerTokenEnv c) = Some t" and "t \<noteq> []"
    and "length t \<le> maxTokenBytes" and "list_all plain_byte t"
  shows "resolveBearerToken env c = Inr (c\<lparr>cfg_BearerToken := t\<rparr>)"
  using assms by (simp add: resolve_ok)

lemma map_sum_Inr: "map_sum f g r = Inr y \<longleftrightarrow> (\<exists>x. r = Inr x \<and> y = g x)"
  by (cases r) auto

lemma config_fields_valid:
  assumes "config_fields env ip path raw = Inr c"
  shows "valid_config env ip path c"
proof -
  show ?thesis
    using assms
    unfolding config_fields_def Let_def
    by (auto simp: bind_sum_Inr map_sum_Inr resolve_ok valid_config_def valid_token_def
        endpoint_accepted word_sle_eq
        dest!: required_string positive_int_positive split: if_splits option.splits)
qed

section \<open>Every valid configuration is read from a document\<close>

definition text_field :: "bool \<Rightarrow> string \<Rightarrow> string \<Rightarrow> string \<times> string \<times> json" where
  "text_field html k s = (k, json_quote html s, JStr s)"

definition int_field :: "string \<Rightarrow> int64 \<Rightarrow> string \<times> string \<times> json" where
  "int_field k n = (k, show_nat (nat (sint n)), JNum (show_nat (nat (sint n))))"

definition optional_text :: "bool \<Rightarrow> string \<Rightarrow> string \<Rightarrow> (string \<times> string \<times> json) list" where
  "optional_text html k s = (if s = [] then [] else [text_field html k s])"

definition config_json :: "bool \<Rightarrow> config \<Rightarrow> json" where
  "config_json html c = JObj
     ([text_field html ''endpoint'' (cfg_Endpoint c), text_field html ''model'' (cfg_Model c),
       int_field ''context_budget'' (cfg_ContextBudget c),
       int_field ''generation_reserve'' (cfg_GenerationReserve c)]
      @ optional_text html ''system_prompt'' (cfg_SystemPrompt c)
      @ optional_text html ''system_prompt_file'' (cfg_SystemPromptFile c)
      @ optional_text html ''bearer_token_env'' (cfg_BearerTokenEnv c))"

definition utf8_config :: "config \<Rightarrow> bool" where
  "utf8_config c \<longleftrightarrow> list_all valid_utf8
     [cfg_Endpoint c, cfg_Model c, cfg_SystemPrompt c, cfg_SystemPromptFile c, cfg_BearerTokenEnv c]"

lemma names_utf8:
  "valid_utf8 ''endpoint''" "valid_utf8 ''model''" "valid_utf8 ''context_budget''"
  "valid_utf8 ''generation_reserve''" "valid_utf8 ''system_prompt''" "valid_utf8 ''system_prompt_file''"
  "valid_utf8 ''bearer_token_env''"
  by (rule valid_utf8_ascii, simp add: byte_in_def)+

lemma plain_show_nat: "0 < n \<Longrightarrow> plain_number (show_nat n)"
  by (simp add: plain_number_def show_nat_digits show_nat_no_leading_zero)

lemma config_json_wf:
  assumes "utf8_config c" and "0 < sint (cfg_GenerationReserve c)" and "0 < sint (cfg_ContextBudget c)"
  shows "json_wf html max_nesting (config_json html c)"
  using assms
  by (auto simp: config_json_def text_field_def int_field_def optional_text_def utf8_config_def names_utf8
      plain_show_nat max_nesting_def)

lemma digits_no_overflow:
  assumes "list_all is_digit t" and "t \<noteq> []" and "dec_value t < 2 ^ 63"
  shows "\<not> float_overflow t"
proof -
  have n: "\<not> has_prefix t ''-''"
    using digits_plain(5) [OF assms(1,2)] .
  have t: "takeWhile is_digit t = t" "dropWhile is_digit t = []"
    using assms(1) by (simp_all add: takeWhile_eq_all_conv list_all_iff)
  have f: "float_overflow t = overflows_at (dec_value t) 0"
    by (simp add: float_overflow_def decimal_of_def n t has_prefix_def [of "[]"])
  have "(2::nat) ^ 63 < 2 ^ 1024 - 2 ^ 970"
    by simp
  with assms(3) have "dec_value t < 2 ^ 1024 - 2 ^ 970"
    by (rule less_trans)
  then show ?thesis
    by (simp only: f overflows_at_def order_refl if_True nat_0 power_0 mult_1_right not_le)
qed

lemma config_json_problem:
  assumes "0 < sint (cfg_GenerationReserve c)" and "0 < sint (cfg_ContextBudget c)"
  shows "json_problem (config_json html c) = None"
proof -
  have "\<not> float_overflow (show_nat (nat (sint n)))" for n :: int64
    by (rule digits_no_overflow) (use sint64_bounds [of n] in \<open>auto simp: show_nat_digits\<close>)
  then show ?thesis
    by (simp add: config_json_def text_field_def int_field_def optional_text_def)
qed

lemma set_field_names:
  "set_field ''endpoint'' raw fc = Some (fc\<lparr>raw_endpoint := Some raw\<rparr>)"
  "set_field ''model'' raw fc = Some (fc\<lparr>raw_model := Some raw\<rparr>)"
  "set_field ''context_budget'' raw fc = Some (fc\<lparr>raw_context_budget := Some raw\<rparr>)"
  "set_field ''generation_reserve'' raw fc = Some (fc\<lparr>raw_generation_reserve := Some raw\<rparr>)"
  "set_field ''system_prompt'' raw fc = Some (fc\<lparr>raw_system_prompt := Some raw\<rparr>)"
  "set_field ''system_prompt_file'' raw fc = Some (fc\<lparr>raw_system_prompt_file := Some raw\<rparr>)"
  "set_field ''bearer_token_env'' raw fc = Some (fc\<lparr>raw_bearer_token_env := Some raw\<rparr>)"
  by (simp_all add: set_field_def names_field_def has_prefix_def ascii_upper_def)

lemma quoted_ends: "json_quote html s \<noteq> []" "hd (json_quote html s) = CHR 0x22" "last (json_quote html s) = CHR 0x22"
  by (simp_all add: json_quote_def)

lemma trim_quoted: "trim_space (json_quote html s) = json_quote html s"
  by (rule trim_space_plain) (simp_all add: quoted_ends plain_byte_def)

lemma parseString_quoted:
  assumes "valid_utf8 s"
  shows "parseString (json_quote html s) name = Inr s"
proof -
  have "parse_json (json_quote html s) = Some (JStr s)"
    using parse_json_print [of html "JStr s"] assms by simp
  then show ?thesis
    by (simp add: parseString_def trim_quoted quoted_ends)
qed

lemma required_quoted:
  assumes "valid_utf8 s" and "trim_space s \<noteq> []"
  shows "parseRequiredString (Some (json_quote html s)) name = Inr s"
  using assms by (simp add: parseRequiredString_def parseString_quoted)

lemma positive_printed:
  assumes "0 < sint n"
  shows "parsePositiveInt (Some (show_nat (nat (sint n)))) name = Inr n"
  using assms by (simp add: positive_int_value digits_plain show_nat_digits)

declare trim_space_Nil [simp]

lemma validEnvName_bytes:
  assumes "validEnvName s"
  shows "s \<noteq> [] \<and> list_all (\<lambda>c. is_alpha c \<or> c = CHR ''_'' \<or> is_digit c) s"
proof -
  have "is_alpha (s ! i) \<or> s ! i = CHR ''_'' \<or> is_digit (s ! i)" if "i < length s" for i
    using assms that nth_mem [of i "zip [0..<length s] s"]
    by (fastforce simp: validEnvName_def list_all_iff)
  with assms show ?thesis
    by (auto simp: validEnvName_def list_all_length)
qed

lemma validEnvName_plain:
  assumes "validEnvName s"
  shows "valid_utf8 s" and "trim_space s \<noteq> []"
proof -
  have byte: "plain_byte c \<and> byte_in 0 0x7F c" if "is_alpha c \<or> c = CHR ''_'' \<or> is_digit c" for c
    using that by (auto simp: plain_byte_def byte_in_def is_alpha_def is_digit_def)
  note b = validEnvName_bytes [OF assms]
  then have "list_all plain_byte s" "list_all (byte_in 0 0x7F) s"
    using byte by (auto simp: list_all_iff)
  then show "valid_utf8 s" and "trim_space s \<noteq> []"
    using b trim_space_plain [of s] by (auto simp: valid_utf8_ascii list_all_iff)
qed

definition raw_text :: "bool \<Rightarrow> string \<Rightarrow> string option" where
  "raw_text html s = (if s = [] then None else Some (json_quote html s))"

definition raw_config :: "bool \<Rightarrow> config \<Rightarrow> file_config" where
  "raw_config html c =
     \<lparr>raw_endpoint = Some (json_quote html (cfg_Endpoint c)), raw_model = Some (json_quote html (cfg_Model c)),
      raw_context_budget = Some (show_nat (nat (sint (cfg_ContextBudget c)))),
      raw_generation_reserve = Some (show_nat (nat (sint (cfg_GenerationReserve c)))),
      raw_system_prompt = raw_text html (cfg_SystemPrompt c),
      raw_system_prompt_file = raw_text html (cfg_SystemPromptFile c),
      raw_bearer_token_env = raw_text html (cfg_BearerTokenEnv c)\<rparr>"

lemma decode_config_json:
  assumes "json_wf html max_nesting (config_json html c)"
  shows "decode_config (json_print html (config_json html c)) = Inr (raw_config html c, [])"
  using json_value_print [OF assms]
  by (simp add: decode_config_def config_json_def text_field_def int_field_def optional_text_def set_field_names
      zero_file_config_def raw_config_def raw_text_def)

lemma config_fields_raw:
  assumes "valid_config env ip path c" and "utf8_config c"
  shows "config_fields env ip path (raw_config html c) = Inr c"
proof -
  have pos: "0 < sint (cfg_GenerationReserve c)" "0 < sint (cfg_ContextBudget c)"
    and le: "\<not> cfg_ContextBudget c <=s cfg_GenerationReserve c"
    and ep: "validateEndpoint ip (cfg_Endpoint c) = Inr ()"
    using assms by (auto simp: valid_config_def word_sle_eq endpoint_accepted)
  show ?thesis
    using assms pos le ep
    by (auto simp: config_fields_def raw_config_def raw_text_def bind_sum_def required_quoted positive_printed
      parseOptionalString_def parseString_quoted valid_config_def utf8_config_def valid_token_def resolve_token
      validEnvName_plain)
qed

lemma parse_printed:
  assumes "valid_config env ip path c" and "utf8_config c"
  shows "Parse env ip path (json_print html (config_json html c)) = Inr c"
proof -
  have pos: "0 < sint (cfg_GenerationReserve c)" "0 < sint (cfg_ContextBudget c)"
    using assms(1) by (auto simp: valid_config_def)
  note wf = config_json_wf [OF assms(2) pos, of html]
  let ?t = "json_print html (config_json html c)"
  have ends: "?t \<noteq> []" "hd ?t = CHR ''{''" "last ?t = CHR ''}''"
    by (simp_all add: config_json_def)
  then have "trim_space ?t = ?t"
    by (intro trim_space_plain) (simp_all add: plain_byte_def)
  moreover have "trim_prefix ?t bom = ?t"
    using ends by (cases ?t) (auto simp: trim_prefix_def has_prefix_def bom_def)
  moreover have "rejectDuplicateKeys ?t = Inr ()"
    using rejectDuplicateKeys_parsed [OF json_value_print [OF wf]] config_json_problem [OF pos] by simp
  ultimately show ?thesis
    using ends decode_config_json [OF wf] config_fields_raw [OF assms]
    by (simp add: Parse_def bind_sum_def rejectTrailing_def)
qed

section \<open>Text is valid UTF-8\<close>

lemma parse_json_string: "parse_json s = Some (JStr t) \<Longrightarrow> valid_utf8 t"
  by (auto simp: parse_json_def dest!: json_string_valid split: option.splits if_splits list.splits)

lemma parseString_valid: "parseString raw name = Inr s \<Longrightarrow> valid_utf8 s"
  by (auto simp: parseString_def Let_def parse_json_string split: if_splits option.splits json.splits)

lemma required_valid: "parseRequiredString r name = Inr s \<Longrightarrow> valid_utf8 s"
  by (auto simp: parseRequiredString_def parseString_valid split: option.splits sum.splits if_splits)

lemma config_fields_utf8:
  assumes "config_fields env ip path raw = Inr c"
  shows "utf8_config c"
  using assms
  unfolding config_fields_def Let_def
  by (auto simp: bind_sum_Inr map_sum_Inr resolve_ok utf8_config_def parseOptionalString_def
      dest!: required_valid parseString_valid split: if_splits option.splits)

lemma parse_valid:
  assumes "Parse env ip path data = Inr c"
  shows "valid_config env ip path c \<and> utf8_config c"
  using assms config_fields_valid config_fields_utf8
  by (auto simp: Parse_def bind_sum_Inr Let_def split: if_splits)

lemma newline_ascii: "list_all (byte_in 0 0x7F) [CHR 0x0D, CHR 0x0A]" "list_all (byte_in 0 0x7F) [CHR 0x0A]"
  by (simp_all add: byte_in_def)

lemma valid_utf8_cut_suffix:
  assumes "valid_utf8 s" and "has_suffix s u" and "list_all (byte_in 0 0x7F) u"
  shows "valid_utf8 (take (length s - length u) s)"
proof (rule valid_utf8_drop_suffix [OF _ assms(3)])
  have "take (length s - length u) s @ u = s"
    using assms(2) append_take_drop_id [of "length s - length u" s] by (simp add: has_suffix_def)
  with assms(1) show "valid_utf8 (take (length s - length u) s @ u)"
    by simp
qed

lemma valid_utf8_strip_newline: "valid_utf8 s \<Longrightarrow> valid_utf8 (strip_newline s)"
  using valid_utf8_cut_suffix [OF _ _ newline_ascii(1), of s] valid_utf8_cut_suffix [OF _ _ newline_ascii(2), of s]
  by (simp add: strip_newline_def numeral_2_eq_2)

lemma valid_utf8_trim_bom: "valid_utf8 s \<Longrightarrow> valid_utf8 (trim_prefix s bom)"
proof -
  have "valid_utf8 bom"
    by (rule valid_utf8_rune) (simp add: bom_def rune_len.simps lead_len_def byte_in_def second_ok_def)
  then show "valid_utf8 s \<Longrightarrow> ?thesis"
    by (auto simp: trim_prefix_def has_prefix_iff prefix_def valid_utf8_append)
qed

lemma strip_newline_length: "length (strip_newline s) \<le> length s"
  by (simp add: strip_newline_def)

lemma trim_prefix_length: "length (trim_prefix s p) \<le> length s"
  by (simp add: trim_prefix_def)

lemma read_file_Bytes:
  "read_file br = Bytes data \<longleftrightarrow> rd_rest br = data \<and> rd_stop br = EOF \<and> length data \<le> MaxFileBytes"
  by (auto simp: read_file_def read_all_limit split: prod.splits option.splits if_splits)

lemma prompt_file_valid:
  assumes "readSystemPromptFile fs cp pp = Inr t"
  shows "t \<noteq> [] \<and> valid_utf8 t \<and> length t \<le> MaxFileBytes"
proof -
  obtain f :: open_file and data resolved where f: "read_file (of_reader f) = Bytes data" and t: "prompt_text resolved data = Inr t"
    using assms by (auto simp: readSystemPromptFile_def Let_def
        split: sum.splits fs_error.splits if_splits bounded.splits)
  have "length t \<le> length data"
    using t strip_newline_length [of "trim_prefix data bom"] trim_prefix_length [of data bom]
    by (auto simp: prompt_text_def Let_def split: if_splits)
  with f t show ?thesis
    by (auto simp: read_file_Bytes prompt_text_def Let_def valid_utf8_strip_newline valid_utf8_trim_bom
        split: if_splits)
qed

lemma load_valid:
  assumes "Load env ip fs path0 = Inr c"
  shows "\<exists>f c0. fs_open fs (cfg_Path c) = Inr f
     \<and> Parse env ip (cfg_Path c) (rd_rest (of_reader f)) = Inr c0 \<and> length (rd_rest (of_reader f)) \<le> MaxFileBytes
     \<and> (if cfg_SystemPromptFile c0 = [] then c = c0
        else readSystemPromptFile fs (cfg_Path c) (cfg_SystemPromptFile c0) = Inr (cfg_SystemPrompt c)
           \<and> c = c0\<lparr>cfg_SystemPrompt := cfg_SystemPrompt c\<rparr>)"
proof -
  let ?path = "if path0 = [] then DefaultPath else path0"
  obtain f data c0 where f: "fs_open fs ?path = Inr f" and d: "read_file (of_reader f) = Bytes data"
    and p: "Parse env ip ?path data = Inr c0"
    and r: "(if cfg_SystemPromptFile c0 = [] then Inr c0
             else bind_sum (readSystemPromptFile fs ?path (cfg_SystemPromptFile c0))
                    (\<lambda>text. Inr (c0\<lparr>cfg_SystemPrompt := text\<rparr>))) = Inr c"
    using assms unfolding Load_def Let_def
    by (auto simp: bind_sum_Inr split: sum.splits fs_error.splits option.splits if_splits bounded.splits)
  have "cfg_Path c0 = ?path"
    using parse_valid [OF p] by (simp add: valid_config_def)
  with f d p r show ?thesis
    by (auto simp: bind_sum_Inr read_file_Bytes split: if_splits)
qed

section \<open>Concrete configurations\<close>

definition no_ip_host :: ip_host where
  "no_ip_host h = None"

definition demo_env :: environment where
  "demo_env name = (if name = ''TOKEN'' then Some ''s3cret'' else None)"

definition demo_config :: config where
  "demo_config = \<lparr>cfg_Endpoint = ''https://h/v1'', cfg_Model = ''m'', cfg_ContextBudget = 8192,
     cfg_GenerationReserve = 1024, cfg_SystemPrompt = ''be brief'', cfg_SystemPromptFile = [],
     cfg_Path = ''c.json'', cfg_BearerTokenEnv = ''TOKEN'', cfg_BearerToken = ''s3cret''\<rparr>"

lemma demo_utf8: "utf8_config demo_config"
  unfolding utf8_config_def demo_config_def
  by (simp add: valid_utf8_ascii byte_in_def)

lemma demo_endpoint: "endpoint_shape no_ip_host ''https://h/v1'' ''https'' ''h'' ''/v1'' []"
  by (simp add: endpoint_shape_def has_prefix_def ascii_lower_def is_alpha_def byte_in_def scheme_char_def
      is_ctl_def parse_host_def cut_last_def host_char_def)

lemma demo_valid: "valid_config demo_env no_ip_host ''c.json'' demo_config"
proof -
  have "validEnvName ''TOKEN''" by code_simp
  then show ?thesis
    using demo_endpoint
    by (auto simp: valid_config_def demo_config_def valid_token_def demo_env_def plain_byte_def
        maxTokenBytes_def trim_space_plain)
qed

definition demo_text :: string where
  "demo_text = json_print False (config_json False demo_config)"

definition demo_files :: file_system where
  "demo_files = \<lparr>fs_stat = (\<lambda>p. Inl NotExist),
     fs_open = (\<lambda>p. if p = ''c.json'' then
        Inr \<lparr>of_stat = Some \<lparr>fi_dir = False, fi_regular = True, fi_size = int (length demo_text)\<rparr>,
             of_reader = new_reader demo_text EOF\<rparr>
        else Inl NotExist)\<rparr>"

definition plain_text :: "char \<Rightarrow> bool" where
  "plain_text c \<longleftrightarrow> byte_in 0x20 0x7F c \<and> c \<notin> {CHR 0x22, CHR 0x5C, CHR ''<'', CHR ''>'', CHR ''&''}"

lemma json_quote_plain:
  assumes "list_all plain_text s"
  shows "json_quote html s = [CHR 0x22] @ s @ [CHR 0x22]"
proof -
  have "list_all plain_text s \<Longrightarrow> quote_body html s = s"
  proof (induction s)
    case (Cons c cs)
    then have b: "0x20 \<le> (of_char c :: nat)" "(of_char c :: nat) \<le> 0x7F"
      and n: "c \<notin> {CHR 0x22, CHR 0x5C, CHR ''<'', CHR ''>'', CHR ''&''}"
      by (simp_all add: plain_text_def byte_in_def)
    have "c \<notin> {CHR 0x08, CHR 0x0C, CHR 0x0A, CHR 0x0D, CHR 0x09}"
      using b by auto
    with b n have "byte_in 0 0x7F c" "escape_ascii html c = [c]"
      by (simp_all add: escape_ascii_def byte_in_def)
    with Cons show ?case by (simp add: quote_body.simps)
  qed simp
  with assms show ?thesis by (simp add: json_quote_def)
qed

lemma demo_plain:
  "list_all plain_text ''endpoint''" "list_all plain_text ''model''" "list_all plain_text ''context_budget''"
  "list_all plain_text ''generation_reserve''" "list_all plain_text ''system_prompt''"
  "list_all plain_text ''bearer_token_env''" "list_all plain_text ''https://h/v1''" "list_all plain_text ''m''"
  "list_all plain_text ''be brief''" "list_all plain_text ''TOKEN''"
  by (simp_all add: plain_text_def byte_in_def)

lemma demo_text_length: "length demo_text < 2000"
  by (simp add: demo_text_def config_json_def demo_config_def text_field_def int_field_def optional_text_def
      demo_plain [THEN json_quote_plain] show_nat.simps)

lemma demo_load: "Load demo_env no_ip_host demo_files ''c.json'' = Inr demo_config"
proof -
  have "read_file (new_reader demo_text EOF) = Bytes demo_text"
    using demo_text_length by (simp add: read_file_Bytes new_reader_def MaxFileBytes_def)
  moreover have "Parse demo_env no_ip_host ''c.json'' demo_text = Inr demo_config"
    using parse_printed [OF demo_valid demo_utf8] by (simp add: demo_text_def)
  ultimately show ?thesis
    using demo_text_length
    by (simp add: Load_def demo_files_def bind_sum_def MaxFileBytes_def) (simp add: demo_config_def)
qed

text \<open>A document that names the model twice, the second time in capitals.\<close>

definition shadow_json :: "string \<Rightarrow> json" where
  "shadow_json m = (case config_json False demo_config of
     JObj ms \<Rightarrow> JObj (ms @ [text_field False ''MODEL'' m]) | v \<Rightarrow> v)"

lemma upper_names: "\<not> names_field ''MODEL'' ''endpoint''" "names_field ''MODEL'' ''model''"
  by code_simp+

lemma shadow_parse:
  assumes "valid_utf8 m" and "trim_space m \<noteq> []"
  shows "Parse demo_env no_ip_host ''c.json'' (json_print False (shadow_json m)) = Inr (demo_config\<lparr>cfg_Model := m\<rparr>)"
proof -
  define c where "c = demo_config\<lparr>cfg_Model := m\<rparr>"
  have v: "valid_config demo_env no_ip_host ''c.json'' c" and u: "utf8_config c"
    using demo_valid demo_utf8 assms by (auto simp: c_def valid_config_def valid_token_def utf8_config_def demo_config_def)
  have pos: "0 < sint (cfg_GenerationReserve demo_config)" "0 < sint (cfg_ContextBudget demo_config)"
    using demo_valid by (auto simp: valid_config_def)
  obtain ms where ms: "config_json False demo_config = JObj ms" and mk: "''MODEL'' \<notin> fst ` set ms"
    by (auto simp: config_json_def text_field_def int_field_def optional_text_def)
  have wf: "json_wf False max_nesting (shadow_json m)"
    using config_json_wf [OF demo_utf8 pos, of False] assms
    by (auto simp: shadow_json_def ms text_field_def max_nesting_def valid_utf8_ascii byte_in_def)
  have ok: "json_problem (shadow_json m) = None"
    using config_json_problem [OF pos, of False]
    by (simp add: shadow_json_def config_json_def text_field_def int_field_def optional_text_def demo_config_def
        split: if_splits)
  let ?t = "json_print False (shadow_json m)"
  have ends: "?t \<noteq> []" "hd ?t = CHR ''{''" "last ?t = CHR ''}''"
    by (simp_all add: shadow_json_def ms)
  then have "trim_space ?t = ?t"
    by (intro trim_space_plain) (simp_all add: plain_byte_def)
  moreover have "trim_prefix ?t bom = ?t"
    using ends by (cases ?t) (auto simp: trim_prefix_def has_prefix_def bom_def)
  moreover have "rejectDuplicateKeys ?t = Inr ()"
    using rejectDuplicateKeys_parsed [OF json_value_print [OF wf]] ok by simp
  moreover have "set_field ''MODEL'' raw fc = Some (fc\<lparr>raw_model := Some raw\<rparr>)" for raw fc
    by (simp add: set_field_def upper_names)
  then have "decode_config ?t = Inr (raw_config False c, [])"
    using json_value_print [OF wf]
    by (simp add: decode_config_def shadow_json_def config_json_def text_field_def int_field_def optional_text_def
        set_field_names zero_file_config_def raw_config_def raw_text_def c_def demo_config_def)
  ultimately show ?thesis
    using ends config_fields_raw [OF v u]
    by (simp add: Parse_def bind_sum_def rejectTrailing_def c_def)
qed

section \<open>Properties\<close>

text \<open>\<open>parsePositiveInt\<close> accepts exactly the shortest decimal forms of 1 to \<open>2 ^ 63 - 1\<close>, with
  white space around them, and returns their value: no sign, fraction, exponent, leading zero or
  overflow gets through.\<close>

theorem parsePositiveInt_exact:
  "parsePositiveInt (Some raw) name = Inr n \<longleftrightarrow> 0 < sint n \<and> trim_space raw = show_nat (nat (sint n))"
  by (rule positive_int_value)

text \<open>C23: \<open>validateEndpoint\<close> accepts exactly the URLs \<open>http(s)://authority/path\<close> without control
  characters, user information or fragment, whose authority is a nonempty host that the URL library
  can read; the only query it lets through is a bare question mark at the very end.\<close>

theorem validateEndpoint_exact:
  "validateEndpoint ip e = Inr () \<longleftrightarrow> (\<exists>sch au path q. endpoint_shape ip e sch au path q)"
  by (rule endpoint_accepted)

text \<open>C24: whatever \<open>Parse\<close> accepts is a valid configuration: an accepted endpoint, a model that is not
  blank, budgets with \<open>0 < generation_reserve < context_budget\<close>, at most one prompt source, and either
  no token or the nonempty printable value of the named variable; and all its text is valid UTF-8.\<close>

theorem Parse_sound:
  assumes "Parse env ip path data = Inr c"
  shows "valid_config env ip path c \<and> utf8_config c"
  using assms by (rule parse_valid)

theorem Parse_sound_witness:
  "valid_config demo_env no_ip_host ''c.json'' demo_config \<and> utf8_config demo_config"
  using Parse_sound [OF parse_printed [OF demo_valid demo_utf8]] .

text \<open>C11: every valid configuration can be written: parsing the JSON document with its fields gives
  back the very configuration, token resolved, through the duplicate-key scan, the decoder, the
  trailing-text test and every field check.\<close>

theorem Parse_complete:
  assumes "valid_config env ip path c" and "utf8_config c"
  shows "Parse env ip path (json_print html (config_json html c)) = Inr c"
  using assms by (rule parse_printed)

theorem Parse_complete_witness:
  "Parse demo_env no_ip_host ''c.json'' (json_print True (config_json True demo_config)) = Inr demo_config"
  using Parse_complete [OF demo_valid demo_utf8] .

text \<open>C25: a configuration \<open>Load\<close> returns comes from a file of at most 1 MiB that parses, and its system
  prompt is valid UTF-8; a prompt file's text is nonempty and at most 1 MiB, and replaces nothing but
  the prompt.\<close>

theorem Load_sound:
  assumes "Load env ip fs path0 = Inr c"
  shows "\<exists>f c0. fs_open fs (cfg_Path c) = Inr f \<and> length (rd_rest (of_reader f)) \<le> MaxFileBytes
     \<and> Parse env ip (cfg_Path c) (rd_rest (of_reader f)) = Inr c0
     \<and> c0\<lparr>cfg_SystemPrompt := cfg_SystemPrompt c\<rparr> = c \<and> utf8_config c
     \<and> (cfg_SystemPromptFile c = [] \<longrightarrow> c = c0)
     \<and> (cfg_SystemPromptFile c \<noteq> [] \<longrightarrow> cfg_SystemPrompt c \<noteq> [] \<and> length (cfg_SystemPrompt c) \<le> MaxFileBytes)"
proof -
  obtain f c0 where f: "fs_open fs (cfg_Path c) = Inr f" and p: "Parse env ip (cfg_Path c) (rd_rest (of_reader f)) = Inr c0"
    and l: "length (rd_rest (of_reader f)) \<le> MaxFileBytes"
    and c: "if cfg_SystemPromptFile c0 = [] then c = c0
        else readSystemPromptFile fs (cfg_Path c) (cfg_SystemPromptFile c0) = Inr (cfg_SystemPrompt c)
           \<and> c = c0\<lparr>cfg_SystemPrompt := cfg_SystemPrompt c\<rparr>"
    using load_valid [OF assms] by blast
  have u: "utf8_config c0" using parse_valid [OF p] by simp
  show ?thesis
  proof (cases "cfg_SystemPromptFile c0 = []")
    case True
    with f p l c u show ?thesis by auto
  next
    case False
    with c have t: "c = c0\<lparr>cfg_SystemPrompt := cfg_SystemPrompt c\<rparr>"
      and r: "readSystemPromptFile fs (cfg_Path c) (cfg_SystemPromptFile c0) = Inr (cfg_SystemPrompt c)"
      by auto
    have same: "cfg_SystemPromptFile c = cfg_SystemPromptFile c0" "cfg_Endpoint c = cfg_Endpoint c0"
      "cfg_Model c = cfg_Model c0" "cfg_BearerTokenEnv c = cfg_BearerTokenEnv c0"
      by (subst t, simp)+
    show ?thesis
      using False f p l u prompt_file_valid [OF r] same t by (auto simp: utf8_config_def)
  qed
qed

theorem Load_sound_witness:
  "\<exists>f c0. fs_open demo_files (cfg_Path demo_config) = Inr f \<and> length (rd_rest (of_reader f)) \<le> MaxFileBytes
     \<and> Parse demo_env no_ip_host (cfg_Path demo_config) (rd_rest (of_reader f)) = Inr c0
     \<and> c0\<lparr>cfg_SystemPrompt := cfg_SystemPrompt demo_config\<rparr> = demo_config \<and> utf8_config demo_config"
  using Load_sound [OF demo_load] by blast

text \<open>Fields are matched without regard to case, so the duplicate-key scan does not see a second
  \<open>MODEL\<close>: a document with \<open>model\<close> and \<open>MODEL\<close> is accepted, and the later one wins.\<close>

theorem caseless_duplicate_accepted:
  "Parse demo_env no_ip_host ''c.json'' (json_print False (shadow_json ''other''))
     = Inr (demo_config\<lparr>cfg_Model := ''other''\<rparr>)"
  by (rule shadow_parse) (simp_all add: valid_utf8_ascii byte_in_def trim_space_plain plain_byte_def)

text \<open>An empty query is let through: an endpoint that ends in a bare question mark is accepted.\<close>

theorem bare_query_accepted: "validateEndpoint no_ip_host ''https://h/v1?'' = Inr ()"
proof -
  have "endpoint_shape no_ip_host ''https://h/v1?'' ''https'' ''h'' ''/v1'' ''?''"
    by (simp add: endpoint_shape_def has_prefix_def ascii_lower_def is_alpha_def byte_in_def scheme_char_def
        is_ctl_def parse_host_def cut_last_def host_char_def)
  then show ?thesis
    by (auto simp: endpoint_accepted)
qed

end
