(* ===== verification/Client.thy ===== *)
theory Client imports ConfigParse Chat Redact Decode begin

text \<open>
  \<open>internal/client/client.go\<close>: building the request, what the outcome of the exchange is turned into,
  the bounds on what is read, and the redaction of diagnostics.

  The network is a function \<open>net\<close> of the request: it fails, is redirected, or answers with a status, a
  content type and a body reader, and says whether the request was written.  Printing with \<open>%q\<close> uses
  the library's table of printable runes, the parameter \<open>pr\<close>.
\<close>

section \<open>Options\<close>

text \<open>Durations are nanoseconds.\<close>

record options =
  op_DialTimeout :: int
  op_TLSHandshakeTimeout :: int
  op_ResponseHeaderTimeout :: int
  op_IdleReadTimeout :: int
  op_MaxEventBytes :: int
  op_MaxErrorBodyBytes :: int
  op_MaxStreamBytes :: int

definition zero_options :: options where
  "zero_options = \<lparr>op_DialTimeout = 0, op_TLSHandshakeTimeout = 0, op_ResponseHeaderTimeout = 0,
     op_IdleReadTimeout = 0, op_MaxEventBytes = 0, op_MaxErrorBodyBytes = 0, op_MaxStreamBytes = 0\<rparr>"

definition second :: int where "second = 1000000000"

definition default_options :: options where
  "default_options = \<lparr>op_DialTimeout = 10 * second, op_TLSHandshakeTimeout = 10 * second,
     op_ResponseHeaderTimeout = 15 * second, op_IdleReadTimeout = 60 * second,
     op_MaxEventBytes = 1048576, op_MaxErrorBodyBytes = 8192, op_MaxStreamBytes = 8388608\<rparr>"

definition or_default :: "int \<Rightarrow> int \<Rightarrow> int" where
  "or_default x d = (if x = 0 then d else x)"

definition withDefaults :: "options \<Rightarrow> options" where
  "withDefaults o1 =
     \<lparr>op_DialTimeout = or_default (op_DialTimeout o1) (op_DialTimeout default_options),
      op_TLSHandshakeTimeout = or_default (op_TLSHandshakeTimeout o1) (op_TLSHandshakeTimeout default_options),
      op_ResponseHeaderTimeout = or_default (op_ResponseHeaderTimeout o1) (op_ResponseHeaderTimeout default_options),
      op_IdleReadTimeout = or_default (op_IdleReadTimeout o1) (op_IdleReadTimeout default_options),
      op_MaxEventBytes = or_default (op_MaxEventBytes o1) (op_MaxEventBytes default_options),
      op_MaxErrorBodyBytes = or_default (op_MaxErrorBodyBytes o1) (op_MaxErrorBodyBytes default_options),
      op_MaxStreamBytes = or_default (op_MaxStreamBytes o1) (op_MaxStreamBytes default_options)\<rparr>"

record client =
  cl_cfg :: config
  cl_opt :: options

definition New_client :: "config \<Rightarrow> options \<Rightarrow> client" where
  "New_client cfg opt = \<lparr>cl_cfg = cfg, cl_opt = withDefaults opt\<rparr>"

definition authenticated :: "client \<Rightarrow> bool" where
  "authenticated cl \<longleftrightarrow> cfg_BearerToken (cl_cfg cl) \<noteq> []"

section \<open>Errors and their texts\<close>

datatype client_error =
    BuildRefused                       \<comment> \<open>cannot build request to the configured endpoint\<close>
  | BuildFailed string string          \<comment> \<open>the endpoint, the library's error\<close>
  | RedirectRefused
  | RedirectTo string
  | ContactTimeout string
  | ContactFailed string "string option"   \<comment> \<open>the endpoint, the underlying error unless authenticated\<close>
  | HttpStatus int "string option"         \<comment> \<open>the status, the body's snippet unless authenticated\<close>
  | NotEventStream "(string \<times> string) option"   \<comment> \<open>the content type and the snippet unless authenticated\<close>
  | StreamFailed stream_error
  | ErrorText string                   \<comment> \<open>the redacted text of another error\<close>

definition omittedBodyHint :: string where
  "omittedBodyHint = ''server response omitted; fix the endpoint or model configuration''"

definition redirect_text :: string where
  "redirect_text = ''redirect refused; set endpoint to the final chat-completions URL''"

type_synonym printable = "nat \<Rightarrow> bool"

definition snippetHint :: "printable \<Rightarrow> string \<Rightarrow> string" where
  "snippetHint pr s = ''server said '' @ go_quote pr s @ ''; fix the endpoint or model configuration''"

definition hint_or_omitted :: "printable \<Rightarrow> string option \<Rightarrow> string" where
  "hint_or_omitted pr s = (case s of None \<Rightarrow> omittedBodyHint | Some t \<Rightarrow> snippetHint pr t)"

definition ended_early_text :: string where
  "ended_early_text = ''stream ended before [DONE]; the endpoint closed the connection early''"

definition idle_text :: string where
  "idle_text = ''idle timeout waiting for stream data; the connection was closed''"

fun sse_error_text :: "sse_error \<Rightarrow> string" where
  "sse_error_text (LimitReached n) = ''SSE event exceeded the '' @ show_int n @ ''-byte local limit''"
| "sse_error_text EventTooLarge = ''SSE event exceeded the local size limit''"
| "sse_error_text SseEOF = ''EOF''"
| "sse_error_text EndedEarly = ended_early_text"
| "sse_error_text IdleTimeout = idle_text"
| "sse_error_text (ReadFailed m) = m"

fun ctx_error_text :: "ctx_error \<Rightarrow> string" where
  "ctx_error_text ContextCanceled = ''context canceled''"
| "ctx_error_text DeadlineExceeded = ''context deadline exceeded''"

fun stream_error_text :: "printable \<Rightarrow> stream_error \<Rightarrow> string" where
  "stream_error_text pr (CtxErr e) = ctx_error_text e"
| "stream_error_text pr StreamIdle = idle_text"
| "stream_error_text pr (StreamLimitErr n) =
     ''stream exceeded the '' @ show_int n @ ''-byte local read limit; the turn was discarded''"
| "stream_error_text pr StreamEndedEarly = ended_early_text"
| "stream_error_text pr (SseFailed e) = sse_error_text e"
| "stream_error_text pr MalformedJson =
     ''malformed stream JSON; the endpoint sent an event RadiChat cannot parse''"
| "stream_error_text pr (MalformedErrorPayload s) =
     ''malformed stream error payload; expected a JSON object or null''
     @ (case s of None \<Rightarrow> ''; server response omitted'' | Some t \<Rightarrow> '', '' @ snippetHint pr t)"
| "stream_error_text pr (ErrorObject s) = ''endpoint error object in stream; '' @ hint_or_omitted pr s"
| "stream_error_text pr (ManyChoices n) =
     ''stream included '' @ show_nat n @ '' choices; RadiChat supports exactly one choice''"
| "stream_error_text pr ToolCallsRequested = ''endpoint requested tool calls, which Phase 1 does not support''"
| "stream_error_text pr FunctionCallRequested =
     ''endpoint requested a function call, which Phase 1 does not support''"
| "stream_error_text pr ContentNotString =
     ''stream delta content was not a JSON string; the endpoint is not using the supported protocol subset''"
| "stream_error_text pr (OutputBound n) =
     ''assistant output exceeded the local '' @ show_int n
     @ ''-byte bound derived from context_budget; the turn was discarded''"
| "stream_error_text pr (CallbackErr m) = m"
| "stream_error_text pr NoChoices =
     ''stream completed without any choices; check that the model name is valid''"
| "stream_error_text pr (FinishedWith f) = ''endpoint finished with '' @ f @ '', which Phase 1 does not support''"
| "stream_error_text pr ContentFiltered = ''endpoint refused the completion (content_filter)''"
| "stream_error_text pr (UnsupportedFinish f) = ''endpoint finished with unsupported reason '' @ go_quote pr f"

definition running_hint :: string where
  "running_hint = ''check that the server is running and ''"

fun error_text :: "printable \<Rightarrow> client_error \<Rightarrow> string" where
  "error_text pr BuildRefused = ''cannot build request to the configured endpoint''"
| "error_text pr (BuildFailed ep m) = ''cannot build request to '' @ ep @ '': '' @ m"
| "error_text pr RedirectRefused = redirect_text"
| "error_text pr (RedirectTo loc) =
     ''redirect to '' @ loc @ '' refused; set endpoint to the final chat-completions URL''"
| "error_text pr (ContactTimeout ep) =
     ''timed out contacting '' @ ep @ ''; '' @ running_hint @ ''responding''"
| "error_text pr (ContactFailed ep m) =
     ''cannot contact '' @ ep @ (case m of None \<Rightarrow> [] | Some t \<Rightarrow> '': '' @ t) @ ''; ''
     @ running_hint @ ''the endpoint URL is correct''"
| "error_text pr (HttpStatus n s) = ''endpoint returned HTTP '' @ show_int n @ ''; '' @ hint_or_omitted pr s"
| "error_text pr (NotEventStream None) = ''endpoint Content-Type is not text/event-stream; '' @ omittedBodyHint"
| "error_text pr (NotEventStream (Some (ct, s))) =
     ''endpoint Content-Type '' @ go_quote pr ct @ '' is not text/event-stream; '' @ snippetHint pr s"
| "error_text pr (StreamFailed e) = stream_error_text pr e"
| "error_text pr (ErrorText m) = m"

section \<open>Redaction of diagnostics\<close>

definition redactString :: "client \<Rightarrow> string \<Rightarrow> string" where
  "redactString cl s =
     (let token = cfg_BearerToken (cl_cfg cl) in
      if token = [] \<or> s = [] then s
      else if \<not> contains s token then s
      else replace_all s token secretReplacement)"

definition redactErr :: "printable \<Rightarrow> client \<Rightarrow> client_error option \<Rightarrow> client_error option" where
  "redactErr pr cl err =
     (case err of
        None \<Rightarrow> None
      | Some e \<Rightarrow>
          (let msg = error_text pr e; redacted = redactString cl msg in
           if redacted = msg then Some e else Some (ErrorText redacted)))"

section \<open>Bounded reads of an error body\<close>

text \<open>Both return the body with what they read taken off; the limits are not negative.\<close>

definition discardBounded :: "reader \<Rightarrow> int \<Rightarrow> reader" where
  "discardBounded r n = r\<lparr>rd_rest := drop (nat (n + 1)) (rd_rest r)\<rparr>"

definition readBounded :: "reader \<Rightarrow> int \<Rightarrow> string \<times> reader" where
  "readBounded r n =
     (let b = fst (read_all (limit_reader (nat (n + 1)) r));
          b' = (if n < int (length b) then take (nat n) b else b);
          s = join (GoText.fields (trim_space b')) '' '' in
      (if s = [] then ''empty error body''
       else if n < int (length s) then take (nat n) s else s,
       discardBounded r n))"

section \<open>The request\<close>

text \<open>\<open>json.Marshal\<close> of \<open>requestBody\<close>: the fields in the order of the struct, HTML characters escaped.\<close>

definition str_member :: "string \<Rightarrow> string \<Rightarrow> string \<times> string \<times> json" where
  "str_member k s = text_field True k s"

definition wire_message :: "message \<Rightarrow> json" where
  "wire_message m = JObj [str_member ''role'' (Role m), str_member ''content'' (Content m)]"

definition json_member :: "string \<Rightarrow> json \<Rightarrow> string \<times> string \<times> json" where
  "json_member k v = (k, json_print True v, v)"

definition request_body :: "config \<Rightarrow> message list \<Rightarrow> json" where
  "request_body cfg messages = JObj
     [json_member ''model'' (JStr (cfg_Model cfg)),
      json_member ''messages'' (JArr (map wire_message messages)),
      json_member ''stream'' (JBool True),
      json_member ''max_tokens'' (JNum (show_int (sint (cfg_GenerationReserve cfg))))]"

record request =
  rq_method :: string
  rq_url :: string
  rq_header :: "(string \<times> string) list"
  rq_body :: string

text \<open>
  \<open>http.NewRequestWithContext\<close> fails exactly when the library cannot parse the URL (the method is a
  constant); \<open>url_text\<close> is the text of that error.
\<close>

definition build_request ::
  "ip_host \<Rightarrow> (url_error \<Rightarrow> string) \<Rightarrow> client \<Rightarrow> message list \<Rightarrow> (client_error, request) result" where
  "build_request ip url_text cl messages =
     (let cfg = cl_cfg cl; payload = json_print True (request_body cfg messages) in
      case url_parse ip (cfg_Endpoint cfg) of
        Inl e \<Rightarrow>
          (if authenticated cl then Inl BuildRefused
           else Inl (BuildFailed (cfg_Endpoint cfg) (url_text e)))
      | Inr _ \<Rightarrow>
          Inr \<lparr>rq_method = ''POST'', rq_url = cfg_Endpoint cfg,
            rq_header = [(''Content-Type'', ''application/json''), (''Accept'', ''text/event-stream'')]
              @ (if cfg_BearerToken cfg \<noteq> [] then [(''Authorization'', ''Bearer '' @ cfg_BearerToken cfg)] else []),
            rq_body = payload\<rparr>)"

section \<open>The exchange\<close>

record response =
  rs_status :: int
  rs_content_type :: string
  rs_body :: reader

text \<open>\<open>NetFailed\<close>: whether the error is a timeout, and its text. \<open>Redirected\<close>: the redacted location.\<close>

datatype outcome =
    NetFailed bool string
  | Redirected string
  | Answered response

type_synonym network = "request \<Rightarrow> outcome \<times> bool"

text \<open>\<open>CheckRedirect\<close> of the client \<open>New\<close> builds: every redirect is refused.\<close>

definition checkRedirect :: "client \<Rightarrow> string \<Rightarrow> client_error" where
  "checkRedirect cl loc = (if authenticated cl then RedirectRefused else RedirectTo loc)"

text \<open>
  The error of \<open>http.Client.Do\<close> as \<open>transportError\<close> takes it apart: the \<open>CheckRedirect\<close> error it wraps,
  whether it is a timeout, and its text, where a refused redirect is wrapped in a \<open>url.Error\<close>.
\<close>

record do_error =
  de_wraps :: "client_error option"
  de_timeout :: bool
  de_text :: string

definition do_request ::
  "printable \<Rightarrow> client \<Rightarrow> network \<Rightarrow> request \<Rightarrow> (do_error, response) result \<times> bool" where
  "do_request pr cl net req =
     (case net req of
        (NetFailed tmo text, sent) \<Rightarrow> (Inl \<lparr>de_wraps = None, de_timeout = tmo, de_text = text\<rparr>, sent)
      | (Redirected loc, sent) \<Rightarrow>
          (Inl \<lparr>de_wraps = Some (checkRedirect cl loc), de_timeout = False,
                de_text = ''Post '' @ go_quote pr (rq_url req) @ '': '' @ error_text pr (checkRedirect cl loc)\<rparr>, sent)
      | (Answered r, sent) \<Rightarrow> (Inr r, sent))"

definition transportError :: "client \<Rightarrow> ctx_error option \<Rightarrow> do_error \<Rightarrow> client_error" where
  "transportError cl ctx err =
     (let ep = cfg_Endpoint (cl_cfg cl) in
      case ctx of
        Some e \<Rightarrow> StreamFailed (CtxErr e)
      | None \<Rightarrow>
          (if authenticated cl then
             (if de_wraps err = Some RedirectRefused then RedirectRefused
              else if de_timeout err then ContactTimeout ep
              else ContactFailed ep None)
           else if de_timeout err then ContactTimeout ep
           else ContactFailed ep (Some (de_text err))))"

section \<open>A streamed completion\<close>

record stream_result =
  sr_Text :: string
  sr_FinishReason :: string
  sr_RequestSent :: bool

definition no_result :: "bool \<Rightarrow> stream_result" where
  "no_result sent = \<lparr>sr_Text = [], sr_FinishReason = [], sr_RequestSent = sent\<rparr>"

text \<open>The callback under authentication: the filter's state beside the caller's.\<close>

definition filtered :: "'s callback \<Rightarrow> (filter_state \<times> 's) callback" where
  "filtered cb = Some (\<lambda>(f, s) text.
     case push f text of
       (out, f') \<Rightarrow>
         (if out = [] then (None, (f', s))
          else case call_delta cb s out of (e, s') \<Rightarrow> (e, (f', s'))))"

definition decode_options :: "client \<Rightarrow> int64 \<Rightarrow> decode_opts" where
  "decode_options cl outputLimit =
     \<lparr>do_max_event = op_MaxEventBytes (cl_opt cl), do_max_stream = op_MaxStreamBytes (cl_opt cl),
      do_omit = authenticated cl, do_output_limit = sint outputLimit\<rparr>"

text \<open>From the accepted response on.\<close>

definition read_stream ::
  "client \<Rightarrow> polls \<Rightarrow> reader \<Rightarrow> int64 \<Rightarrow> 's callback \<Rightarrow> 's \<Rightarrow> client_error option \<times> string \<times> string \<times> 's" where
  "read_stream cl polls body outputLimit cb s =
     (let limited = limit_reader (nat (op_MaxStreamBytes (cl_opt cl) + 1)) body;
          opt = decode_options cl outputLimit in
      if authenticated cl then
        (case decodeStream polls limited opt (filtered cb)
                (newSecretFilter (cfg_BearerToken (cl_cfg cl)), s) of
           (err, text, finish, (f, s')) \<Rightarrow>
             (let text' = redactAssembled f text in
              case err of
                Some e \<Rightarrow> (Some (StreamFailed e), text', [], s')
              | None \<Rightarrow>
                  (let rest = fst (flush f) in
                   if rest = [] then (None, text', finish, s')
                   else case call_delta cb s' rest of
                     (Some w, s'') \<Rightarrow> (Some (StreamFailed (CallbackErr w)), text', [], s'')
                   | (None, s'') \<Rightarrow> (None, text', finish, s''))))
      else
        (case decodeStream polls limited opt cb s of
           (Some e, text, finish, s') \<Rightarrow> (Some (StreamFailed e), text, [], s')
         | (None, text, finish, s') \<Rightarrow> (None, text, finish, s')))"

text \<open>The tests on the response: the error if it is refused, and the body that is left.\<close>

definition accept_response :: "printable \<Rightarrow> client \<Rightarrow> response \<Rightarrow> client_error option \<times> reader" where
  "accept_response pr cl r =
     (let n = op_MaxErrorBodyBytes (cl_opt cl); ct = to_lower (rs_content_type r) in
      if rs_status r < 200 \<or> 299 < rs_status r then
        (if authenticated cl then (Some (HttpStatus (rs_status r) None), discardBounded (rs_body r) n)
         else case readBounded (rs_body r) n of
           (snippet, body) \<Rightarrow> (Some (HttpStatus (rs_status r) (Some snippet)), body))
      else if ct \<noteq> [] \<and> \<not> contains ct ''text/event-stream'' then
        (if authenticated cl then (Some (NotEventStream None), discardBounded (rs_body r) n)
         else case readBounded (rs_body r) n of
           (snippet, body) \<Rightarrow> (Some (NotEventStream (Some (rs_content_type r, snippet))), body))
      else (None, rs_body r))"

text \<open>
  The parent context: \<open>ctx\<close> is its error when \<open>Do\<close> fails, \<open>polls\<close> what the decoder's polls find.
\<close>

record world =
  w_ip :: ip_host
  w_url_text :: "url_error \<Rightarrow> string"
  w_printable :: printable
  w_net :: network
  w_ctx :: "ctx_error option"
  w_polls :: polls

definition doStream ::
  "world \<Rightarrow> client \<Rightarrow> message list \<Rightarrow> int64 \<Rightarrow> 's callback \<Rightarrow> 's
     \<Rightarrow> stream_result \<times> client_error option \<times> 's" where
  "doStream w cl messages outputLimit cb s =
     (case build_request (w_ip w) (w_url_text w) cl messages of
        Inl e \<Rightarrow> (no_result False, Some e, s)
      | Inr req \<Rightarrow>
          (case do_request (w_printable w) cl (w_net w) req of
             (Inl err, sent) \<Rightarrow> (no_result sent, Some (transportError cl (w_ctx w) err), s)
           | (Inr r, sent) \<Rightarrow>
               (case accept_response (w_printable w) cl r of
                  (Some e, _) \<Rightarrow> (no_result sent, Some e, s)
                | (None, body) \<Rightarrow>
                    (case read_stream cl (w_polls w) body outputLimit cb s of
                       (e, text, finish, s') \<Rightarrow>
                         (\<lparr>sr_Text = text, sr_FinishReason = finish, sr_RequestSent = sent\<rparr>, e, s')))))"

definition StreamResult ::
  "world \<Rightarrow> client \<Rightarrow> message list \<Rightarrow> int64 \<Rightarrow> 's callback \<Rightarrow> 's
     \<Rightarrow> stream_result \<times> client_error option \<times> 's" where
  "StreamResult w cl messages outputLimit cb s =
     (case doStream w cl messages outputLimit cb s of
        (res, err, s') \<Rightarrow> (res, redactErr (w_printable w) cl err, s'))"

definition Stream ::
  "world \<Rightarrow> client \<Rightarrow> message list \<Rightarrow> int64 \<Rightarrow> 's callback \<Rightarrow> 's \<Rightarrow> string \<times> client_error option \<times> 's" where
  "Stream w cl messages outputLimit cb s =
     (case StreamResult w cl messages outputLimit cb s of (res, err, s') \<Rightarrow> (sr_Text res, err, s'))"

section \<open>The idle watchdog\<close>

text \<open>
  \<open>withIdleCancel\<close>: a timer that cancels the stream context when it fires.  \<open>reset\<close> only re-arms a timer
  it could still stop, so a fired watchdog stays fired; \<open>idleResetReader\<close> resets it on every read that
  returned bytes.
\<close>

datatype watchdog = Armed int | Fired

definition withIdleCancel :: "int \<Rightarrow> int \<Rightarrow> watchdog" where
  "withIdleCancel idle now = Armed (now + idle)"

definition wd_elapse :: "int \<Rightarrow> watchdog \<Rightarrow> watchdog" where
  "wd_elapse now w = (case w of Armed d \<Rightarrow> (if d \<le> now then Fired else Armed d) | Fired \<Rightarrow> Fired)"

definition wd_reset :: "int \<Rightarrow> int \<Rightarrow> watchdog \<Rightarrow> watchdog" where
  "wd_reset idle now w = (case w of Armed d \<Rightarrow> Armed (now + idle) | Fired \<Rightarrow> Fired)"

text \<open>One read of the body at time \<open>now\<close> that returned \<open>n\<close> bytes.\<close>

definition idle_read :: "int \<Rightarrow> watchdog \<Rightarrow> int \<times> nat \<Rightarrow> watchdog" where
  "idle_read idle w r =
     (case r of (now, n) \<Rightarrow> (let w' = wd_elapse now w in if 0 < n then wd_reset idle now w' else w'))"

definition watch :: "int \<Rightarrow> int \<Rightarrow> (int \<times> nat) list \<Rightarrow> watchdog" where
  "watch idle start reads = foldl (idle_read idle) (withIdleCancel idle start) reads"

end
