(* ===== verification/ClientProps.thy ===== *)
theory ClientProps imports Client begin

text \<open>
  What \<open>internal/client/client.go\<close> guarantees: the request on the wire, that the token leaves neither in
  text nor in diagnostics, that refused exchanges never reach the callback, and when the idle watchdog
  fires.
\<close>

section \<open>The request\<close>

lemma show_int_pos: "0 < i \<Longrightarrow> show_int i = show_nat (nat i)"
  by (simp add: show_int_def)

lemma more_names_utf8:
  "valid_utf8 ''role''" "valid_utf8 ''content''" "valid_utf8 ''messages''" "valid_utf8 ''stream''"
  "valid_utf8 ''max_tokens''"
  by (rule valid_utf8_ascii, simp add: byte_in_def)+

definition utf8_message :: "message \<Rightarrow> bool" where
  "utf8_message m \<longleftrightarrow> valid_utf8 (Role m) \<and> valid_utf8 (Content m)"

lemma request_body_wf:
  assumes "utf8_config cfg" and "0 < sint (cfg_GenerationReserve cfg)" and "list_all utf8_message messages"
  shows "json_wf True max_nesting (request_body cfg messages)"
  using assms
  by (simp add: request_body_def json_member_def names_utf8 more_names_utf8 utf8_config_def show_int_pos
      plain_show_nat max_nesting_def list_all_iff wire_message_def str_member_def text_field_def utf8_message_def)

lemma valid_endpoint_parses:
  assumes "validateEndpoint ip e = Inr ()"
  shows "\<exists>u. url_parse ip e = Inr u"
  using assms by (cases "url_parse ip e") (auto simp: validateEndpoint_def)

lemma build_request_valid:
  assumes "valid_config env ip path (cl_cfg cl)" and "utf8_config (cl_cfg cl)" and "list_all utf8_message messages"
  shows "\<exists>req. build_request ip ut cl messages = Inr req \<and> rq_method req = ''POST''
     \<and> rq_url req = cfg_Endpoint (cl_cfg cl)
     \<and> parse_json (rq_body req) = Some (request_body (cl_cfg cl) messages)
     \<and> rq_header req = [(''Content-Type'', ''application/json''), (''Accept'', ''text/event-stream'')]
         @ (if cfg_BearerToken (cl_cfg cl) = [] then []
            else [(''Authorization'', ''Bearer '' @ cfg_BearerToken (cl_cfg cl))])"
proof -
  have "validateEndpoint ip (cfg_Endpoint (cl_cfg cl)) = Inr ()" and pos: "0 < sint (cfg_GenerationReserve (cl_cfg cl))"
    using assms(1) by (auto simp: valid_config_def endpoint_accepted)
  then obtain u where "url_parse ip (cfg_Endpoint (cl_cfg cl)) = Inr u"
    using valid_endpoint_parses by blast
  then show ?thesis
    using parse_json_print [OF request_body_wf [OF assms(2) pos assms(3)]]
    by (simp add: build_request_def Let_def)
qed

section \<open>Nothing printed contains the token\<close>

lemma redacted_end:
  assumes "replacement_safe token" and "\<not> sublist token a"
  shows "\<not> sublist token (a @ secretReplacement)"
proof
  assume s: "sublist token (a @ secretReplacement)"
  then obtain x y where xy: "token = x @ y" "suffix x a" "prefix y secretReplacement"
    using assms not_in_replacement by (auto simp: sublist_append)
  have "y = []"
    using xy(1,3) assms(1) by (cases y) (auto simp: replacement_safe_def secretReplacement_def)
  with xy assms(2) show False
    by (auto dest: suffix_imp_sublist)
qed

lemma redactAssembled_no_token:
  assumes "replacement_safe token" and "token \<noteq> []" and "sf_secret f = token"
  shows "\<not> sublist token (redactAssembled (Some f) text)"
proof -
  let ?t = "replace_all text token secretReplacement"
  have n: "\<not> sublist token ?t"
    using assms replace_all_no_token by blast
  then have "\<not> sublist token (take k ?t)" for k
    by (meson prefix_imp_sublist sublist_order.order.trans take_is_prefix)
  with n show ?thesis
    using redacted_end [OF assms(1)] assms(3) by (simp add: Let_def)
qed

lemma redactErr_no_token:
  assumes "cfg_BearerToken (cl_cfg cl) = token" and "token \<noteq> []" and "replacement_safe token"
    and "redactErr pr cl err = Some e"
  shows "\<not> contains (error_text pr e) token"
proof -
  obtain e0 where e0: "err = Some e0"
    using assms(4) by (cases err) (auto simp: redactErr_def)
  have "\<not> contains (redactString cl (error_text pr e0)) token"
    using assms(1-3) replace_all_no_token [OF assms(2,3)]
    by (auto simp: redactString_def Let_def contains_iff)
  with e0 assms(4) show ?thesis
    by (auto simp: redactErr_def Let_def split: if_splits)
qed

lemma push_secret: "push (Some f) t = (out, g) \<Longrightarrow> \<exists>f'. g = Some f' \<and> sf_secret f' = sf_secret f"
  by (auto split: if_splits prod.splits)

lemma call_filtered:
  "call_delta (filtered cb) (f, s) t =
     (case push f t of (out, f') \<Rightarrow>
        (if out = [] then (None, (f', s)) else case call_delta cb s out of (e, s') \<Rightarrow> (e, (f', s'))))"
  by (simp add: call_delta_def filtered_def split: prod.split)

text \<open>The caller's callback sees the nonempty outputs of the filter, up to its first error.\<close>

lemma run_filtered:
  assumes "run_deltas (filtered cb) (Some f, s) ds = (ce, (g, s'))"
  shows "\<exists>outs f'. g = Some f' \<and> sf_secret f' = sf_secret f \<and> run_deltas cb s outs = (ce, s')
     \<and> prefix (concat outs) (fst (push_all push (Some f) ds))
     \<and> (ce = None \<longrightarrow> push_all push (Some f) ds = (concat outs, Some f'))"
  using assms
proof (induction ds arbitrary: f s)
  case Nil
  then show ?case by (intro exI [of _ "[]"]) auto
next
  case (Cons d ds)
  obtain out g1 where p: "push (Some f) d = (out, g1)" by (cases "push (Some f) d")
  then obtain f1 where f1: "g1 = Some f1" "sf_secret f1 = sf_secret f"
    using push_secret by blast
  obtain rest g2 where pa: "push_all push (Some f1) ds = (rest, g2)"
    by (cases "push_all push (Some f1) ds")
  have step: "push_all push (Some f) (d # ds) = (out @ rest, g2)"
    using p pa f1 by (simp del: push.simps)
  show ?case
  proof (cases "out = []")
    case True
    then have "run_deltas (filtered cb) (Some f1, s) ds = (ce, (g, s'))"
      using Cons.prems p f1 by (simp add: call_filtered del: push.simps)
    from Cons.IH [OF this] step True pa f1 show ?thesis by auto
  next
    case False
    obtain e s1 where c: "call_delta cb s out = (e, s1)" by (cases "call_delta cb s out")
    show ?thesis
    proof (cases e)
      case (Some w)
      then have "ce = Some w" "g = Some f1" "s' = s1"
        using Cons.prems p f1 c False by (auto simp: call_filtered simp del: push.simps)
      with c Some f1 step show ?thesis
        by (intro exI [of _ "[out]"]) auto
    next
      case None
      then have "run_deltas (filtered cb) (Some f1, s1) ds = (ce, (g, s'))"
        using Cons.prems p f1 c False by (simp add: call_filtered del: push.simps)
      from Cons.IH [OF this] obtain outs f' where o: "g = Some f'" "sf_secret f' = sf_secret f1"
        "run_deltas cb s1 outs = (ce, s')" "prefix (concat outs) (fst (push_all push (Some f1) ds))"
        "ce = None \<longrightarrow> push_all push (Some f1) ds = (concat outs, Some f')"
        by blast
      then show ?thesis
        using c None f1 step pa by (intro exI [of _ "out # outs"]) auto
    qed
  qed
qed

lemma pushed_no_token:
  assumes "token \<noteq> []" and "replacement_safe token"
  shows "\<not> sublist token (fst (push_all push (newSecretFilter token) ds))"
proof -
  obtain out p where sc: "filter_scan token (concat ds) = (out, p)"
    by (cases "filter_scan token (concat ds)")
  have "\<not> sublist token (out @ [])"
    by (rule scan_no_token [OF sc assms]) simp
  then show ?thesis
    using sc assms(1) by (simp add: secret.push_all_concat newSecretFilter_ok push_new)
qed

lemma sublist_prefix_trans: "prefix a b \<Longrightarrow> sublist t a \<Longrightarrow> sublist t b"
  using prefix_imp_sublist sublist_order.order.trans by blast

lemma run_deltas_append:
  "run_deltas cb s outs = (None, s1) \<Longrightarrow> run_deltas cb s (outs @ outs2) = run_deltas cb s1 outs2"
  by (induction outs arbitrary: s) (auto split: prod.splits option.splits)

lemma read_stream_safe:
  assumes token: "cfg_BearerToken (cl_cfg cl) = token" "token \<noteq> []" "replacement_safe token"
    and "read_stream cl polls body lim cb s = (err, text, fin, s')"
  shows "\<not> sublist token text \<and> (\<exists>outs ce. run_deltas cb s outs = (ce, s') \<and> \<not> sublist token (concat outs))"
proof -
  let ?br = "limit_reader (nat (op_MaxStreamBytes (cl_opt cl) + 1)) body"
  obtain e1 text1 fin1 g s1 where d: "decodeStream polls ?br (decode_options cl lim) (filtered cb)
      (newSecretFilter token, s) = (e1, text1, fin1, (g, s1))"
    by (metis prod.collapse)
  have new: "newSecretFilter token = Some \<lparr>sf_secret = token, sf_pending = []\<rparr>"
    using token(2) by (simp add: newSecretFilter_def)
  define ce where "ce = Option.bind e1 callback_error"
  obtain deltas where "run_deltas (filtered cb) (newSecretFilter token, s) deltas = (ce, (g, s1))"
    using decodeStream_deltas [OF d] unfolding ce_def by blast
  from run_filtered [OF this [unfolded new]] obtain outs f' where g: "g = Some f'" and sec: "sf_secret f' = token"
    and outs: "run_deltas cb s outs = (ce, s1)"
    and pre: "prefix (concat outs) (fst (push_all push (newSecretFilter token) deltas))"
    by (auto simp: new)
  have safe: "\<not> sublist token (concat outs)"
    using pushed_no_token [OF token(2,3)] sublist_prefix_trans [OF pre] by blast
  have clean: "\<not> sublist token (redactAssembled (Some f') text1)"
    using redactAssembled_no_token [OF token(3,2) sec] .
  have auth: "authenticated cl"
    using token by (simp add: authenticated_def)
  show ?thesis
  proof (cases "e1 = None \<and> fst (flush g) \<noteq> []")
    case False
    then have "text = redactAssembled g text1" "s' = s1"
      using assms(4) d auth token(1) by (auto simp: read_stream_def Let_def split: option.splits)
    with clean g outs safe show ?thesis by auto
  next
    case True
    then have rest: "fst (flush g) = secretReplacement"
      using g by (auto split: if_splits)
    obtain w s2 where c: "call_delta cb s1 secretReplacement = (w, s2)"
      by (cases "call_delta cb s1 secretReplacement")
    have "text = redactAssembled g text1" "s' = s2"
      using assms(4) d auth token(1) True rest c
      by (auto simp: read_stream_def Let_def split: option.splits)
    moreover have "\<not> sublist token (concat outs @ secretReplacement)"
      using redacted_end [OF token(3) safe] .
    moreover have "run_deltas cb s (outs @ [secretReplacement]) = (w, s2)"
      using run_deltas_append [of cb s outs s1 "[secretReplacement]"] outs True c
      by (simp add: ce_def split: option.split)
    ultimately show ?thesis
      using clean g by (metis append_Nil2 concat.simps concat_append)
  qed
qed

section \<open>Refused exchanges\<close>

lemma accept_None:
  "accept_response pr cl r = (None, body) \<longleftrightarrow>
     200 \<le> rs_status r \<and> rs_status r \<le> 299
     \<and> (to_lower (rs_content_type r) = [] \<or> contains (to_lower (rs_content_type r)) ''text/event-stream'')
     \<and> body = rs_body r"
  by (auto simp: accept_response_def Let_def split: prod.splits)

lemma doStream_cases:
  assumes "doStream w cl messages lim cb s = (res, err, s')"
  obtains (refused) e where "err = Some e" "sr_Text res = []" "sr_FinishReason res = []" "s' = s"
    | (streamed) req r sent where "build_request (w_ip w) (w_url_text w) cl messages = Inr req"
      "w_net w req = (Answered r, sent)" "accept_response (w_printable w) cl r = (None, rs_body r)"
      "read_stream cl (w_polls w) (rs_body r) lim cb s = (err, sr_Text res, sr_FinishReason res, s')"
      "sr_RequestSent res = sent"
proof (cases "build_request (w_ip w) (w_url_text w) cl messages")
  case (Inl e)
  with assms refused show thesis by (auto simp: doStream_def no_result_def)
next
  case (Inr req)
  show thesis
  proof (cases "w_net w req")
    case (Pair out sent)
    show thesis
    proof (cases out)
      case (Answered r)
      obtain e body where acc: "accept_response (w_printable w) cl r = (e, body)" by fastforce
      show thesis
      proof (cases e)
        case (Some x)
        with assms Inr Pair Answered acc refused show thesis
          by (auto simp: doStream_def do_request_def no_result_def)
      next
        case None
        with acc have "body = rs_body r" by (simp add: accept_None)
        with assms Inr Pair Answered acc None streamed [of req r sent] show thesis
          by (auto simp: doStream_def do_request_def split: prod.splits)
      qed
    qed (use assms Inr Pair refused in \<open>auto simp: doStream_def do_request_def no_result_def\<close>)
  qed
qed

lemma StreamResult_doStream:
  "StreamResult w cl messages lim cb s = (res, err, s') \<longleftrightarrow>
     (\<exists>e. doStream w cl messages lim cb s = (res, e, s') \<and> err = redactErr (w_printable w) cl e)"
  by (auto simp: StreamResult_def split: prod.splits)

lemma redactErr_None [simp]: "redactErr pr cl e = None \<longleftrightarrow> e = None"
  by (auto simp: redactErr_def Let_def split: option.splits)

lemma StreamResult_safe:
  assumes token: "cfg_BearerToken (cl_cfg cl) = token" "token \<noteq> []" "replacement_safe token"
    and r: "StreamResult w cl messages lim cb s = (res, err, s')"
  shows "\<not> contains (sr_Text res) token
     \<and> (\<forall>e. err = Some e \<longrightarrow> \<not> contains (error_text (w_printable w) e) token)
     \<and> (\<exists>outs ce. run_deltas cb s outs = (ce, s') \<and> \<not> contains (concat outs) token)"
proof -
  obtain e where d: "doStream w cl messages lim cb s = (res, e, s')" and err: "err = redactErr (w_printable w) cl e"
    using r by (auto simp: StreamResult_doStream)
  have "\<not> sublist token (sr_Text res) \<and> (\<exists>outs ce. run_deltas cb s outs = (ce, s') \<and> \<not> sublist token (concat outs))"
    using d
  proof (cases rule: doStream_cases)
    case refused
    with token(2) show ?thesis by (auto intro!: exI [of _ "[]"])
  next
    case (streamed req r sent)
    from read_stream_safe [OF token streamed(4)] show ?thesis .
  qed
  with redactErr_no_token [OF token(1-3)] err show ?thesis
    by (auto simp: contains_iff)
qed

lemma decodeStream_finish:
  "decodeStream polls br opt cb s = (None, text, fin, s') \<Longrightarrow> fin \<in> {[], ''stop'', ''length''}"
  by (auto simp: decodeStream_def dest: finish_stream_ok split: prod.splits option.splits)

lemma read_stream_finish:
  assumes "read_stream cl polls body lim cb s = (e, text, fin, s')"
  shows "(e \<noteq> None \<longrightarrow> fin = []) \<and> (e = None \<longrightarrow> fin \<in> {[], ''stop'', ''length''})"
  using assms
  by (auto simp: read_stream_def Let_def split: if_splits prod.splits option.splits dest!: decodeStream_finish)

section \<open>A stream that breaks\<close>

definition demo_client :: client where
  "demo_client = New_client demo_config zero_options"

definition breaking_world :: world where
  "breaking_world = \<lparr>w_ip = no_ip_host, w_url_text = (\<lambda>_. []), w_printable = (\<lambda>_. True),
     w_net = (\<lambda>_. (Answered \<lparr>rs_status = 200, rs_content_type = ''text/event-stream'',
        rs_body = new_reader [] (ReadErr False ''reset for s3cret'')\<rparr>, True)),
     w_ctx = None, w_polls = quiet\<rparr>"

lemma demo_client_cfg [simp]: "cl_cfg demo_client = demo_config"
  by (simp add: demo_client_def New_client_def)

lemma breaking_decode:
  "decodeStream quiet (limit_reader 8388609 (new_reader [] (ReadErr False ''reset for s3cret'')))
     (decode_options demo_client 100) cb s = (Some (SseFailed (ReadFailed ''reset for s3cret'')), [], [], s)"
  by (simp add: decodeStream_def decode_loop.simps quiet_def poll_error_def readSSEEvent_def sse_event_loop.simps
      readSSELine_def sse_line_loop.simps read_byte_def new_reader_def limit_reader_def decode_options_def
      demo_client_def New_client_def withDefaults_def or_default_def default_options_def zero_options_def
      line_read_error_def isTimeout_def contains_def has_prefix_def ascii_lower_def read_failure_def start_state_def)

lemma demo_build:
  assumes "list_all utf8_message messages"
  shows "\<exists>req. build_request no_ip_host ut demo_client messages = Inr req"
  using build_request_valid [where env = demo_env and ip = no_ip_host and path = "''c.json''" and cl = demo_client
      and messages = messages and ut = ut] demo_valid demo_utf8 assms
  by auto

lemma breaking_result:
  "StreamResult breaking_world demo_client [] 100 cb s =
     (no_result True, Some (ErrorText ''reset for [redacted]''), s)"
proof -
  obtain req where req: "build_request no_ip_host (\<lambda>_. []) demo_client [] = Inr req"
    using demo_build [of "[]"] by auto
  have opt: "op_MaxStreamBytes (cl_opt demo_client) = 8388608" "authenticated demo_client"
    by (simp_all add: demo_client_def New_client_def withDefaults_def or_default_def default_options_def
        zero_options_def authenticated_def demo_config_def)
  have tok: "cfg_BearerToken demo_config = ''s3cret''"
    by (simp add: demo_config_def)
  have "read_stream demo_client quiet (new_reader [] (ReadErr False ''reset for s3cret'')) 100 cb s
      = (Some (StreamFailed (SseFailed (ReadFailed ''reset for s3cret''))), [], [], s)"
    using breaking_decode [of "filtered cb"]
    by (simp add: read_stream_def opt newSecretFilter_def tok)
  moreover have "redactErr (\<lambda>_. True) demo_client (Some (StreamFailed (SseFailed (ReadFailed ''reset for s3cret''))))
      = Some (ErrorText ''reset for [redacted]'')"
    by (simp add: redactErr_def redactString_def tok contains_def has_prefix_def secretReplacement_def)
  ultimately show ?thesis
    by (simp add: StreamResult_def doStream_def breaking_world_def req do_request_def accept_response_def
        contains_def has_prefix_def ascii_lower_def no_result_def)
qed

section \<open>The watchdog\<close>

text \<open>Every read comes less than \<open>idle\<close> after the last one that returned bytes (or the start).\<close>

fun lively :: "int \<Rightarrow> int \<Rightarrow> (int \<times> nat) list \<Rightarrow> bool" where
  "lively idle t0 [] \<longleftrightarrow> True"
| "lively idle t0 ((now, n) # rs) \<longleftrightarrow> now < t0 + idle \<and> lively idle (if 0 < n then now else t0) rs"

fun last_progress :: "int \<Rightarrow> (int \<times> nat) list \<Rightarrow> int" where
  "last_progress t0 [] = t0"
| "last_progress t0 ((now, n) # rs) = last_progress (if 0 < n then now else t0) rs"

lemma idle_read_step:
  "idle_read idle (Armed (t0 + idle)) (now, n) =
     (if now < t0 + idle then Armed ((if 0 < n then now else t0) + idle) else Fired)"
  "idle_read idle Fired r = Fired"
  by (auto simp: idle_read_def wd_elapse_def wd_reset_def split: prod.split)

lemma fired_stays: "foldl (idle_read idle) Fired rs = Fired"
  by (induction rs) (simp_all add: idle_read_step)

lemma watch_lively:
  "foldl (idle_read idle) (Armed (t0 + idle)) rs =
     (if lively idle t0 rs then Armed (last_progress t0 rs + idle) else Fired)"
proof (induction rs arbitrary: t0)
  case (Cons r rs)
  obtain now n where "r = (now, n)" by (cases r)
  then show ?case
    by (simp add: Cons.IH idle_read_step fired_stays)
qed simp

section \<open>Properties\<close>

text \<open>The members of a JSON object, without the spelling of their values.\<close>

fun json_pairs :: "json \<Rightarrow> (string \<times> json) list option" where
  "json_pairs (JObj ms) = Some (map (\<lambda>(k, _, v). (k, v)) ms)"
| "json_pairs _ = None"

text \<open>C28: the request carries the conversation: for every valid configuration and every list of messages,
  both in UTF-8, a request is built, a POST to the configured endpoint with a JSON content type, an
  event-stream accept header and an \<open>Authorization\<close> header exactly when there is a token.  Its body
  parses to an object with exactly the members \<open>model\<close> (the configured one), \<open>messages\<close> (one object
  per message, in order, with exactly its role and its content), \<open>stream: true\<close> and \<open>max_tokens\<close> (the
  generation reserve).\<close>

theorem request_carries_conversation:
  assumes "valid_config env ip path (cl_cfg cl)" and "utf8_config (cl_cfg cl)" and "list_all utf8_message messages"
  shows "\<exists>req js. build_request ip ut cl messages = Inr req \<and> rq_method req = ''POST''
     \<and> rq_url req = cfg_Endpoint (cl_cfg cl)
     \<and> rq_header req = [(''Content-Type'', ''application/json''), (''Accept'', ''text/event-stream'')]
         @ (if cfg_BearerToken (cl_cfg cl) = [] then []
            else [(''Authorization'', ''Bearer '' @ cfg_BearerToken (cl_cfg cl))])
     \<and> Option.bind (parse_json (rq_body req)) json_pairs =
         Some [(''model'', JStr (cfg_Model (cl_cfg cl))), (''messages'', JArr js), (''stream'', JBool True),
           (''max_tokens'', JNum (show_int (sint (cfg_GenerationReserve (cl_cfg cl)))))]
     \<and> map json_pairs js =
         map (\<lambda>m. Some [(''role'', JStr (Role m)), (''content'', JStr (Content m))]) messages"
proof -
  obtain req where req: "build_request ip ut cl messages = Inr req" "rq_method req = ''POST''"
    "rq_url req = cfg_Endpoint (cl_cfg cl)"
    "rq_header req = [(''Content-Type'', ''application/json''), (''Accept'', ''text/event-stream'')]
         @ (if cfg_BearerToken (cl_cfg cl) = [] then []
            else [(''Authorization'', ''Bearer '' @ cfg_BearerToken (cl_cfg cl))])"
    and body: "parse_json (rq_body req) = Some (request_body (cl_cfg cl) messages)"
    using build_request_valid [OF assms] by blast
  have "Option.bind (parse_json (rq_body req)) json_pairs =
      Some [(''model'', JStr (cfg_Model (cl_cfg cl))), (''messages'', JArr (map wire_message messages)),
        (''stream'', JBool True), (''max_tokens'', JNum (show_int (sint (cfg_GenerationReserve (cl_cfg cl)))))]"
    by (simp add: body request_body_def json_member_def)
  moreover have "map json_pairs (map wire_message messages) =
      map (\<lambda>m. Some [(''role'', JStr (Role m)), (''content'', JStr (Content m))]) messages"
    by (simp add: wire_message_def str_member_def text_field_def)
  ultimately show ?thesis using req by blast
qed

theorem request_carries_conversation_witness:
  "\<exists>req. build_request no_ip_host (\<lambda>_. []) demo_client [\<lparr>Role = ''user'', Content = ''m''\<rparr>] = Inr req
     \<and> map_of (rq_header req) ''Authorization'' = Some ''Bearer s3cret''
     \<and> parse_json (rq_body req) \<noteq> None"
proof -
  let ?msgs = "[\<lparr>Role = ''user'', Content = ''m''\<rparr>]"
  have "list_all utf8_message ?msgs"
    by (simp add: utf8_message_def valid_utf8_ascii byte_in_def)
  then obtain req js where "build_request no_ip_host (\<lambda>_. []) demo_client ?msgs = Inr req"
    and "rq_header req = [(''Content-Type'', ''application/json''), (''Accept'', ''text/event-stream''),
        (''Authorization'', ''Bearer s3cret'')]"
    and "Option.bind (parse_json (rq_body req)) json_pairs = Some js"
    using request_carries_conversation [where env = demo_env and ip = no_ip_host and path = "''c.json''"
        and cl = demo_client and messages = ?msgs and ut = "\<lambda>_. []"] demo_valid demo_utf8
    by (auto simp: demo_config_def)
  then show ?thesis by (cases "parse_json (rq_body req)") auto
qed

text \<open>C3: nothing leaves with the token: for a token without brackets that is no part of the word
  \<open>redacted\<close>, whatever the server and the network do, the assembled text, the text of the error and
  the text handed to the callback (over all its calls) do not contain the token.\<close>

theorem StreamResult_never_leaks:
  assumes "cfg_BearerToken (cl_cfg cl) = token" and "token \<noteq> []" and "replacement_safe token"
    and "StreamResult w cl messages lim cb s = (res, err, s')"
  shows "\<not> contains (sr_Text res) token
     \<and> (\<forall>e. err = Some e \<longrightarrow> \<not> contains (error_text (w_printable w) e) token)
     \<and> (\<exists>outs ce. run_deltas cb s outs = (ce, s') \<and> \<not> contains (concat outs) token)"
  using assms by (rule StreamResult_safe)

theorem StreamResult_never_leaks_witness:
  "\<not> contains (error_text (\<lambda>_. True) (ErrorText ''reset for [redacted]'')) ''s3cret''"
proof -
  have "replacement_safe ''s3cret''"
    by (simp add: replacement_safe_def contains_def has_prefix_def)
  moreover have "cfg_BearerToken (cl_cfg demo_client) = ''s3cret''"
    by (simp add: demo_config_def)
  moreover have "w_printable breaking_world = (\<lambda>_. True)"
    by (simp add: breaking_world_def)
  ultimately show ?thesis
    using StreamResult_never_leaks [of demo_client "''s3cret''" breaking_world "[]" 100 None "()",
        OF _ _ _ breaking_result]
    by simp
qed

text \<open>C29: with a token, refusals and transport failures do not depend on what the server wrote: a refused
  response gives the same error for any body and any unsuitable content type, and a transport error
  shows nothing of the underlying error or of a redirect's location.  (Errors inside an accepted
  stream are not among these: an unsupported finish reason is named, with the token redacted.)\<close>

theorem authenticated_errors_opaque:
  assumes "authenticated cl"
  shows "(\<forall>r1 r2. rs_status r1 = rs_status r2 \<longrightarrow> fst (accept_response pr cl r1) \<noteq> None
            \<longrightarrow> fst (accept_response pr cl r2) \<noteq> None
            \<longrightarrow> fst (accept_response pr cl r1) = fst (accept_response pr cl r2))
     \<and> (\<forall>e1 e2. de_timeout e1 = de_timeout e2 \<longrightarrow> de_wraps e1 = de_wraps e2
            \<longrightarrow> transportError cl ctx e1 = transportError cl ctx e2)
     \<and> (\<forall>l1 l2. checkRedirect cl l1 = checkRedirect cl l2)"
proof (intro conjI)
  show "\<forall>r1 r2. rs_status r1 = rs_status r2 \<longrightarrow> fst (accept_response pr cl r1) \<noteq> None
            \<longrightarrow> fst (accept_response pr cl r2) \<noteq> None
            \<longrightarrow> fst (accept_response pr cl r1) = fst (accept_response pr cl r2)"
    using assms by (auto simp: accept_response_def Let_def split: if_splits)
qed (use assms in \<open>auto simp: transportError_def checkRedirect_def Let_def split: option.splits\<close>)

theorem authenticated_errors_opaque_witness:
  "transportError demo_client None \<lparr>de_wraps = None, de_timeout = True, de_text = ''a''\<rparr>
     = transportError demo_client None \<lparr>de_wraps = None, de_timeout = True, de_text = ''b''\<rparr>"
  using authenticated_errors_opaque [of demo_client "\<lambda>_. True" None]
  by (simp add: authenticated_def demo_config_def)

text \<open>C30: only an accepted stream is seen: when an exchange fails before a response with a success status
  and an event-stream content type (or none) arrives, the callback is never called and there is no
  text; and an exchange without error had such a response to the very request built from the
  messages, ended in an accepted finish reason, and reports what the transport said of that request
  having been sent.\<close>

theorem StreamResult_needs_stream:
  assumes "StreamResult w cl messages lim cb s = (res, err, s')"
  shows "(\<exists>req r sent. build_request (w_ip w) (w_url_text w) cl messages = Inr req
        \<and> w_net w req = (Answered r, sent) \<and> 200 \<le> rs_status r \<and> rs_status r \<le> 299
        \<and> (to_lower (rs_content_type r) = [] \<or> contains (to_lower (rs_content_type r)) ''text/event-stream'')
        \<and> sr_RequestSent res = sent \<and> (err = None \<longrightarrow> sr_FinishReason res \<in> {[], ''stop'', ''length''})
        \<and> (err \<noteq> None \<longrightarrow> sr_FinishReason res = []))
     \<or> (err \<noteq> None \<and> sr_Text res = [] \<and> sr_FinishReason res = [] \<and> s' = s)"
proof -
  obtain e where d: "doStream w cl messages lim cb s = (res, e, s')" and err: "err = redactErr (w_printable w) cl e"
    using assms by (auto simp: StreamResult_doStream)
  from d show ?thesis
  proof (cases rule: doStream_cases)
    case refused
    with err show ?thesis by simp
  next
    case (streamed req r sent)
    from read_stream_finish [OF streamed(4)] streamed err show ?thesis
      by (auto simp: accept_None)
  qed
qed

theorem StreamResult_needs_stream_witness:
  "\<exists>req r. w_net breaking_world req = (Answered r, True) \<and> rs_status r \<le> 299"
  using StreamResult_needs_stream [OF breaking_result [of None "()"]]
  by (auto simp: no_result_def breaking_world_def)

text \<open>C31: the idle watchdog fires exactly on silence: after any sequence of body reads it is armed for the
  idle time after the last read that returned bytes, unless some read came the idle time or more
  after the last one before it that did; empty reads do not count, and it never comes back.\<close>

theorem idle_watchdog_exact:
  "watch idle start reads =
     (if lively idle start reads then Armed (last_progress start reads + idle) else Fired)"
  unfolding watch_def withIdleCancel_def by (rule watch_lively)

end
