(* ===== verification/ReplIO.thy ===== *)
theory ReplIO imports ConfigParse begin

text \<open>
  \<open>internal/repl/input.go\<close> and \<open>internal/repl/jsonl.go\<close>: bounded reading of physical lines with their
  numbers, and the JSONL record writer.  The select of \<open>ReadLine\<close> between the context and the reading
  goroutine is a flag of the call; an \<open>io.Writer\<close> is a function of what it has taken so far.
\<close>

section \<open>Lines\<close>

datatype line_error = LineEOF | LineTooLong | Interrupted | InputFailed string

record input_reader =
  ir_br :: reader
  ir_max :: int
  ir_line :: nat

definition newInputReader :: "reader \<Rightarrow> int \<Rightarrow> input_reader" where
  "newInputReader r mx = \<lparr>ir_br = r, ir_max = mx, ir_line = 0\<rparr>"

text \<open>The rest of an overlong line is skipped up to its newline, an error or the end.\<close>

function skip_line :: "reader \<Rightarrow> reader" where
  "skip_line br =
     (case read_byte br of
        (Inl e, br') \<Rightarrow> br'
      | (Inr c, br') \<Rightarrow> (if c = CHR 0x0A then br' else skip_line br'))"
  by pat_completeness auto
termination
  by (relation "measure (\<lambda>br. length (rd_rest br))") (auto dest!: sym [of _ "read_byte _"] read_byte_shrinks)

definition drop_cr :: "string \<Rightarrow> string" where
  "drop_cr b = (if b \<noteq> [] \<and> last b = CHR 0x0D then butlast b else b)"

function bounded_loop :: "int \<Rightarrow> string \<Rightarrow> reader \<Rightarrow> (string \<times> line_error option) \<times> reader" where
  "bounded_loop mx b br =
     (case read_byte br of
        (Inl e, br') \<Rightarrow>
          ((case e of
              EOF \<Rightarrow> (b, Some LineEOF)
            | ReadErr _ m \<Rightarrow> ([], Some (InputFailed m))), br')
      | (Inr c, br') \<Rightarrow>
          (if c = CHR 0x0A then ((drop_cr b, None), br')
           else if mx \<le> int (length b) then (([], Some LineTooLong), skip_line br')
           else bounded_loop mx (b @ [c]) br'))"
  by pat_completeness auto
termination
  by (relation "measure (\<lambda>(_, _, br). length (rd_rest br))") (auto dest!: sym [of _ "read_byte _"] read_byte_shrinks)

declare skip_line.simps [simp del] bounded_loop.simps [simp del]

definition readBoundedLine :: "reader \<Rightarrow> int \<Rightarrow> (string \<times> line_error option) \<times> reader" where
  "readBoundedLine br mx = bounded_loop mx [] br"

text \<open>\<open>strings.TrimRight(s, "\r")\<close>.\<close>

definition trim_right_cr :: "string \<Rightarrow> string" where
  "trim_right_cr s = rev (dropWhile (\<lambda>c. c = CHR 0x0D) (rev s))"

record input_line =
  il_Number :: nat
  il_Text :: string

definition no_line :: input_line where
  "no_line = \<lparr>il_Number = 0, il_Text = []\<rparr>"

definition ReadLine :: "bool \<Rightarrow> input_reader \<Rightarrow> (input_line \<times> line_error option) \<times> input_reader" where
  "ReadLine interrupted r =
     (if interrupted then ((no_line, Some Interrupted), r)
      else case readBoundedLine (ir_br r) (ir_max r) of
        ((text, err), br') \<Rightarrow>
          (let r' = r\<lparr>ir_br := br'\<rparr>; r'' = r'\<lparr>ir_line := Suc (ir_line r)\<rparr> in
           case err of
             Some (InputFailed m) \<Rightarrow> ((no_line, err), r')
           | Some Interrupted \<Rightarrow> ((no_line, err), r')
           | Some LineTooLong \<Rightarrow> ((\<lparr>il_Number = ir_line r'', il_Text = []\<rparr>, err), r'')
           | Some LineEOF \<Rightarrow>
               (if text = [] then ((no_line, err), r')
                else ((\<lparr>il_Number = ir_line r'', il_Text = trim_right_cr text\<rparr>, err), r''))
           | None \<Rightarrow> ((\<lparr>il_Number = ir_line r'', il_Text = trim_right_cr text\<rparr>, None), r'')))"

text \<open>Every line that is not the end of the input takes at least one byte.\<close>

lemma skip_line_le: "length (rd_rest (skip_line br)) \<le> length (rd_rest br)"
proof (induction br rule: skip_line.induct)
  case (1 br)
  then show ?case
    by (subst skip_line.simps)
      (auto simp: read_byte_def split: list.splits if_splits intro: le_SucI)
qed

lemma bounded_loop_shrinks:
  assumes "bounded_loop mx b br = ((t, err), br')" and "err = None \<or> err = Some LineTooLong"
  shows "length (rd_rest br') < length (rd_rest br)"
  using assms
proof (induction mx b br rule: bounded_loop.induct)
  case (1 mx b br)
  show ?case
  proof (cases "rd_rest br")
    case Nil
    with 1(2,3) show ?thesis
      by (subst (asm) bounded_loop.simps) (auto simp: read_byte_def split: io_error.splits)
  next
    case (Cons c cs)
    let ?br1 = "br\<lparr>rd_rest := cs, rd_last := Some c\<rparr>"
    have rb: "read_byte br = (Inr c, ?br1)"
      by (simp add: read_byte_def Cons)
    consider "c = CHR 0x0A" | "c \<noteq> CHR 0x0A" "mx \<le> int (length b)" | "c \<noteq> CHR 0x0A" "\<not> mx \<le> int (length b)"
      by blast
    then show ?thesis
    proof cases
      case 2
      then have "br' = skip_line ?br1"
        using 1(2) by (subst (asm) bounded_loop.simps) (simp add: rb)
      with skip_line_le [of ?br1] Cons show ?thesis by simp
    next
      case 3
      then have "bounded_loop mx (b @ [c]) ?br1 = ((t, err), br')"
        using 1(2) by (subst (asm) bounded_loop.simps) (simp add: rb)
      from 1(1) [OF rb [symmetric] refl 3(1,2) this 1(3)] Cons show ?thesis by simp
    next
      case 1
      then have "br' = ?br1"
        using \<open>bounded_loop mx b br = ((t, err), br')\<close>
        by (subst (asm) bounded_loop.simps) (simp add: rb)
      with Cons show ?thesis by simp
    qed
  qed
qed

lemma ReadLine_shrinks:
  assumes "ReadLine i r = ((got, err), r')" and "err = None \<or> err = Some LineTooLong"
  shows "length (rd_rest (ir_br r')) < length (rd_rest (ir_br r))"
proof -
  obtain t e br' where b: "readBoundedLine (ir_br r) (ir_max r) = ((t, e), br')"
    by (metis prod.collapse)
  with assms have "e = err" "ir_br r' = br'"
    by (auto simp: ReadLine_def Let_def split: if_splits option.splits line_error.splits)
  then show ?thesis
    using bounded_loop_shrinks b assms(2) by (simp add: readBoundedLine_def)
qed

section \<open>Writers and records\<close>

text \<open>What a writer takes of one \<open>Write\<close>: the number of bytes and the error, given what it has already.\<close>

type_synonym sink = "string \<Rightarrow> string \<Rightarrow> nat \<times> string option"

definition write_to :: "sink \<Rightarrow> string \<Rightarrow> string \<Rightarrow> (nat \<times> string option) \<times> string" where
  "write_to w written data = (case w written data of (n, e) \<Rightarrow> ((n, e), written @ take n data))"

record jsonl_record =
  rec_V :: nat
  rec_Line :: nat
  rec_Kind :: string
  rec_Status :: string
  rec_Sent :: "bool option"
  rec_Input :: "string option"
  rec_Output :: "string option"
  rec_FinishReason :: "string option"
  rec_TrimmedPairs :: "nat option"
  rec_Error :: string

definition empty_record :: "nat \<Rightarrow> string \<Rightarrow> jsonl_record" where
  "empty_record line kind = \<lparr>rec_V = 1, rec_Line = line, rec_Kind = kind, rec_Status = [], rec_Sent = None,
     rec_Input = None, rec_Output = None, rec_FinishReason = None, rec_TrimmedPairs = None, rec_Error = []\<rparr>"

definition plain_member :: "string \<Rightarrow> json \<Rightarrow> string \<times> string \<times> json" where
  "plain_member k v = (k, json_print False v, v)"

definition opt_member :: "string \<Rightarrow> ('a \<Rightarrow> json) \<Rightarrow> 'a option \<Rightarrow> (string \<times> string \<times> json) list" where
  "opt_member k f v = (case v of None \<Rightarrow> [] | Some x \<Rightarrow> [plain_member k (f x)])"

definition nonempty :: "string \<Rightarrow> string option" where
  "nonempty s = (if s = [] then None else Some s)"

text \<open>The struct tags: a nil pointer and an empty string field with \<open>omitempty\<close> are left out.\<close>

definition record_json :: "jsonl_record \<Rightarrow> json" where
  "record_json r = JObj
     ([plain_member ''v'' (JNum (show_nat (rec_V r))), plain_member ''line'' (JNum (show_nat (rec_Line r))),
       plain_member ''kind'' (JStr (rec_Kind r))]
      @ opt_member ''status'' JStr (nonempty (rec_Status r))
      @ opt_member ''sent'' JBool (rec_Sent r)
      @ opt_member ''input'' JStr (rec_Input r)
      @ opt_member ''output'' JStr (rec_Output r)
      @ opt_member ''finish_reason'' JStr (rec_FinishReason r)
      @ opt_member ''trimmed_pairs'' (\<lambda>n. JNum (show_nat n)) (rec_TrimmedPairs r)
      @ opt_member ''error'' JStr (nonempty (rec_Error r)))"

definition record_line :: "jsonl_record \<Rightarrow> string" where
  "record_line r = json_print False (record_json r) @ [CHR 0x0A]"

text \<open>Whether the record was written; \<open>Encode\<close> never fails on a record.\<close>

definition WriteRecord :: "sink \<Rightarrow> jsonl_record \<Rightarrow> string \<Rightarrow> bool \<times> string" where
  "WriteRecord w r written =
     (case write_to w written (record_line r) of
        ((n, e), written') \<Rightarrow> (e = None \<and> n = length (record_line r), written'))"

end
