(* ===== verification/ReplLines.thy ===== *)
theory ReplLines imports ReplIO begin

text \<open>
  What \<open>readBoundedLine\<close> returns, against the text that is left: the physical line, its length limit,
  and where the reader stands afterwards.
\<close>

definition not_lf :: "char \<Rightarrow> bool" where
  "not_lf c \<longleftrightarrow> c \<noteq> CHR 0x0A"

text \<open>The line at the head of a text, and the text after it and its newline.\<close>

definition head_line :: "string \<Rightarrow> string" where
  "head_line t = takeWhile not_lf t"

definition after_line :: "string \<Rightarrow> string" where
  "after_line t = drop 1 (dropWhile not_lf t)"

lemma head_line_simps [simp]:
  "head_line [] = []" "head_line (c # t) = (if c = CHR 0x0A then [] else c # head_line t)"
  "after_line [] = []" "after_line (c # t) = (if c = CHR 0x0A then t else after_line t)"
  by (simp_all add: head_line_def after_line_def not_lf_def)

lemma read_byte_cases:
  "read_byte br = (case rd_rest br of [] \<Rightarrow> (Inl (rd_stop br), br)
     | c # cs \<Rightarrow> (Inr c, br\<lparr>rd_rest := cs, rd_last := Some c\<rparr>))"
  by (simp add: read_byte_def)

lemma skip_line_rest: "rd_rest (skip_line br) = after_line (rd_rest br)"
proof (induction br rule: skip_line.induct)
  case (1 br)
  then show ?case
    by (subst skip_line.simps) (auto simp: read_byte_cases split: list.splits)
qed

definition line_result :: "int \<Rightarrow> string \<Rightarrow> io_error \<Rightarrow> string \<Rightarrow> string \<times> line_error option" where
  "line_result mx b stop t =
     (if mx < int (length b + length (head_line t)) then ([], Some LineTooLong)
      else if CHR 0x0A \<in> set t then (drop_cr (b @ head_line t), None)
      else case stop of
        EOF \<Rightarrow> (b @ t, Some LineEOF)
      | ReadErr _ m \<Rightarrow> ([], Some (InputFailed m)))"

lemma bounded_loop_exact:
  assumes "int (length b) \<le> mx"
  shows "\<exists>br'. bounded_loop mx b br = (line_result mx b (rd_stop br) (rd_rest br), br')
     \<and> rd_rest br' = after_line (rd_rest br)"
  using assms
proof (induction mx b br rule: bounded_loop.induct)
  case (1 mx b br)
  show ?case
  proof (cases "rd_rest br")
    case Nil
    with 1(2) show ?thesis
      by (subst bounded_loop.simps) (auto simp: read_byte_cases line_result_def split: io_error.split)
  next
    case (Cons c cs)
    let ?br1 = "br\<lparr>rd_rest := cs, rd_last := Some c\<rparr>"
    have rb: "read_byte br = (Inr c, ?br1)"
      by (simp add: read_byte_def Cons)
    consider "c = CHR 0x0A" | "c \<noteq> CHR 0x0A" "mx \<le> int (length b)" | "c \<noteq> CHR 0x0A" "\<not> mx \<le> int (length b)"
      by blast
    then show ?thesis
    proof cases
      case 1
      with Cons \<open>int (length b) \<le> mx\<close> show ?thesis
        by (subst bounded_loop.simps) (simp add: rb line_result_def)
    next
      case 2
      with Cons show ?thesis
        by (subst bounded_loop.simps) (simp add: rb line_result_def skip_line_rest)
    next
      case 3
      with 1(1) [OF rb [symmetric] refl] have "\<exists>br'. bounded_loop mx (b @ [c]) ?br1 =
          (line_result mx (b @ [c]) (rd_stop br) cs, br') \<and> rd_rest br' = after_line cs"
        by simp
      moreover have "line_result mx (b @ [c]) (rd_stop br) cs = line_result mx b (rd_stop br) (c # cs)"
        using 3(1) by (simp add: line_result_def split: io_error.split)
      ultimately show ?thesis
        using Cons 3 by (subst bounded_loop.simps) (simp add: rb)
    qed
  qed
qed

text \<open>C35: lines are cut exactly: \<open>readBoundedLine\<close> reads up to and including the next newline, whatever it
  answers, so the next call starts at the next line; it answers with the line, without one carriage
  return before the newline, if the line has at most the limit's bytes and ends in a newline, with
  the unterminated rest and end of file (or the read error) at the end, and with \<open>errLineTooLong\<close>,
  keeping none of it, exactly if the line is longer than the limit.\<close>

theorem readBoundedLine_exact:
  assumes "0 \<le> mx"
  shows "\<exists>br'. rd_rest br' = after_line (rd_rest br)
     \<and> readBoundedLine br mx =
        (let line = head_line (rd_rest br) in
         if mx < int (length line) then (([], Some LineTooLong), br')
         else if CHR 0x0A \<in> set (rd_rest br) then ((drop_cr line, None), br')
         else case rd_stop br of
           EOF \<Rightarrow> ((rd_rest br, Some LineEOF), br')
         | ReadErr _ m \<Rightarrow> (([], Some (InputFailed m)), br'))"
  using bounded_loop_exact [of "[]" mx br] assms
  by (auto simp: readBoundedLine_def line_result_def Let_def split: io_error.split)

theorem readBoundedLine_exact_witness:
  "fst (readBoundedLine (new_reader (''abcd'' @ [CHR 0x0A] @ ''e'') EOF) 3) = ([], Some LineTooLong)
   \<and> rd_rest (snd (readBoundedLine (new_reader (''abcd'' @ [CHR 0x0A] @ ''e'') EOF) 3)) = ''e''"
  using readBoundedLine_exact [of 3 "new_reader (''abcd'' @ [CHR 0x0A] @ ''e'') EOF"]
  by (auto simp: new_reader_def)

end
