(* ===== verification/GoFlag.thy ===== *)
theory GoFlag imports GoText begin

text \<open>
  The standard \<open>flag\<close> package as both commands use it: a set of string flags under
  \<open>ContinueOnError\<close>.  Parsing goes through the arguments up to the first one that is no flag and
  returns what stopped it, the values given and the arguments that are left.
\<close>

datatype flag_error = ErrHelp | FlagFailure string

type_synonym flag_values = "(string \<times> string) list"

definition flag_value :: "flag_values \<Rightarrow> string \<Rightarrow> string \<Rightarrow> string" where
  "flag_value vals name dflt = (case map_of vals name of None \<Rightarrow> dflt | Some v \<Rightarrow> v)"

text \<open>What an argument is to the parser: no flag, the terminator, or a flag name with its inline value.\<close>

datatype flag_arg = NoFlag | Terminator | BadFlag | Flag string "string option"

definition flag_name :: "string \<Rightarrow> flag_arg" where
  "flag_name name =
     (if name = [] \<or> hd name = CHR ''-'' \<or> hd name = CHR ''='' then BadFlag
      else case cut name (CHR ''='') of (n, v, ok) \<Rightarrow> Flag n (if ok then Some v else None))"

definition classify_arg :: "string \<Rightarrow> flag_arg" where
  "classify_arg s =
     (if length s < 2 \<or> hd s \<noteq> CHR ''-'' then NoFlag
      else if s ! 1 = CHR ''-'' then (if length s = 2 then Terminator else flag_name (drop 2 s))
      else flag_name (drop 1 s))"

fun flag_parse ::
  "string list \<Rightarrow> flag_values \<Rightarrow> string list \<Rightarrow> flag_error option \<times> flag_values \<times> string list" where
  "flag_parse formal vals [] = (None, vals, [])"
| "flag_parse formal vals (s # args) =
     (case classify_arg s of
        NoFlag \<Rightarrow> (None, vals, s # args)
      | Terminator \<Rightarrow> (None, vals, args)
      | BadFlag \<Rightarrow> (Some (FlagFailure (''bad flag syntax: '' @ s)), vals, s # args)
      | Flag name inline \<Rightarrow>
          (if name \<notin> set formal then
             (if name = ''help'' \<or> name = ''h'' then (Some ErrHelp, vals, args)
              else (Some (FlagFailure (''flag provided but not defined: -'' @ name)), vals, args))
           else case inline of
             Some v \<Rightarrow> flag_parse formal ((name, v) # vals) args
           | None \<Rightarrow>
               (case args of
                  [] \<Rightarrow> (Some (FlagFailure (''flag needs an argument: -'' @ name)), vals, [])
                | v # args' \<Rightarrow> flag_parse formal ((name, v) # vals) args')))"

end
