(* ===== verification/Repl.thy ===== *)
theory Repl imports ReplIO ClientProps begin

text \<open>
  \<open>internal/repl/repl.go\<close> and \<open>internal/repl/signal.go\<close>: the loop of \<open>runOpts\<close>, one iteration a step.

  The state is the conversation, the input reader, the failed-turn flag and what the three writers have
  taken.  The environment fixes the completion function of the client, what the context says at the
  points where the code asks it (by iteration), the signal that cancelled it, and the writers.
\<close>

section \<open>Options, environment and state\<close>

definition ExitOK :: int where "ExitOK = 0"
definition ExitError :: int where "ExitError = 1"
definition ExitInterrupt :: int where "ExitInterrupt = 130"
definition ExitTerminated :: int where "ExitTerminated = 143"
definition minInputBound :: int where "minInputBound = 4096"
definition prompt :: string where "prompt = ''> ''"

type_synonym completion =
  "nat \<Rightarrow> message list \<Rightarrow> int64 \<Rightarrow> string callback \<Rightarrow> string \<Rightarrow> stream_result \<times> client_error option \<times> string"

text \<open>\<open>internal/repl/signal.go\<close>: the cause a context carries and the signal stored in it.\<close>

datatype signal = SIGINT | SIGTERM

record interrupt_cause =
  ic_sig :: "signal option"

definition NewInterruptCause :: interrupt_cause where
  "NewInterruptCause = \<lparr>ic_sig = None\<rparr>"

definition Store :: "interrupt_cause option \<Rightarrow> signal option \<Rightarrow> interrupt_cause option" where
  "Store c sig =
     (case (c, sig) of
        (Some cause, Some s) \<Rightarrow> Some (cause\<lparr>ic_sig := Some s\<rparr>)
      | _ \<Rightarrow> c)"

record repl_env =
  en_complete :: completion
  en_done :: "nat \<Rightarrow> bool"        \<comment> \<open>the context's error at the top of an iteration\<close>
  en_interrupt :: "nat \<Rightarrow> bool"   \<comment> \<open>cancelled while waiting for the line\<close>
  en_after :: "nat \<Rightarrow> bool"       \<comment> \<open>the context's error after a failed stream\<close>
  en_cause :: "interrupt_cause option"   \<comment> \<open>the cause the context carries, if any\<close>
  en_interactive :: bool
  en_printable :: printable
  en_out :: sink
  en_records :: "sink option"
  en_JSONLStdout :: bool

record repl_state =
  rs_conv :: conversation
  rs_input :: input_reader
  rs_failedTurn :: bool
  rs_iter :: nat
  rs_out :: string
  rs_errw :: string
  rs_rec :: string
  rs_written :: "jsonl_record list"    \<comment> \<open>the records written completely\<close>

definition interruptExit :: "repl_env \<Rightarrow> int" where
  "interruptExit en =
     (case en_cause en of
        Some c \<Rightarrow> (if ic_sig c = Some SIGTERM then ExitTerminated else ExitInterrupt)
      | None \<Rightarrow> ExitInterrupt)"

fun chat_error_text :: "chat_error \<Rightarrow> string" where
  "chat_error_text AlreadyStaged = ''a turn is already staged; commit or abort it first''"
| "chat_error_text DoesNotFit = ''message does not fit in context_budget with the system prompt and generation_reserve; shorten the input, reduce generation_reserve, or increase context_budget''"
| "chat_error_text chat_error.NotPositive = ''context_budget and generation_reserve must be positive''"
| "chat_error_text UnitOverflow = ''context accounting overflow''"
| "chat_error_text NothingStaged = ''no staged turn to commit''"

section \<open>Output\<close>

definition nl :: string where "nl = [CHR 0x0A]"

definition say :: "string \<Rightarrow> repl_state \<Rightarrow> repl_state" where
  "say t st = st\<lparr>rs_errw := rs_errw st @ t @ nl\<rparr>"

definition emit :: "repl_env \<Rightarrow> jsonl_record \<Rightarrow> repl_state \<Rightarrow> bool \<times> repl_state" where
  "emit en r st =
     (case en_records en of
        None \<Rightarrow> (True, st)
      | Some w \<Rightarrow>
          (case WriteRecord w r (rs_rec st) of
             (ok, t) \<Rightarrow> (ok, st\<lparr>rs_rec := t, rs_written := rs_written st @ (if ok then [r] else [])\<rparr>)))"

text \<open>\<open>fmt.Fprintln(out)\<close>, whose error is dropped.\<close>

definition out_newline :: "repl_env \<Rightarrow> repl_state \<Rightarrow> repl_state" where
  "out_newline en st = st\<lparr>rs_out := snd (write_to (en_out en) (rs_out st) nl)\<rparr>"

definition onDelta :: "repl_env \<Rightarrow> string callback" where
  "onDelta en =
     (if en_JSONLStdout en then None
      else Some (\<lambda>t delta. case write_to (en_out en) t delta of ((n, e), t') \<Rightarrow> (e, t')))"

section \<open>One iteration\<close>

text \<open>An iteration either ends the run with an exit code or goes on.\<close>

type_synonym verdict = "int option \<times> repl_state"

definition fail_turn :: "repl_state \<Rightarrow> repl_state" where
  "fail_turn st = st\<lparr>rs_failedTurn := True\<rparr>"

definition at_eof :: "bool \<Rightarrow> repl_state \<Rightarrow> verdict" where
  "at_eof eof st = (if eof then (Some (if rs_failedTurn st then ExitError else ExitOK), st) else (None, st))"

text \<open>Emit a record, then go on or stop at the end of the input.\<close>

definition emit_then :: "repl_env \<Rightarrow> jsonl_record \<Rightarrow> bool \<Rightarrow> repl_state \<Rightarrow> verdict" where
  "emit_then en r eof st =
     (case emit en r st of (ok, st') \<Rightarrow> if ok then at_eof eof st' else (Some ExitError, st'))"

definition handleCommand ::
  "repl_env \<Rightarrow> string \<Rightarrow> nat \<Rightarrow> repl_state \<Rightarrow> (int \<times> bool) \<times> repl_state" where
  "handleCommand en line lineNo st =
     (let cmd = trim_space line in
      if cmd = ''/quit'' then
        (case emit en (empty_record lineNo ''quit'') st of
           (ok, st') \<Rightarrow> ((if ok then ExitOK else ExitError, True), st'))
      else if cmd = ''/clear'' then
        (case emit en (empty_record lineNo ''clear'')
            (say ''conversation cleared'' (st\<lparr>rs_conv := Clear (rs_conv st)\<rparr>)) of
           (ok, st') \<Rightarrow> ((if ok then - 1 else ExitError, True), st'))
      else ((0, False), st))"

definition turn_record :: "nat \<Rightarrow> string \<Rightarrow> bool option \<Rightarrow> string option \<Rightarrow> string \<Rightarrow> jsonl_record" where
  "turn_record lineNo status sent inp err =
     (empty_record lineNo ''turn'')\<lparr>rec_Status := status, rec_Sent := sent, rec_Input := inp, rec_Error := err\<rparr>"

definition ctx_failure :: "client_error \<Rightarrow> bool" where
  "ctx_failure e = (case e of StreamFailed (CtxErr _) \<Rightarrow> True | _ \<Rightarrow> False)"

text \<open>The newline that ends the printed reply.\<close>

definition end_reply :: "repl_env \<Rightarrow> stream_result \<Rightarrow> client_error option \<Rightarrow> repl_state \<Rightarrow> repl_state" where
  "end_reply en res err st =
     (if en_JSONLStdout en then st
      else if sr_Text res \<noteq> [] \<and> \<not> has_suffix (sr_Text res) nl then out_newline en st
      else if sr_Text res = [] \<and> err = None then out_newline en st
      else st)"

definition finish_turn ::
  "repl_env \<Rightarrow> string \<Rightarrow> nat \<Rightarrow> nat \<Rightarrow> bool \<Rightarrow> stream_result \<Rightarrow> client_error option \<Rightarrow> repl_state \<Rightarrow> verdict" where
  "finish_turn en line lineNo trimmed eof res err st =
     (case err of
        Some e \<Rightarrow>
          (let st = st\<lparr>rs_conv := Abort (rs_conv st)\<rparr>; sent = Some (sr_RequestSent res) in
           if ctx_failure e \<or> en_after en (rs_iter st) then
             (Some (interruptExit en),
              snd (emit en (turn_record lineNo ''interrupted'' sent (Some line) [])
                (say ''interrupted; in-flight turn discarded'' st)))
           else
             let msg = error_text (en_printable en) e in
             emit_then en (turn_record lineNo ''error'' sent (Some line) msg) eof (fail_turn (say msg st)))
      | None \<Rightarrow>
          (case Commit (rs_conv st) (sr_Text res) of
             (Some ce, c) \<Rightarrow> (Some ExitError, say (chat_error_text ce) (st\<lparr>rs_conv := c\<rparr>))
           | (None, c) \<Rightarrow>
               emit_then en
                 ((turn_record lineNo ''ok'' None (Some line) [])\<lparr>rec_Output := Some (sr_Text res),
                    rec_FinishReason := Some (sr_FinishReason res), rec_TrimmedPairs := Some trimmed\<rparr>)
                 eof (st\<lparr>rs_conv := c\<rparr>)))"

definition trim_notice :: "nat \<Rightarrow> repl_state \<Rightarrow> repl_state" where
  "trim_notice trimmed st =
     (if 0 < trimmed
      then say (''dropped '' @ show_nat trimmed @ '' older turn(s) to stay within context_budget'') st
      else st)"

definition take_turn :: "repl_env \<Rightarrow> string \<Rightarrow> nat \<Rightarrow> bool \<Rightarrow> repl_state \<Rightarrow> verdict" where
  "take_turn en line lineNo eof st =
     (case Stage (rs_conv st) line of
        (Inl e, c) \<Rightarrow>
          emit_then en (turn_record lineNo ''error'' (Some False) (Some line) (chat_error_text e)) eof
            (fail_turn (say (chat_error_text e) (st\<lparr>rs_conv := c\<rparr>)))
      | (Inr (msgs, trimmed), c) \<Rightarrow>
          (let st = trim_notice trimmed (st\<lparr>rs_conv := c\<rparr>) in
           case en_complete en (rs_iter st) msgs (StreamLimit (rs_conv st)) (onDelta en) (rs_out st) of
             (res, err, t) \<Rightarrow>
               finish_turn en line lineNo trimmed eof res err (end_reply en res err (st\<lparr>rs_out := t\<rparr>))))"

definition unknown_command :: "repl_env \<Rightarrow> string \<Rightarrow> nat \<Rightarrow> bool \<Rightarrow> repl_state \<Rightarrow> verdict" where
  "unknown_command en line lineNo eof st =
     emit_then en ((empty_record lineNo ''command_error'')\<lparr>rec_Input := Some line, rec_Error := ''unknown command''\<rparr>)
       eof
       (fail_turn (say (''unknown command '' @ go_quote (en_printable en) (trim_space line)
          @ ''; known commands are /clear and /quit'') st))"

definition handle_line :: "repl_env \<Rightarrow> string \<Rightarrow> nat \<Rightarrow> bool \<Rightarrow> repl_state \<Rightarrow> verdict" where
  "handle_line en line lineNo eof st =
     (if trim_space line = [] then at_eof eof st
      else case handleCommand en line lineNo st of
        ((code, True), st') \<Rightarrow> (if 0 \<le> code then (Some code, st') else at_eof eof st')
      | ((_, False), st') \<Rightarrow>
          (if has_prefix (trim_space line) ''/'' then unknown_command en line lineNo eof st'
           else take_turn en line lineNo eof st'))"

definition drop_staged :: "repl_state \<Rightarrow> repl_state" where
  "drop_staged st = (if HasStaged (rs_conv st) then st\<lparr>rs_conv := Abort (rs_conv st)\<rparr> else st)"

definition repl_step :: "repl_env \<Rightarrow> repl_state \<Rightarrow> verdict" where
  "repl_step en st0 =
     (let k = rs_iter st0 in
      if en_done en k then (Some (interruptExit en), drop_staged st0)
      else
        let st = (if en_interactive en then st0\<lparr>rs_errw := rs_errw st0 @ prompt\<rparr> else st0) in
        case ReadLine (en_interrupt en k) (rs_input st) of
          ((got, err), input) \<Rightarrow>
            (let st = st\<lparr>rs_input := input\<rparr>; lineNo = il_Number got in
             case err of
               Some Interrupted \<Rightarrow> (Some (interruptExit en), say ''interrupted'' (drop_staged st))
             | Some LineTooLong \<Rightarrow>
                 emit_then en (turn_record lineNo ''error'' (Some False) None ''line too long'') False
                   (fail_turn (say (''input line exceeds '' @ show_int (ir_max (rs_input st))
                      @ '' bytes; shorten the message or raise context_budget'') st))
             | Some (InputFailed m) \<Rightarrow> (Some ExitError, say (''cannot read input: '' @ m) st)
             | Some LineEOF \<Rightarrow> handle_line en (il_Text got) lineNo True st
             | None \<Rightarrow> handle_line en (il_Text got) lineNo False st))"

section \<open>The whole run\<close>

lemma emit_input: "emit en r st = (ok, st') \<Longrightarrow> rs_input st' = rs_input st"
  by (auto simp: emit_def split: option.splits prod.splits)

lemma emit_then_input: "emit_then en r eof st = (v, st') \<Longrightarrow> rs_input st' = rs_input st"
  by (auto simp: emit_then_def at_eof_def dest: emit_input split: prod.splits if_splits)

lemma say_input [simp]: "rs_input (say t st) = rs_input st" "rs_input (fail_turn st) = rs_input st"
  "rs_input (end_reply en res err st) = rs_input st" "rs_input (trim_notice k st) = rs_input st"
  by (simp_all add: say_def fail_turn_def end_reply_def out_newline_def trim_notice_def)

lemma finish_turn_input:
  "finish_turn en line n trimmed eof res err st = (None, st') \<Longrightarrow> rs_input st' = rs_input st"
  by (auto simp: finish_turn_def Let_def dest!: emit_then_input split: option.splits prod.splits if_splits)

lemma take_turn_input: "take_turn en line n eof st = (None, st') \<Longrightarrow> rs_input st' = rs_input st"
  by (auto simp: take_turn_def Let_def dest!: emit_then_input finish_turn_input split: sum.splits prod.splits if_splits)

lemma handle_line_input: "handle_line en line n eof st = (None, st') \<Longrightarrow> rs_input st' = rs_input st"
  by (auto simp: handle_line_def at_eof_def handleCommand_def unknown_command_def Let_def
      dest!: emit_then_input take_turn_input emit_input split: prod.splits bool.splits if_splits)

definition remaining :: "repl_state \<Rightarrow> nat" where
  "remaining st = length (rd_rest (ir_br (rs_input st)))"

lemma emit_then_eof: "emit_then en r True st \<noteq> (None, st')"
  by (simp add: emit_then_def at_eof_def split: prod.split)

lemma handle_line_eof: "handle_line en line n True st \<noteq> (None, st')"
proof -
  have "finish_turn en line n trimmed True res err u \<noteq> (None, st')" for trimmed res err u
    by (auto simp: finish_turn_def Let_def emit_then_eof split: option.splits prod.splits)
  then have "take_turn en line n True u \<noteq> (None, st')" for u
    by (auto simp: take_turn_def Let_def emit_then_eof split: sum.splits prod.splits)
  then show ?thesis
    by (auto simp: handle_line_def at_eof_def unknown_command_def emit_then_eof split: prod.splits bool.splits)
qed

text \<open>What an iteration that goes on has read.\<close>

lemma repl_step_reads:
  assumes "repl_step en st = (None, st')"
  shows "\<exists>got err. ReadLine False (rs_input st) = ((got, err), rs_input st') \<and> (err = None \<or> err = Some LineTooLong)"
proof -
  obtain got err input where rl: "ReadLine (en_interrupt en (rs_iter st)) (rs_input st) = ((got, err), input)"
    by (metis prod.collapse)
  have e: "err = None \<or> err = Some LineTooLong" and i: "rs_input st' = input"
    using assms rl handle_line_eof
    by (auto simp: repl_step_def Let_def dest!: emit_then_input handle_line_input
        split: prod.splits option.splits line_error.splits if_splits)
  have "\<not> en_interrupt en (rs_iter st)"
    using rl e by (auto simp: ReadLine_def)
  with rl e i show ?thesis by auto
qed

lemma repl_step_shrinks: "repl_step en st = (None, st') \<Longrightarrow> remaining st' < remaining st"
  using repl_step_reads ReadLine_shrinks unfolding remaining_def by blast

function run_loop :: "repl_env \<Rightarrow> repl_state \<Rightarrow> int \<times> repl_state" where
  "run_loop en st =
     (case repl_step en st of
        (Some code, st') \<Rightarrow> (code, st')
      | (None, st') \<Rightarrow> run_loop en (st'\<lparr>rs_iter := Suc (rs_iter st')\<rparr>))"
  by pat_completeness auto
termination
  by (relation "measure (\<lambda>(en, st). remaining st)")
    (auto simp: remaining_def dest!: sym [of _ "repl_step _ _"] repl_step_shrinks)

declare run_loop.simps [simp del]

definition repl_start :: "config \<Rightarrow> reader \<Rightarrow> repl_state" where
  "repl_start cfg inp =
     \<lparr>rs_conv = New (cfg_ContextBudget cfg) (cfg_GenerationReserve cfg) (cfg_SystemPrompt cfg),
      rs_input = newInputReader inp (max minInputBound (sint (cfg_ContextBudget cfg))),
      rs_failedTurn = False, rs_iter = 0, rs_out = [], rs_errw = [], rs_rec = [], rs_written = []\<rparr>"

definition runOpts :: "repl_env \<Rightarrow> config \<Rightarrow> reader \<Rightarrow> int \<times> repl_state" where
  "runOpts en cfg inp = run_loop en (repl_start cfg inp)"

text \<open>The completion function of a client: a fresh exchange with the world of each iteration.\<close>

definition client_completion :: "client \<Rightarrow> (nat \<Rightarrow> world) \<Rightarrow> completion" where
  "client_completion cl worlds k msgs limit cb s = StreamResult (worlds k) cl msgs limit cb s"

section \<open>Entry points\<close>

record run_options =
  opt_Client :: "client option"
  opt_Records :: "sink option"
  opt_JSONLStdout :: bool

definition no_options :: run_options where
  "no_options = \<lparr>opt_Client = None, opt_Records = None, opt_JSONLStdout = False\<rparr>"

text \<open>The environment of a run: what the caller's context and writers are, and what the options choose.\<close>

definition with_options :: "repl_env \<Rightarrow> (nat \<Rightarrow> world) \<Rightarrow> config \<Rightarrow> run_options \<Rightarrow> repl_env" where
  "with_options en worlds cfg opt =
     (let cl = (case opt_Client opt of None \<Rightarrow> New_client cfg zero_options | Some cl \<Rightarrow> cl) in
      en\<lparr>en_complete := client_completion cl worlds, en_records := opt_Records opt,
         en_JSONLStdout := opt_JSONLStdout opt\<rparr>)"

definition RunWithOptions ::
  "repl_env \<Rightarrow> (nat \<Rightarrow> world) \<Rightarrow> config \<Rightarrow> reader \<Rightarrow> run_options \<Rightarrow> int \<times> repl_state" where
  "RunWithOptions en worlds cfg inp opt = runOpts (with_options en worlds cfg opt) cfg inp"

definition Run :: "repl_env \<Rightarrow> (nat \<Rightarrow> world) \<Rightarrow> config \<Rightarrow> reader \<Rightarrow> int \<times> repl_state" where
  "Run en worlds cfg inp = RunWithOptions en worlds cfg inp no_options"

end
