(* ===== verification/ReplProps.thy ===== *)
theory ReplProps imports Repl begin

text \<open>
  What a run of the REPL guarantees: it performs turns of the store, its records tell which, its exit
  code and line numbers agree with them, and in JSONL mode nothing else reaches standard output.
\<close>

section \<open>Records that are written\<close>

text \<open>A record writer that takes everything.\<close>

definition records_kept :: "repl_env \<Rightarrow> bool" where
  "records_kept en \<longleftrightarrow> en_records en = Some (\<lambda>written data. (length data, None))"

definition log_step :: "exchange list \<Rightarrow> jsonl_record \<Rightarrow> exchange list" where
  "log_step log r =
     (if rec_Kind r = ''clear'' then []
      else case (rec_Input r, rec_Output r) of
        (Some i, Some out) \<Rightarrow> log @ [(i, out)]
      | _ \<Rightarrow> log)"

definition log_of :: "jsonl_record list \<Rightarrow> exchange list" where
  "log_of rs = foldl log_step [] rs"

definition failed_record :: "jsonl_record \<Rightarrow> bool" where
  "failed_record r \<longleftrightarrow> rec_Status r = ''error'' \<or> rec_Kind r = ''command_error''"

lemma emit_kept:
  assumes "records_kept en"
  shows "emit en r st = (True, st\<lparr>rs_rec := rs_rec st @ record_line r, rs_written := rs_written st @ [r]\<rparr>)"
  using assms by (simp add: emit_def records_kept_def WriteRecord_def write_to_def)

definition wrote :: "jsonl_record \<Rightarrow> repl_state \<Rightarrow> repl_state" where
  "wrote r st = st\<lparr>rs_rec := rs_rec st @ record_line r, rs_written := rs_written st @ [r]\<rparr>"

lemma wrote_sel [simp]:
  "rs_conv (wrote r st) = rs_conv st" "rs_input (wrote r st) = rs_input st"
  "rs_failedTurn (wrote r st) = rs_failedTurn st" "rs_iter (wrote r st) = rs_iter st"
  "rs_out (wrote r st) = rs_out st" "rs_errw (wrote r st) = rs_errw st"
  "rs_rec (wrote r st) = rs_rec st @ record_line r" "rs_written (wrote r st) = rs_written st @ [r]"
  by (simp_all add: wrote_def)

lemma emit_then_kept: "records_kept en \<Longrightarrow> emit_then en r eof st = at_eof eof (wrote r st)"
  by (simp add: emit_then_def emit_kept wrote_def)

lemma at_eof_state [simp]: "snd (at_eof eof st) = st"
  by (simp add: at_eof_def)

lemma say_sel [simp]:
  "rs_conv (say t st) = rs_conv st" "rs_failedTurn (say t st) = rs_failedTurn st" "rs_iter (say t st) = rs_iter st"
  "rs_out (say t st) = rs_out st" "rs_rec (say t st) = rs_rec st" "rs_written (say t st) = rs_written st"
  by (simp_all add: say_def)

lemma fail_turn_sel [simp]:
  "rs_conv (fail_turn st) = rs_conv st" "rs_failedTurn (fail_turn st)" "rs_iter (fail_turn st) = rs_iter st"
  "rs_out (fail_turn st) = rs_out st" "rs_rec (fail_turn st) = rs_rec st" "rs_written (fail_turn st) = rs_written st"
  by (simp_all add: fail_turn_def)

lemma end_reply_sel [simp]:
  "rs_conv (end_reply en res err st) = rs_conv st" "rs_failedTurn (end_reply en res err st) = rs_failedTurn st"
  "rs_iter (end_reply en res err st) = rs_iter st"
  "rs_rec (end_reply en res err st) = rs_rec st" "rs_written (end_reply en res err st) = rs_written st"
  by (simp_all add: end_reply_def out_newline_def)

lemma trim_notice_sel [simp]:
  "rs_conv (trim_notice k st) = rs_conv st" "rs_failedTurn (trim_notice k st) = rs_failedTurn st"
  "rs_iter (trim_notice k st) = rs_iter st" "rs_out (trim_notice k st) = rs_out st"
  "rs_rec (trim_notice k st) = rs_rec st" "rs_written (trim_notice k st) = rs_written st"
  by (simp_all add: trim_notice_def)

section \<open>One iteration\<close>

text \<open>
  The outcomes of an iteration: it ended or continued without touching conversation or records, or it
  wrote one record for the line it read.
\<close>

lemma turn_record_sel [simp]:
  "rec_Kind (turn_record n s sent i e) = ''turn''" "rec_Line (turn_record n s sent i e) = n"
  "rec_Status (turn_record n s sent i e) = s" "rec_Input (turn_record n s sent i e) = i"
  "rec_Output (turn_record n s sent i e) = None" "rec_Error (turn_record n s sent i e) = e"
  "rec_Sent (turn_record n s sent i e) = sent"
  by (simp_all add: turn_record_def empty_record_def)

lemma empty_record_sel [simp]:
  "rec_Kind (empty_record n k) = k" "rec_Line (empty_record n k) = n" "rec_Status (empty_record n k) = []"
  "rec_Input (empty_record n k) = None" "rec_Output (empty_record n k) = None" "rec_Error (empty_record n k) = []"
  by (simp_all add: empty_record_def)

lemma log_of_snoc [simp]: "log_of (rs @ [r]) = log_step (log_of rs) r"
  by (simp add: log_of_def)

type_synonym store_state = "conversation \<times> exchange list"

definition store :: "repl_state \<Rightarrow> store_state" where
  "store st = (rs_conv st, log_of (rs_written st))"

text \<open>Some turn, or none, leads from one store to the other.\<close>

definition turns_to :: "store_state \<Rightarrow> store_state \<Rightarrow> bool" where
  "turns_to s s' \<longleftrightarrow> (\<exists>ts. run_turns Stage Commit Abort Clear ts s = s')"

lemma turns_to_refl [simp]: "turns_to s s"
  by (auto simp: turns_to_def run_turns_def intro: exI [of _ "[]"])

lemma turns_to_trans: "turns_to a b \<Longrightarrow> turns_to b c \<Longrightarrow> turns_to a c"
  unfolding turns_to_def run_turns_def by (metis comp_apply fold_append)

lemma turns_to_turn: "turns_to s (run_turn Stage Commit Abort Clear t s)"
  by (auto simp: turns_to_def run_turns_def intro: exI [of _ "[t]"])

lemma Commit_after_Stage:
  "Stage c u = (Inr r, c') \<Longrightarrow> \<exists>c''. Commit c' a = (None, c'')"
  using Stage_ok by (cases r) (fastforce simp: Commit_def split: option.split)

lemma take_turn_store:
  assumes "records_kept en" and "take_turn en line n eof st = (v, st')"
  shows "turns_to (store st) (store st')"
proof -
  obtain res c where stg: "Stage (rs_conv st) line = (res, c)" by (cases "Stage (rs_conv st) line")
  show ?thesis
  proof (cases res)
    case (Inl e)
    then have "c = rs_conv st" using stg Stage_fails by simp
    with Inl stg assms show ?thesis
      by (auto simp: take_turn_def emit_then_kept store_def log_step_def at_eof_def split: if_splits)
  next
    case (Inr mt)
    obtain msgs trimmed where mt: "mt = (msgs, trimmed)" by (cases mt)
    define st1 where "st1 = st\<lparr>rs_conv := c\<rparr>"
    define st2 where "st2 = trim_notice trimmed st1"
    obtain r err t where comp: "en_complete en (rs_iter st) msgs (StreamLimit c) (onDelta en) (rs_out st) = (r, err, t)" by (metis prod.collapse)
    define st3 where "st3 = end_reply en r err (st2\<lparr>rs_out := t\<rparr>)"
    have fin: "finish_turn en line n trimmed eof r err st3 = (v, st')"
      using assms(2) stg Inr mt comp
      by (simp add: take_turn_def Let_def st3_def flip: st1_def st2_def)
    have s3: "rs_conv st3 = c" "rs_written st3 = rs_written st"
      by (auto simp: st3_def st2_def st1_def)
    show ?thesis
    proof (cases err)
      case (Some e)
      then have "store st' = run_turn Stage Commit Abort Clear (Say line (\<lambda>_. None)) (store st)"
        using fin s3 stg Inr assms(1)
        by (auto simp: finish_turn_def Let_def emit_then_kept emit_kept store_def log_step_def at_eof_def
            split: if_splits)
      then show ?thesis by (simp add: turns_to_turn)
    next
      case None
      obtain c'' where com: "Commit c (sr_Text r) = (None, c'')"
        using Commit_after_Stage stg Inr by blast
      with None have "store st' = run_turn Stage Commit Abort Clear (Say line (\<lambda>_. Some (sr_Text r))) (store st)"
        using fin s3 stg Inr assms(1)
        by (auto simp: finish_turn_def emit_then_kept store_def log_step_def at_eof_def split: if_splits)
      then show ?thesis by (simp add: turns_to_turn)
    qed
  qed
qed

lemma handle_line_store:
  assumes "records_kept en" and "handle_line en line n eof st = (v, st')"
  shows "turns_to (store st) (store st')"
proof -
  consider "trim_space line = []" | "trim_space line = ''/quit''" | "trim_space line = ''/clear''"
    | "trim_space line \<notin> {[], ''/quit'', ''/clear''}" by blast
  then show ?thesis
  proof cases
    case 3
    then have "store st' = run_turn Stage Commit Abort Clear Reset (store st)"
      using assms
      by (auto simp: handle_line_def handleCommand_def emit_kept at_eof_def store_def log_step_def split: if_splits)
    then show ?thesis by (simp add: turns_to_turn)
  next
    case 4
    then show ?thesis
      using assms take_turn_store [OF assms(1)]
      by (auto simp: handle_line_def handleCommand_def unknown_command_def emit_then_kept at_eof_def store_def
          log_step_def split: if_splits)
  qed (use assms in \<open>auto simp: handle_line_def handleCommand_def emit_kept at_eof_def store_def log_step_def
      split: if_splits\<close>)
qed

lemma repl_step_store:
  assumes "records_kept en" and "repl_step en st = (v, st')" and "c_staged (rs_conv st) = None"
  shows "turns_to (store st) (store st')"
proof -
  have drop: "drop_staged u = u" if "rs_conv u = rs_conv st" for u
    using assms(3) that by (simp add: drop_staged_def HasStaged_def)
  obtain got err input where rl: "ReadLine (en_interrupt en (rs_iter st)) (rs_input st) = ((got, err), input)"
    by (metis prod.collapse)
  define st1 where "st1 = (if en_interactive en then st\<lparr>rs_errw := rs_errw st @ prompt\<rparr> else st)\<lparr>rs_input := input\<rparr>"
  have same: "store st1 = store st" "rs_conv st1 = rs_conv st"
    by (simp_all add: st1_def store_def)
  have "en_done en (rs_iter st) \<and> st' = st \<or> err = Some Interrupted \<and> st' = say ''interrupted'' st1
     \<or> (\<exists>m. st' = say m st1) \<or> (\<exists>t n. st' = wrote (turn_record n ''error'' (Some False) None ''line too long'') (fail_turn (say t st1)))
     \<or> (\<exists>eof. handle_line en (il_Text got) (il_Number got) eof st1 = (v, st'))"
    using assms(1,2) rl drop [of st] drop [OF same(2)]
    by (auto simp: repl_step_def Let_def emit_then_kept at_eof_def st1_def
        split: if_splits option.splits line_error.splits)
  then show ?thesis
  proof (elim disjE exE conjE)
    fix eof assume "handle_line en (il_Text got) (il_Number got) eof st1 = (v, st')"
    from handle_line_store [OF assms(1) this] same show ?thesis by simp
  qed (use same in \<open>auto simp: store_def log_step_def\<close>)
qed

end
