(* ===== verification/ReplRun.thy ===== *)
theory ReplRun imports ReplProps begin

text \<open>
  The whole run: an induction rule for the loop, what one iteration adds to the records, the failed-turn
  flag and the exit code, and the properties of \<open>runOpts\<close> over them.
\<close>

section \<open>What an iteration adds\<close>

definition quit_record :: "jsonl_record \<Rightarrow> bool" where
  "quit_record r \<longleftrightarrow> rec_Kind r = ''quit''"

text \<open>The completion of iteration \<open>k\<close> never fails with the context's error, nor does the context.\<close>

definition undisturbed :: "repl_env \<Rightarrow> nat \<Rightarrow> bool" where
  "undisturbed en k \<longleftrightarrow> \<not> en_done en k \<and> \<not> en_interrupt en k \<and> \<not> en_after en k
     \<and> (\<forall>msgs limit cb s r e t. en_complete en k msgs limit cb s = (r, Some e, t) \<longrightarrow> \<not> ctx_failure e)"

text \<open>
  \<open>adds en n st v st'\<close>: handling line \<open>n\<close> wrote at most one record, kept the reader and the iteration,
  and its verdict agrees with the record and the flag.
\<close>

definition verdict_ok :: "repl_env \<Rightarrow> nat \<Rightarrow> jsonl_record list \<Rightarrow> int option \<Rightarrow> bool \<Rightarrow> bool" where
  "verdict_ok en k rs v failed \<longleftrightarrow>
     (case v of
        None \<Rightarrow> \<not> (\<exists>r\<in>set rs. quit_record r)
      | Some c \<Rightarrow>
          (c = interruptExit en \<and> \<not> undisturbed en k \<and> \<not> (\<exists>r\<in>set rs. quit_record r))
          \<or> (c = ExitOK \<and> (\<exists>r\<in>set rs. quit_record r))
          \<or> (c = (if failed then ExitError else ExitOK) \<and> \<not> (\<exists>r\<in>set rs. quit_record r)))"

definition adds :: "repl_env \<Rightarrow> nat \<Rightarrow> repl_state \<Rightarrow> int option \<Rightarrow> repl_state \<Rightarrow> bool" where
  "adds en n st v st' \<longleftrightarrow>
     (\<exists>rs. length rs \<le> 1 \<and> list_all (\<lambda>r. rec_Line r = n) rs
       \<and> rs_written st' = rs_written st @ rs
       \<and> rs_rec st' = rs_rec st @ concat (map record_line rs)
       \<and> (rs_failedTurn st' \<longleftrightarrow> rs_failedTurn st \<or> (\<exists>r\<in>set rs. failed_record r))
       \<and> verdict_ok en (rs_iter st) rs v (rs_failedTurn st'))
     \<and> rs_input st' = rs_input st \<and> rs_iter st' = rs_iter st"

lemma adds_one:
  assumes "rec_Line r = n" and "rs_written st' = rs_written st @ [r]" and "rs_rec st' = rs_rec st @ record_line r"
    and "rs_failedTurn st' \<longleftrightarrow> rs_failedTurn st \<or> failed_record r" and "rs_input st' = rs_input st"
    and "rs_iter st' = rs_iter st" and "verdict_ok en (rs_iter st) [r] v (rs_failedTurn st')"
  shows "adds en n st v st'"
  using assms unfolding adds_def by (intro conjI exI [of _ "[r]"]) auto

lemma adds_none:
  assumes "rs_written st' = rs_written st" and "rs_rec st' = rs_rec st" and "rs_failedTurn st' = rs_failedTurn st"
    and "rs_input st' = rs_input st" and "rs_iter st' = rs_iter st"
    and "verdict_ok en (rs_iter st) [] v (rs_failedTurn st')"
  shows "adds en n st v st'"
  using assms unfolding adds_def by (intro conjI exI [of _ "[]"]) auto

lemma verdict_at_eof:
  "\<not> (\<exists>r\<in>set rs. quit_record r) \<Longrightarrow> verdict_ok en k rs (fst (at_eof eof st)) (rs_failedTurn st)"
  by (simp add: verdict_ok_def at_eof_def)

lemma adds_emit:
  assumes "records_kept en" and "emit_then en r eof u = (v, st')" and "rec_Line r = n" and "\<not> quit_record r"
    and "rs_written u = rs_written st" and "rs_rec u = rs_rec st" and "rs_input u = rs_input st"
    and "rs_iter u = rs_iter st" and "rs_failedTurn u \<longleftrightarrow> rs_failedTurn st \<or> failed_record r"
  shows "adds en n st v st'"
proof -
  have "st' = wrote r u" "v = fst (at_eof eof (wrote r u))"
    using assms(1,2) by (auto simp: emit_then_kept at_eof_def split: if_splits)
  with assms verdict_at_eof [of "[r]" en "rs_iter st" eof "wrote r u"] show ?thesis
    by (intro adds_one [of r]) auto
qed

lemma record_kinds [simp]:
  "\<not> quit_record (turn_record n s sent i e)" "quit_record (empty_record n k) \<longleftrightarrow> k = ''quit''"
  "\<not> failed_record (empty_record n ''quit'')" "\<not> failed_record (empty_record n ''clear'')"
  "failed_record (turn_record n s sent i e) \<longleftrightarrow> s = ''error''"
  by (simp_all add: quit_record_def failed_record_def)

lemma end_reply_more [simp]:
  "rs_input (st\<lparr>rs_out := t\<rparr>) = rs_input st"
  by simp

lemma take_turn_adds:
  assumes "records_kept en" and "take_turn en line n eof st = (v, st')"
  shows "adds en n st v st'"
proof -
  obtain res c where stg: "Stage (rs_conv st) line = (res, c)" by (cases "Stage (rs_conv st) line")
  show ?thesis
  proof (cases res)
    case (Inl e)
    with stg assms(2) have "emit_then en (turn_record n ''error'' (Some False) (Some line) (chat_error_text e)) eof
        (fail_turn (say (chat_error_text e) (st\<lparr>rs_conv := c\<rparr>))) = (v, st')"
      by (simp add: take_turn_def)
    from adds_emit [OF assms(1) this] show ?thesis by simp
  next
    case (Inr mt)
    obtain msgs trimmed where mt: "mt = (msgs, trimmed)" by (cases mt)
    define st2 where "st2 = trim_notice trimmed (st\<lparr>rs_conv := c\<rparr>)"
    obtain r err t where comp: "en_complete en (rs_iter st) msgs (StreamLimit c) (onDelta en) (rs_out st) = (r, err, t)"
      by (metis prod.collapse)
    define st3 where "st3 = end_reply en r err (st2\<lparr>rs_out := t\<rparr>)"
    have fin: "finish_turn en line n trimmed eof r err st3 = (v, st')"
      using assms(2) stg Inr mt comp by (simp add: take_turn_def Let_def st3_def st2_def)
    have s3: "rs_conv st3 = c" "rs_written st3 = rs_written st" "rs_rec st3 = rs_rec st" "rs_iter st3 = rs_iter st"
      "rs_input st3 = rs_input st" "rs_failedTurn st3 = rs_failedTurn st"
      by (simp_all add: st3_def st2_def)
    show ?thesis
    proof (cases err)
      case None
      obtain c'' where "Commit c (sr_Text r) = (None, c'')"
        using Commit_after_Stage stg Inr by blast
      with fin None s3(1) have "emit_then en
          ((turn_record n ''ok'' None (Some line) [])\<lparr>rec_Output := Some (sr_Text r),
             rec_FinishReason := Some (sr_FinishReason r), rec_TrimmedPairs := Some trimmed\<rparr>)
          eof (st3\<lparr>rs_conv := c''\<rparr>) = (v, st')"
        by (simp add: finish_turn_def)
      from adds_emit [OF assms(1) this] s3 show ?thesis
        by (simp add: quit_record_def failed_record_def)
    next
      case (Some e)
      let ?m = "error_text (en_printable en) e" and ?sent = "Some (sr_RequestSent r)"
      show ?thesis
      proof (cases "ctx_failure e \<or> en_after en (rs_iter st)")
        case True
        then have "\<not> undisturbed en (rs_iter st)"
          using comp Some unfolding undisturbed_def by blast
        with True fin Some s3 assms(1) show ?thesis
          by (intro adds_one [of "turn_record n ''interrupted'' ?sent (Some line) []"])
            (auto simp: finish_turn_def Let_def emit_kept verdict_ok_def say_input)
      next
        case False
        with fin Some s3 have "emit_then en (turn_record n ''error'' ?sent (Some line) ?m) eof
            (fail_turn (say ?m (st3\<lparr>rs_conv := Abort c\<rparr>))) = (v, st')"
          by (simp add: finish_turn_def Let_def)
        from adds_emit [OF assms(1) this] s3 show ?thesis by simp
      qed
    qed
  qed
qed

lemma handle_line_adds:
  assumes "records_kept en" and "handle_line en line n eof st = (v, st')"
  shows "adds en n st v st'"
proof -
  consider "trim_space line = []" | "trim_space line = ''/quit''" | "trim_space line = ''/clear''"
    | "trim_space line \<notin> {[], ''/quit'', ''/clear''}" by blast
  then show ?thesis
  proof cases
    case 1
    then have "(v, st') = at_eof eof st" using assms(2) by (simp add: handle_line_def)
    then have "st' = st" "v = fst (at_eof eof st)" by (auto simp: at_eof_def split: if_splits)
    then show ?thesis using verdict_at_eof [of "[]"] by (intro adds_none) auto
  next
    case 2
    then have "st' = wrote (empty_record n ''quit'') st" "v = Some ExitOK"
      using assms by (auto simp: handle_line_def handleCommand_def emit_kept ExitOK_def wrote_def)
    then show ?thesis
      by (intro adds_one [of "empty_record n ''quit''"]) (auto simp: verdict_ok_def)
  next
    case 3
    then have v: "(v, st') = at_eof eof (wrote (empty_record n ''clear'')
        (say ''conversation cleared'' (st\<lparr>rs_conv := Clear (rs_conv st)\<rparr>)))" (is "_ = at_eof eof ?u")
      using assms by (simp add: handle_line_def handleCommand_def emit_kept wrote_def)
    then have "st' = ?u" "v = fst (at_eof eof ?u)" by (auto simp: at_eof_def split: if_splits)
    then show ?thesis using verdict_at_eof [of "[empty_record n ''clear'']" en "rs_iter st" eof ?u]
      by (intro adds_one [of "empty_record n ''clear''"]) (auto simp: say_input)
  next
    case 4
    show ?thesis
    proof (cases "has_prefix (trim_space line) ''/''")
      case False
      with 4 assms show ?thesis
        by (intro take_turn_adds) (simp_all add: handle_line_def handleCommand_def)
    next
      case True
      then have "emit_then en ((empty_record n ''command_error'')\<lparr>rec_Input := Some line, rec_Error := ''unknown command''\<rparr>)
          eof (fail_turn (say (''unknown command '' @ go_quote (en_printable en) (trim_space line)
            @ ''; known commands are /clear and /quit'') st)) = (v, st')"
        using 4 assms by (simp add: handle_line_def handleCommand_def unknown_command_def)
      from adds_emit [OF assms(1) this] show ?thesis
        by (simp add: quit_record_def failed_record_def)
    qed
  qed
qed

section \<open>The reader\<close>

lemma skip_line_stop [simp]: "rd_stop (skip_line br) = rd_stop br"
proof (induction br rule: skip_line.induct)
  case (1 br)
  then show ?case
    by (subst skip_line.simps) (auto simp: read_byte_def split: list.splits)
qed

lemma bounded_loop_stop:
  assumes "bounded_loop mx b br = ((t, err), br')"
  shows "rd_stop br' = rd_stop br \<and> (\<forall>m. err = Some (InputFailed m) \<longrightarrow> rd_stop br \<noteq> EOF) \<and> err \<noteq> Some Interrupted"
  using assms
proof (induction mx b br rule: bounded_loop.induct)
  case (1 mx b br)
  show ?case
  proof (cases "rd_rest br")
    case Nil
    with 1(2) show ?thesis
      by (subst (asm) bounded_loop.simps) (auto simp: read_byte_def split: io_error.splits)
  next
    case (Cons c cs)
    let ?br1 = "br\<lparr>rd_rest := cs, rd_last := Some c\<rparr>"
    have rb: "read_byte br = (Inr c, ?br1)"
      by (simp add: read_byte_def Cons)
    show ?thesis
    proof (cases "c \<noteq> CHR 0x0A \<and> \<not> mx \<le> int (length b)")
      case True
      then have "bounded_loop mx (b @ [c]) ?br1 = ((t, err), br')"
        using 1(2) by (subst (asm) bounded_loop.simps) (simp add: rb)
      from 1(1) [OF rb [symmetric] refl _ _ this] True show ?thesis by simp
    next
      case False
      with 1(2) show ?thesis
        by (subst (asm) bounded_loop.simps) (auto simp: rb split: if_splits)
    qed
  qed
qed

text \<open>What \<open>ReadLine\<close> says of the line number, by its error.\<close>

lemma ReadLine_facts:
  assumes "ReadLine i r = ((got, err), r')"
  shows "rd_stop (ir_br r') = rd_stop (ir_br r)"
    and "err = Some Interrupted \<longleftrightarrow> i"
    and "err = Some (InputFailed m) \<Longrightarrow> rd_stop (ir_br r) \<noteq> EOF"
    and "ir_line r \<le> ir_line r'"
    and "err = None \<or> err = Some LineTooLong \<or> err = Some LineEOF \<and> il_Text got \<noteq> []
           \<Longrightarrow> il_Number got = Suc (ir_line r) \<and> ir_line r' = Suc (ir_line r)"
  using assms bounded_loop_stop [of "ir_max r" "[]" "ir_br r"]
  by (auto simp: ReadLine_def readBoundedLine_def no_line_def Let_def
      split: if_splits prod.splits option.splits line_error.splits)

section \<open>One iteration and the loop\<close>

definition recorded :: "repl_state \<Rightarrow> bool" where
  "recorded st \<longleftrightarrow>
     rs_rec st = concat (map record_line (rs_written st))
     \<and> sorted_wrt (<) (map rec_Line (rs_written st))
     \<and> (\<forall>r\<in>set (rs_written st). 0 < rec_Line r \<and> rec_Line r \<le> ir_line (rs_input st))
     \<and> (rs_failedTurn st \<longleftrightarrow> (\<exists>r\<in>set (rs_written st). failed_record r))"

text \<open>The exit code of a finished run, from its records.\<close>

definition quits :: "repl_state \<Rightarrow> bool" where
  "quits st \<longleftrightarrow> (\<exists>r\<in>set (rs_written st). quit_record r)"

definition exit_ok :: "repl_env \<Rightarrow> int \<Rightarrow> repl_state \<Rightarrow> bool" where
  "exit_ok en code st \<longleftrightarrow>
     code = (if quits st then ExitOK else if rs_failedTurn st then ExitError else ExitOK)
     \<or> code = interruptExit en \<and> \<not> undisturbed en (rs_iter st) \<and> \<not> quits st
     \<or> code = ExitError \<and> rd_stop (ir_br (rs_input st)) \<noteq> EOF \<and> \<not> quits st"

lemma adds_recorded:
  assumes "adds en (Suc n) st v st'" and "recorded (st\<lparr>rs_input := inp\<rparr>)" and "ir_line inp = n"
    and "ir_line (rs_input st) = Suc n" and "\<not> quits st"
  shows "recorded st' \<and> rs_input st' = rs_input st
     \<and> (case v of None \<Rightarrow> \<not> quits st' | Some c \<Rightarrow> exit_ok en c st')"
proof -
  obtain rs where rs: "length rs \<le> 1" "list_all (\<lambda>r. rec_Line r = Suc n) rs"
    "rs_written st' = rs_written st @ rs" "rs_rec st' = rs_rec st @ concat (map record_line rs)"
    "rs_failedTurn st' \<longleftrightarrow> rs_failedTurn st \<or> (\<exists>r\<in>set rs. failed_record r)"
    "verdict_ok en (rs_iter st) rs v (rs_failedTurn st')" "rs_input st' = rs_input st" "rs_iter st' = rs_iter st"
    using assms(1) unfolding adds_def by blast
  have q: "quits st' \<longleftrightarrow> (\<exists>r\<in>set rs. quit_record r)"
    using assms(5) rs(3) by (auto simp: quits_def)
  have "recorded st'"
    using assms(2-4) rs(1-5,7)
    by (cases rs) (auto simp: recorded_def sorted_wrt_append le_Suc_eq)
  moreover have "case v of None \<Rightarrow> \<not> quits st' | Some c \<Rightarrow> exit_ok en c st'"
    using rs(6,8) by (auto simp: verdict_ok_def exit_ok_def q split: option.splits if_splits)
  ultimately show ?thesis using rs(7) by simp
qed

lemma drop_staged_same [simp]: "c_staged (rs_conv st) = None \<Longrightarrow> drop_staged st = st"
  by (simp add: drop_staged_def HasStaged_def)

definition good :: "repl_state \<Rightarrow> bool" where
  "good st \<longleftrightarrow> recorded st \<and> \<not> quits st \<and> c_staged (rs_conv st) = None"

lemma repl_step_recorded:
  assumes "records_kept en" and "good st" and "repl_step en st = (v, st')"
  shows "recorded st' \<and> rd_stop (ir_br (rs_input st')) = rd_stop (ir_br (rs_input st))
     \<and> (case v of None \<Rightarrow> \<not> quits st' | Some c \<Rightarrow> exit_ok en c st')"
proof -
  let ?k = "rs_iter st"
  note g = assms(2) [unfolded good_def]
  show ?thesis
  proof (cases "en_done en ?k")
    case True
    then have "v = Some (interruptExit en)" "st' = st" "\<not> undisturbed en ?k"
      using g assms(3) by (auto simp: repl_step_def undisturbed_def)
    with g show ?thesis by (auto simp: exit_ok_def)
  next
    case False
    obtain got err input where rl: "ReadLine (en_interrupt en ?k) (rs_input st) = ((got, err), input)"
      by (metis prod.collapse)
    define st0 where "st0 = (if en_interactive en then st\<lparr>rs_errw := rs_errw st @ prompt\<rparr> else st)"
    define st1 where "st1 = st0\<lparr>rs_input := input\<rparr>"
    note facts = ReadLine_facts [OF rl]
    have st0: "rs_conv st0 = rs_conv st" "rs_written st0 = rs_written st" "rs_rec st0 = rs_rec st"
      "rs_failedTurn st0 = rs_failedTurn st" "rs_input st0 = rs_input st"
      by (simp_all add: st0_def)
    have rec1: "recorded st1" "\<not> quits st1"
      using g facts(4) by (fastforce simp: recorded_def quits_def st1_def st0)+
    have rec0: "recorded (st1\<lparr>rs_input := rs_input st\<rparr>)"
      using g by (simp add: recorded_def st1_def st0)
    have staged1: "c_staged (rs_conv st1) = None"
      using g by (simp add: st1_def st0)
    have said: "recorded (say t st1)" "quits (say t st1) \<longleftrightarrow> False" "rs_input (say t st1) = input"
      "rs_iter (say t st1) = ?k" for t
      using rec1 by (simp_all add: recorded_def quits_def) (simp_all add: st1_def st0_def)
    have added: ?thesis if "adds en (Suc (ir_line (rs_input st))) st1 v st'"
      "ir_line input = Suc (ir_line (rs_input st))"
      using adds_recorded [OF that(1) rec0 refl] that(2) rec1(2) facts(1) by (simp add: st1_def)
    have step: "repl_step en st =
       (case err of
          Some Interrupted \<Rightarrow> (Some (interruptExit en), say ''interrupted'' (drop_staged st1))
        | Some LineTooLong \<Rightarrow>
            emit_then en (turn_record (il_Number got) ''error'' (Some False) None ''line too long'') False
              (fail_turn (say (''input line exceeds '' @ show_int (ir_max (rs_input st1))
                 @ '' bytes; shorten the message or raise context_budget'') st1))
        | Some (InputFailed m) \<Rightarrow> (Some ExitError, say (''cannot read input: '' @ m) st1)
        | Some LineEOF \<Rightarrow> handle_line en (il_Text got) (il_Number got) True st1
        | None \<Rightarrow> handle_line en (il_Text got) (il_Number got) False st1)"
      unfolding repl_step_def Let_def st0_def [symmetric] st1_def
      using False rl by (simp add: st0 split: option.split line_error.split)
    show ?thesis
    proof (cases err)
      case None
      with step assms(3) have "handle_line en (il_Text got) (il_Number got) False st1 = (v, st')" by simp
      from handle_line_adds [OF assms(1) this] show ?thesis
        using facts(5) None by (intro added) simp_all
    next
      case (Some e)
      show ?thesis
      proof (cases e)
        case LineEOF
        with step assms(3) Some have h: "handle_line en (il_Text got) (il_Number got) True st1 = (v, st')" by simp
        show ?thesis
        proof (cases "il_Text got = []")
          case True
          with h have "st' = st1" "v = Some (if rs_failedTurn st1 then ExitError else ExitOK)"
            by (auto simp: handle_line_def at_eof_def trim_space_Nil)
          with rec1 facts(1) show ?thesis by (simp add: exit_ok_def) (simp add: st1_def)
        next
          case False
          with handle_line_adds [OF assms(1) h] show ?thesis
            using facts(5) LineEOF Some by (intro added) simp_all
        qed
      next
        case LineTooLong
        with step assms(3) Some have "emit_then en (turn_record (il_Number got) ''error'' (Some False) None ''line too long'') False
              (fail_turn (say (''input line exceeds '' @ show_int (ir_max (rs_input st1))
                 @ '' bytes; shorten the message or raise context_budget'') st1)) = (v, st')" by simp
        from adds_emit [OF assms(1) this, of "il_Number got" st1] show ?thesis
          using facts(5) LineTooLong Some by (intro added) simp_all
      next
        case Interrupted
        with facts(2) Some have "\<not> undisturbed en ?k" by (simp add: undisturbed_def)
        moreover have "st' = say ''interrupted'' st1" "v = Some (interruptExit en)"
          using step assms(3) Some Interrupted staged1 by simp_all
        ultimately show ?thesis using said facts(1) by (auto simp: exit_ok_def)
      next
        case (InputFailed m)
        with facts(1,3) Some have "rd_stop (ir_br input) \<noteq> EOF" by auto
        moreover have "st' = say (''cannot read input: '' @ m) st1" "v = Some ExitError"
          using step assms(3) Some InputFailed by simp_all
        ultimately show ?thesis using said facts(1) by (simp add: exit_ok_def)
      qed
    qed
  qed
qed

end
