(* ===== verification/JsonVisible.thy ===== *)
theory JsonVisible imports JsonPrint begin

text \<open>
  What \<open>json.Marshal\<close> writes contains no control character: every one is escaped in strings.  So a value
  on a line stays on its line, in the JSONL records and in the events of a stream.
\<close>

text \<open>Bytes that are no ASCII control characters.\<close>

definition visible :: "char \<Rightarrow> bool" where
  "visible c \<longleftrightarrow> 0x20 \<le> (of_char c :: nat)"

lemma byte_visible: "byte_in 0x80 0xFF c \<Longrightarrow> visible c"
  by (simp add: visible_def byte_in_def)

lemma hex_digit_visible: "n < 16 \<Longrightarrow> visible (hex_digit n)"
  by (auto simp: visible_def hex_digit_def byte_chr_def)

lemma u_escape_visible: "list_all visible (u_escape n)"
  by (simp add: u_escape_def hex_digit_visible) (simp add: visible_def)

lemma escape_ascii_visible: "list_all visible (escape_ascii html c)"
  by (simp add: escape_ascii_def u_escape_visible) (simp add: visible_def)

lemma rune_visible:
  assumes "\<not> byte_in 0 0x7F c" and "rune_len (c # cs) \<noteq> 0"
  shows "list_all visible (take (rune_len (c # cs)) (c # cs))"
proof -
  have "conts_ok c (take (lead_len c - 1) cs)"
    using assms(2) by (auto simp: rune_len.simps split: if_splits)
  moreover have "list_all visible bs" if "conts_ok c bs" for bs
    using that by (cases bs) (auto simp: second_ok_def list_all_iff visible_def byte_in_def split: if_splits)
  moreover have "visible c" using assms(1) by (simp add: visible_def byte_in_def)
  ultimately show ?thesis
    using assms(2) by (cases "rune_len (c # cs)") (auto simp: rune_len.simps split: if_splits)
qed

lemma quote_body_visible: "list_all visible (quote_body html s)"
proof (induction html s rule: quote_body.induct)
  case (2 html c cs)
  then show ?case
    by (subst quote_body.simps)
      (simp add: escape_ascii_visible u_escape_visible rune_visible, simp add: visible_def)
qed simp

lemma join_visible: "(\<And>x. x \<in> set xs \<Longrightarrow> list_all visible x) \<Longrightarrow> list_all visible (join xs '','')"
  by (induction xs "'','' :: string" rule: join.induct) (auto simp: visible_def)

lemma show_nat_visible: "list_all visible (show_nat n)"
  using show_nat_digits [of n] by (auto simp: list_all_iff is_digit_def visible_def)

lemma json_quote_visible: "list_all visible (json_quote html s)"
  by (simp add: json_quote_def quote_body_visible) (simp add: visible_def)

lemma members_visible:
  assumes "\<And>k raw v. (k, raw, v) \<in> set ms \<Longrightarrow> list_all visible (json_print html v)"
  shows "list_all visible (json_print html (JObj ms))"
proof -
  have "list_all visible (join (map (\<lambda>(k, raw, v). json_quote html k @ '':'' @ json_print html v) ms) '','')"
    using assms by (intro join_visible) (auto simp: json_quote_visible visible_def)
  then show ?thesis by (simp add: visible_def)
qed

lemma array_visible:
  "(\<And>e. e \<in> set es \<Longrightarrow> list_all visible (json_print html e)) \<Longrightarrow> list_all visible (json_print html (JArr es))"
  using join_visible [of "map (json_print html) es"] by (auto simp: visible_def)

end
