(* ===== verification/ReplRunProps.thy ===== *)
theory ReplRunProps imports ReplRun JsonVisible begin

text \<open>
  The properties of a whole run of the REPL: the conversation at the end, the exit code, the JSONL
  records and what reaches standard output.
\<close>

section \<open>Invariants of the loop\<close>

lemma run_loop_rule:
  assumes "P st"
    and go: "\<And>s s'. P s \<Longrightarrow> repl_step en s = (None, s') \<Longrightarrow> P (s'\<lparr>rs_iter := Suc (rs_iter s')\<rparr>)"
    and stop: "\<And>s c s'. P s \<Longrightarrow> repl_step en s = (Some c, s') \<Longrightarrow> Q c s'"
    and run: "run_loop en st = (code, st')"
  shows "Q code st'"
proof -
  have "run_loop e st = (code, st') \<Longrightarrow> e = en \<Longrightarrow> P st \<Longrightarrow> Q code st'" for e
  proof (induction e st rule: run_loop.induct)
    case (1 e st)
    obtain v s' where step: "repl_step en st = (v, s')" by (cases "repl_step en st")
    show ?case
    proof (cases v)
      case None
      with step 1(2,3) have "run_loop e (s'\<lparr>rs_iter := Suc (rs_iter s')\<rparr>) = (code, st')"
        by (subst (asm) run_loop.simps) simp
      with 1 go step None show ?thesis by simp
    next
      case (Some c)
      with step 1(2,3) have "c = code" "s' = st'"
        by (subst (asm) run_loop.simps, simp)+
      with stop step Some 1(4) show ?thesis by simp
    qed
  qed
  with assms(1) run show ?thesis by blast
qed

lemma store_iter [simp]: "store (s\<lparr>rs_iter := k\<rparr>) = store s"
  by (simp add: store_def)

lemma good_iter [simp]: "good (s\<lparr>rs_iter := k\<rparr>) = good s"
  by (simp add: good_def recorded_def quits_def)

text \<open>The invariant between iterations: a recent window of the log, and records that agree.\<close>

lemma turns_to_window: "turns_to s s' \<Longrightarrow> conv.window s \<Longrightarrow> conv.window s'"
  using conv.run_turns_window unfolding turns_to_def by blast

lemma window_store:
  "conv.window (store st) \<longleftrightarrow> conv_inv (rs_conv st) \<and> c_staged (rs_conv st) = None
     \<and> suffix (exchanges (c_history (rs_conv st))) (log_of (rs_written st))"
  by (auto simp: conv.window_def store_def pending_user_def split: option.splits)

definition between :: "io_error \<Rightarrow> store_state \<Rightarrow> repl_state \<Rightarrow> bool" where
  "between stop s0 st \<longleftrightarrow> good st \<and> rd_stop (ir_br (rs_input st)) = stop \<and> conv.window (store st) \<and> turns_to s0 (store st)"

lemma repl_step_between:
  assumes "records_kept en" and "between stop s0 st" and "repl_step en st = (v, st')"
  shows "recorded st' \<and> rd_stop (ir_br (rs_input st')) = stop
     \<and> conv.window (store st') \<and> turns_to s0 (store st')
     \<and> (case v of None \<Rightarrow> between stop s0 st' | Some c \<Rightarrow> exit_ok en c st')"
proof -
  have g: "good st" and e: "rd_stop (ir_br (rs_input st)) = stop" and w: "conv.window (store st)" and t: "turns_to s0 (store st)"
    using assms(2) by (auto simp: between_def)
  from g have "c_staged (rs_conv st) = None" by (simp add: good_def)
  from repl_step_store [OF assms(1,3) this] have step: "turns_to (store st) (store st')" .
  with w have w': "conv.window (store st')" by (rule turns_to_window [rotated])
  then have "c_staged (rs_conv st') = None" by (simp add: window_store)
  with repl_step_recorded [OF assms(1) g assms(3)] w' e turns_to_trans [OF t step] show ?thesis
    by (auto simp: between_def good_def split: option.splits)
qed

definition run_start :: "config \<Rightarrow> store_state" where
  "run_start cfg = (New (cfg_ContextBudget cfg) (cfg_GenerationReserve cfg) (cfg_SystemPrompt cfg), [])"

lemma repl_start_between: "between (rd_stop inp) (run_start cfg) (repl_start cfg inp)"
proof -
  have w: "conv.window (run_start cfg)"
    by (simp add: run_start_def conv.window_def New_inv pending_user_def) (simp add: New_def)
  have s: "store (repl_start cfg inp) = run_start cfg"
    by (simp add: store_def repl_start_def run_start_def log_of_def)
  have "good (repl_start cfg inp)"
    by (simp add: good_def recorded_def quits_def repl_start_def New_def)
  moreover have "rd_stop (ir_br (rs_input (repl_start cfg inp))) = rd_stop inp"
    by (simp add: repl_start_def newInputReader_def)
  ultimately show ?thesis using w s by (simp add: between_def)
qed

lemma run_facts:
  assumes "records_kept en" and "runOpts en cfg inp = (code, st')"
  shows "recorded st' \<and> rd_stop (ir_br (rs_input st')) = rd_stop inp
     \<and> conv.window (store st') \<and> turns_to (run_start cfg) (store st') \<and> exit_ok en code st'"
  using assms(2) unfolding runOpts_def
proof (rule run_loop_rule [where P = "between (rd_stop inp) (run_start cfg)", rotated -1])
  show "between (rd_stop inp) (run_start cfg) (repl_start cfg inp)" by (rule repl_start_between)
next
  show "between (rd_stop inp) (run_start cfg) (s'\<lparr>rs_iter := Suc (rs_iter s')\<rparr>)"
    if "between (rd_stop inp) (run_start cfg) s" "repl_step en s = (None, s')" for s s'
    using repl_step_between [OF assms(1) that] by (simp add: between_def)
next
  show "recorded s' \<and> rd_stop (ir_br (rs_input s')) = rd_stop inp \<and> conv.window (store s') \<and> turns_to (run_start cfg) (store s') \<and> exit_ok en c s'"
    if "between (rd_stop inp) (run_start cfg) s" "repl_step en s = (Some c, s')" for s c s'
    using repl_step_between [OF assms(1) that] by simp
qed

section \<open>Records as JSON lines\<close>

lemma record_visible: "list_all visible (json_print False (record_json r))"
  unfolding record_json_def
  by (rule members_visible)
    (auto simp: plain_member_def opt_member_def nonempty_def show_nat_visible json_quote_visible
      split: option.splits if_splits, auto simp: visible_def)

text \<open>The lines of a text, as a reader of the records sees them.\<close>

function jsonl_lines :: "string \<Rightarrow> string list" where
  "jsonl_lines t =
     (if t = [] then []
      else takeWhile (\<lambda>c. c \<noteq> CHR 0x0A) t # jsonl_lines (drop 1 (dropWhile (\<lambda>c. c \<noteq> CHR 0x0A) t)))"
  by pat_completeness auto
termination
proof (relation "measure length")
  fix t :: string
  assume "t \<noteq> []"
  then have "length (dropWhile (\<lambda>c. c \<noteq> CHR 0x0A) t) \<le> length t" "0 < length t"
    by (simp_all add: length_dropWhile_le)
  then show "(drop 1 (dropWhile (\<lambda>c. c \<noteq> CHR 0x0A) t), t) \<in> measure length"
    by (simp add: less_eq_Suc_le)
qed simp

declare jsonl_lines.simps [simp del]

lemma jsonl_lines_Nil [simp]: "jsonl_lines [] = []"
  by (simp add: jsonl_lines.simps)

lemma jsonl_lines_Cons:
  assumes "list_all visible l"
  shows "jsonl_lines (l @ CHR 0x0A # t) = l # jsonl_lines t"
proof -
  have "c \<noteq> CHR 0x0A" if "c \<in> set l" for c
    using that assms by (auto simp: list_all_iff visible_def)
  then show ?thesis
    by (subst jsonl_lines.simps) (simp add: takeWhile_append2 dropWhile_append2)
qed

lemma jsonl_lines_records:
  "jsonl_lines (concat (map record_line rs)) = map (\<lambda>r. json_print False (record_json r)) rs"
  by (induction rs) (simp_all add: record_line_def jsonl_lines_Cons record_visible)

definition utf8_record :: "jsonl_record \<Rightarrow> bool" where
  "utf8_record r \<longleftrightarrow> list_all valid_utf8 [rec_Kind r, rec_Status r, rec_Error r]
     \<and> pred_option valid_utf8 (rec_Input r) \<and> pred_option valid_utf8 (rec_Output r)
     \<and> pred_option valid_utf8 (rec_FinishReason r)"

lemma record_names_utf8:
  "valid_utf8 ''v''" "valid_utf8 ''line''" "valid_utf8 ''kind''" "valid_utf8 ''status''" "valid_utf8 ''sent''"
  "valid_utf8 ''input''" "valid_utf8 ''output''" "valid_utf8 ''finish_reason''" "valid_utf8 ''trimmed_pairs''"
  "valid_utf8 ''error''"
  by (rule valid_utf8_ascii, simp add: byte_in_def)+

lemma plain_show_any: "plain_number (show_nat n)"
proof (cases "n = 0")
  case True
  then show ?thesis by (simp add: plain_number_def show_nat.simps digit_char_def is_digit_def)
qed (simp add: plain_show_nat)

lemma record_json_wf: "utf8_record r \<Longrightarrow> json_wf False max_nesting (record_json r)"
  by (auto simp: record_json_def plain_member_def opt_member_def nonempty_def utf8_record_def record_names_utf8
      plain_show_any max_nesting_def split: option.splits)

text \<open>The members of a record, by name.\<close>

definition record_member :: "string \<Rightarrow> (string \<times> string \<times> json) list \<Rightarrow> json option" where
  "record_member k ms = map_option (snd \<circ> snd) (List.find (\<lambda>m. fst m = k) ms)"

lemma record_member_simps [simp]:
  "record_member k [] = None"
  "record_member k (plain_member k' v # ms) = (if k' = k then Some v else record_member k ms)"
  "record_member k (opt_member k' f x @ ms) =
     (if k' = k \<and> x \<noteq> None then Some (f (the x)) else record_member k ms)"
  "record_member k (opt_member k' f x) = (if k' = k then map_option f x else None)"
  by (auto simp: record_member_def plain_member_def opt_member_def split: option.splits)

definition json_members_of :: "json \<Rightarrow> (string \<times> string \<times> json) list" where
  "json_members_of j = (case j of JObj ms \<Rightarrow> ms | _ \<Rightarrow> [])"

lemma record_json_members:
  "record_member ''v'' (json_members_of (record_json r)) = Some (JNum (show_nat (rec_V r)))"
  "record_member ''line'' (json_members_of (record_json r)) = Some (JNum (show_nat (rec_Line r)))"
  "record_member ''kind'' (json_members_of (record_json r)) = Some (JStr (rec_Kind r))"
  "record_member ''status'' (json_members_of (record_json r)) = map_option JStr (nonempty (rec_Status r))"
  "record_member ''sent'' (json_members_of (record_json r)) = map_option JBool (rec_Sent r)"
  "record_member ''input'' (json_members_of (record_json r)) = map_option JStr (rec_Input r)"
  "record_member ''output'' (json_members_of (record_json r)) = map_option JStr (rec_Output r)"
  "record_member ''finish_reason'' (json_members_of (record_json r)) = map_option JStr (rec_FinishReason r)"
  "record_member ''trimmed_pairs'' (json_members_of (record_json r)) = map_option (\<lambda>n. JNum (show_nat n)) (rec_TrimmedPairs r)"
  "record_member ''error'' (json_members_of (record_json r)) = map_option JStr (nonempty (rec_Error r))"
  by (simp_all add: record_json_def json_members_of_def)
    (auto simp: option.map_sel split: option.splits)

lemma show_nat_inj: "show_nat a = show_nat b \<longleftrightarrow> a = b"
  by (metis dec_value_show_nat)

lemma member_inj:
  "map_option JStr a = map_option JStr b \<longleftrightarrow> a = b" "map_option JBool c = map_option JBool d \<longleftrightarrow> c = d"
  "map_option (\<lambda>n. JNum (show_nat n)) e = map_option (\<lambda>n. JNum (show_nat n)) f \<longleftrightarrow> e = f"
  by (auto simp: map_option_case show_nat_inj split: option.splits)

lemma nonempty_inj: "nonempty a = nonempty b \<longleftrightarrow> a = b"
  by (auto simp: nonempty_def split: if_splits)

lemma record_json_inj:
  fixes r r' :: jsonl_record
  assumes "record_json r = record_json r'"
  shows "r = r'"
proof -
  have "record_member k (json_members_of (record_json r)) = record_member k (json_members_of (record_json r'))" for k
    using assms by simp
  from this [of "''v''"] this [of "''line''"] this [of "''kind''"] this [of "''status''"] this [of "''sent''"]
    this [of "''input''"] this [of "''output''"] this [of "''finish_reason''"] this [of "''trimmed_pairs''"]
    this [of "''error''"]
  show ?thesis
    unfolding record_json_members
    by (intro jsonl_record.equality) (simp_all add: show_nat_inj nonempty_inj member_inj)
qed

lemma parse_record: "utf8_record r \<Longrightarrow> parse_json (json_print False (record_json r)) = Some (record_json r)"
  by (rule parse_json_print [OF record_json_wf])

section \<open>Standard output in JSONL mode\<close>

lemma call_None [simp]: "call_delta None s t = (None, s)"
  by (simp add: call_delta_def)

lemma run_deltas_None: "run_deltas None s ds = (None, s)"
  by (induction ds) simp_all

lemma run_filtered_None: "snd (snd (run_deltas (filtered None) (f, s) ds)) = s"
proof (induction ds arbitrary: f)
  case (Cons d ds)
  show ?case
    by (auto simp: call_filtered Cons split: prod.split)
qed simp

lemma read_stream_quiet: "snd (snd (snd (read_stream cl polls body lim None s))) = s"
proof -
  let ?b = "limit_reader (nat (op_MaxStreamBytes (cl_opt cl) + 1)) body"
  let ?o = "decode_options cl lim"
  have plain: "snd (snd (snd (decodeStream polls ?b ?o None s))) = s"
    using decodeStream_deltas [of polls ?b ?o None s] run_deltas_None
    by (metis prod.collapse snd_conv)
  have "snd (snd (snd (snd (decodeStream polls ?b ?o (filtered None) (f, s))))) = s" for f
    using decodeStream_deltas [of polls ?b ?o "filtered None" "(f, s)"] run_filtered_None
    by (metis prod.collapse snd_conv)
  with plain show ?thesis
    by (auto simp: read_stream_def Let_def split: prod.splits option.splits if_splits)
      (metis snd_conv)+
qed

lemma read_stream_same: "read_stream cl polls body lim None s = (e, t, f, s') \<Longrightarrow> s' = s"
  using read_stream_quiet [of cl polls body lim s] by simp

lemma out_kept:
  "emit en r st = (ok, st') \<Longrightarrow> rs_out st' = rs_out st"
  "emit_then en r eof st = (v, st') \<Longrightarrow> rs_out st' = rs_out st"
  "at_eof eof st = (v, st') \<Longrightarrow> rs_out st' = rs_out st"
  by (auto simp: emit_then_def emit_def at_eof_def split: option.splits prod.splits if_splits)

lemma emit_out: "rs_out (snd (emit en r st)) = rs_out st"
  by (simp add: emit_def split: option.split prod.split)

lemma finish_turn_out: "finish_turn en line n trimmed eof res err st = (v, st') \<Longrightarrow> rs_out st' = rs_out st"
  by (auto simp: finish_turn_def Let_def emit_out dest!: out_kept split: option.splits prod.splits if_splits)

lemma end_reply_out: "en_JSONLStdout en \<Longrightarrow> end_reply en res err st = st"
  by (simp add: end_reply_def)

text \<open>What the REPL relies on: a completion that is given no callback leaves the caller's output alone.\<close>

locale silent_completion =
  fixes complete :: completion
  assumes silent: "complete k msgs limit None t = (r, e, t') \<Longrightarrow> t' = t"
begin

lemma take_turn_out:
  assumes "en_JSONLStdout en" and "en_complete en = complete" and "take_turn en line n eof st = (v, st')"
  shows "rs_out st' = rs_out st"
proof -
  have "onDelta en = None" using assms(1) by (simp add: onDelta_def)
  then show ?thesis
    using assms(3)
    by (auto simp: take_turn_def Let_def end_reply_out [OF assms(1)] assms(2) dest!: out_kept finish_turn_out silent
        split: sum.splits prod.splits)
qed

lemma repl_step_out:
  assumes "en_JSONLStdout en" and "en_complete en = complete" and "repl_step en st = (v, st')"
  shows "rs_out st' = rs_out st"
proof -
  have cmd: "rs_out u' = rs_out u" if "handleCommand en line n u = (r, u')" for line n u r u'
    using that by (auto simp: handleCommand_def Let_def dest!: out_kept split: prod.splits if_splits)
  have "rs_out u' = rs_out u" if "handle_line en line n eof u = (w, u')" for line n eof u w u'
    using that
    by (auto simp: handle_line_def unknown_command_def dest!: out_kept take_turn_out [OF assms(1,2)] cmd
        split: prod.splits bool.splits if_splits)
  then show ?thesis
    using assms(3)
    by (auto simp: repl_step_def Let_def drop_staged_def dest!: out_kept
        split: prod.splits option.splits line_error.splits if_splits)
qed

lemma run_out:
  assumes "en_JSONLStdout en" and "en_complete en = complete" and "runOpts en cfg inp = (code, st')"
  shows "rs_out st' = []"
  using assms(3) unfolding runOpts_def
  by (rule run_loop_rule [where P = "\<lambda>st. rs_out st = []", rotated -1])
    (auto simp: repl_start_def dest: repl_step_out [OF assms(1,2)])

end

interpretation client: silent_completion "client_completion cl worlds" for cl worlds
  by unfold_locales
    (auto simp: client_completion_def StreamResult_def doStream_def dest!: read_stream_same
      split: prod.splits sum.splits option.splits)

section \<open>A run\<close>

definition demo_answer :: completion where
  "demo_answer k msgs lim cb s =
     (if k < 2 then (\<lparr>sr_Text = ''hi'', sr_FinishReason = ''stop'', sr_RequestSent = True\<rparr>, None, s)
      else (no_result True, Some (ErrorText ''refused''), s))"

definition demo_repl :: repl_env where
  "demo_repl = \<lparr>en_complete = demo_answer, en_done = (\<lambda>_. False), en_interrupt = (\<lambda>_. False),
     en_after = (\<lambda>_. False), en_cause = None, en_interactive = False, en_printable = (\<lambda>_. True),
     en_out = (\<lambda>written data. (length data, None)), en_records = Some (\<lambda>written data. (length data, None)),
     en_JSONLStdout = False\<rparr>"

definition demo_input :: reader where
  "demo_input = new_reader (''a'' @ nl @ nl @ ''b'' @ nl) EOF"

lemma demo_kept: "records_kept demo_repl"
  by (simp add: records_kept_def demo_repl_def)

lemma demo_repl_run:
  "(let (c, st) = runOpts demo_repl demo_config demo_input in
      (c, map rec_Line (rs_written st), map rec_Status (rs_written st), exchanges (c_history (rs_conv st))))
   = (1, [1, 3], [''ok'', ''error''], [(''a'', ''hi'')])"
  by code_simp

lemma demo_repl_facts:
  obtains st where "runOpts demo_repl demo_config demo_input = (1, st)"
    and "map rec_Line (rs_written st) = [1, 3]" and "map rec_Status (rs_written st) = [''ok'', ''error'']"
    and "exchanges (c_history (rs_conv st)) = [(''a'', ''hi'')]"
  using demo_repl_run by (cases "runOpts demo_repl demo_config demo_input") auto

section \<open>Properties\<close>

text \<open>C4: a run is a sequence of turns of the conversation, and its records are the log: with a record
  writer that takes everything, the conversation a run ends with is reached from the new one by
  turns of the store (answered, failed, refused, cleared), whose answered exchanges since the last
  clear are exactly those of the records with an output; it is well formed with nothing staged, also
  when the run is interrupted, and its history is a recent window of that log.\<close>

theorem run_performs_turns:
  assumes "records_kept en" and "runOpts en cfg inp = (code, st')"
  shows "(\<exists>ts. run_turns Stage Commit Abort Clear ts
        (New (cfg_ContextBudget cfg) (cfg_GenerationReserve cfg) (cfg_SystemPrompt cfg), [])
          = (rs_conv st', log_of (rs_written st')))
     \<and> conv_inv (rs_conv st') \<and> c_staged (rs_conv st') = None
     \<and> suffix (exchanges (c_history (rs_conv st'))) (log_of (rs_written st'))"
  using run_facts [OF assms] unfolding window_store turns_to_def run_start_def by (simp add: store_def)

theorem run_performs_turns_witness:
  "\<exists>st log. runOpts demo_repl demo_config demo_input = (1, st) \<and> suffix [(''a'', ''hi'')] log"
proof -
  obtain st where st: "runOpts demo_repl demo_config demo_input = (1, st)"
    "exchanges (c_history (rs_conv st)) = [(''a'', ''hi'')]"
    by (rule demo_repl_facts)
  with run_performs_turns [OF demo_kept st(1)] show ?thesis by auto
qed

text \<open>C12: the exit code is a function of the records, provided the record writer takes everything it is
  given (\<open>records_kept\<close>; a record that cannot be written ends the run by itself).  A recorded \<open>/quit\<close>
  always means 0.  Without one, a failed turn or an unknown command on record means 1 and none means
  0; the only other outcomes, both without a recorded \<open>/quit\<close>, are the interrupt code, when in
  the last iteration the context ended or the completion failed with the context's error, and 1 when the input could not be read.\<close>

theorem exit_code_from_records:
  assumes "records_kept en" and "runOpts en cfg inp = (code, st')"
  shows "if \<exists>r\<in>set (rs_written st'). rec_Kind r = ''quit'' then code = ExitOK
     else code = (if \<exists>r\<in>set (rs_written st'). rec_Status r = ''error'' \<or> rec_Kind r = ''command_error''
            then ExitError else ExitOK)
       \<or> code = interruptExit en \<and> \<not> undisturbed en (rs_iter st')
       \<or> code = ExitError \<and> rd_stop inp \<noteq> EOF"
proof -
  have facts: "recorded st'" "rd_stop (ir_br (rs_input st')) = rd_stop inp" "exit_ok en code st'"
    using run_facts [OF assms] by blast+
  then have failed: "rs_failedTurn st' \<longleftrightarrow>
      (\<exists>r\<in>set (rs_written st'). rec_Status r = ''error'' \<or> rec_Kind r = ''command_error'')"
    unfolding recorded_def failed_record_def by blast
  have quit: "quits st' \<longleftrightarrow> (\<exists>r\<in>set (rs_written st'). rec_Kind r = ''quit'')"
    unfolding quits_def quit_record_def ..
  have "if quits st' then code = ExitOK
     else code = (if rs_failedTurn st' then ExitError else ExitOK)
       \<or> code = interruptExit en \<and> \<not> undisturbed en (rs_iter st') \<or> code = ExitError \<and> rd_stop inp \<noteq> EOF"
    using facts(3) unfolding exit_ok_def facts(2) by (auto split: if_splits)
  then show ?thesis unfolding quit failed .
qed

lemma demo_undisturbed: "undisturbed demo_repl k"
  by (simp add: undisturbed_def demo_repl_def demo_answer_def ctx_failure_def)

theorem exit_code_from_records_witness:
  "\<exists>st. runOpts demo_repl demo_config demo_input = (1, st)
     \<and> (\<exists>r\<in>set (rs_written st). rec_Status r = ''error'' \<or> rec_Kind r = ''command_error'')"
proof -
  obtain st where st: "runOpts demo_repl demo_config demo_input = (1, st)"
    by (rule demo_repl_facts)
  have "rd_stop demo_input = EOF" by (simp add: demo_input_def new_reader_def)
  with exit_code_from_records [OF demo_kept st] demo_undisturbed
  have "if \<exists>r\<in>set (rs_written st). rec_Kind r = ''quit'' then (1::int) = ExitOK
      else 1 = (if \<exists>r\<in>set (rs_written st). rec_Status r = ''error'' \<or> rec_Kind r = ''command_error''
            then ExitError else ExitOK)"
    by (metis (full_types))
  then have "\<exists>r\<in>set (rs_written st). rec_Status r = ''error'' \<or> rec_Kind r = ''command_error''"
    by (simp add: ExitOK_def split: if_splits)
  with st show ?thesis by blast
qed

text \<open>C32: the JSONL stream of a run is one line per record, in the order of the input, as long as the
  record writer takes everything it is given (\<open>records_kept\<close>; a writer that fails or falls short ends
  the run and may leave a torn last line, of which nothing is claimed): the lines of what was written
  are exactly the printed records, their line numbers are positive and strictly increasing, and none
  is beyond the lines read.\<close>

theorem records_in_input_order:
  assumes "records_kept en" and "runOpts en cfg inp = (code, st')"
  shows "jsonl_lines (rs_rec st') = map (\<lambda>r. json_print False (record_json r)) (rs_written st')
     \<and> sorted_wrt (<) (map rec_Line (rs_written st'))
     \<and> (\<forall>r\<in>set (rs_written st'). 0 < rec_Line r \<and> rec_Line r \<le> ir_line (rs_input st'))"
  using run_facts [OF assms] by (simp add: recorded_def jsonl_lines_records)

theorem records_in_input_order_witness:
  "\<exists>st. runOpts demo_repl demo_config demo_input = (1, st) \<and> length (jsonl_lines (rs_rec st)) = 2"
proof -
  obtain st where st: "runOpts demo_repl demo_config demo_input = (1, st)" "map rec_Line (rs_written st) = [1, 3]"
    by (rule demo_repl_facts)
  then have "length (rs_written st) = 2"
    by (metis length_map length_Cons list.size(3) numeral_2_eq_2)
  with records_in_input_order [OF demo_kept st(1)] st(1) show ?thesis by auto
qed

text \<open>C33: records survive the trip: written one after the other by the JSONL writer and cut at newlines, each
  line parses to the record's JSON object, and no other list of (valid UTF-8) records gives the same
  bytes, absent and empty fields included.\<close>

theorem records_read_back:
  assumes "list_all utf8_record rs"
  shows "let t = fold (\<lambda>r t. snd (WriteRecord (\<lambda>written data. (length data, None)) r t)) rs [] in
     map parse_json (jsonl_lines t) = map (Some \<circ> record_json) rs
     \<and> (\<forall>rs'. list_all utf8_record rs'
           \<and> fold (\<lambda>r t. snd (WriteRecord (\<lambda>written data. (length data, None)) r t)) rs' [] = t \<longrightarrow> rs' = rs)"
proof -
  have bytes: "fold (\<lambda>r t. snd (WriteRecord (\<lambda>written data. (length data, None)) r t)) rs acc
      = acc @ concat (map record_line rs)" for rs acc
    by (induction rs arbitrary: acc) (simp_all add: WriteRecord_def write_to_def)
  have parsed: "map parse_json (jsonl_lines (concat (map record_line rs))) = map (Some \<circ> record_json) rs"
    if "list_all utf8_record rs" for rs
    using that by (simp add: jsonl_lines_records list_all_iff parse_record)
  have "rs' = rs" if "list_all utf8_record rs'" "concat (map record_line rs') = concat (map record_line rs)" for rs'
  proof -
    have "map (Some \<circ> record_json) rs' = map (Some \<circ> record_json) rs"
      using parsed [OF that(1)] parsed [OF assms] that(2) by simp
    then show ?thesis
      by (rule map_injective) (simp add: inj_on_def record_json_inj)
  qed
  then show ?thesis using parsed [OF assms] by (simp add: bytes)
qed

theorem records_read_back_witness:
  "map parse_json (jsonl_lines (fold (\<lambda>r t. snd (WriteRecord (\<lambda>written data. (length data, None)) r t))
      [empty_record 1 ''clear'', empty_record 2 ''quit''] []))
   = [Some (record_json (empty_record 1 ''clear'')), Some (record_json (empty_record 2 ''quit''))]"
proof -
  have "list_all utf8_record [empty_record 1 ''clear'', empty_record 2 ''quit'']"
    by (simp add: utf8_record_def empty_record_def valid_utf8_ascii byte_in_def)
  from records_read_back [OF this] show ?thesis by (simp add: Let_def)
qed

text \<open>C34: with JSONL records on standard output nothing else is written there: whatever the client, the
  server and the context do, a run with \<open>JSONLStdout\<close> leaves the terminal writer untouched.\<close>

theorem jsonl_stdout_is_pure:
  assumes "opt_JSONLStdout opt"
  shows "rs_out (snd (RunWithOptions en worlds cfg inp opt)) = []"
proof -
  let ?en = "with_options en worlds cfg opt"
  have "en_JSONLStdout ?en" "\<exists>cl. en_complete ?en = client_completion cl worlds"
    using assms by (auto simp: with_options_def Let_def)
  then show ?thesis
    using client.run_out unfolding RunWithOptions_def by (metis prod.collapse)
qed

theorem jsonl_stdout_is_pure_witness:
  "rs_out (snd (RunWithOptions demo_repl (\<lambda>k. breaking_world) demo_config demo_input
     \<lparr>opt_Client = None, opt_Records = en_records demo_repl, opt_JSONLStdout = True\<rparr>)) = []"
  by (rule jsonl_stdout_is_pure) simp

end
