(* ===== verification/Cli.thy ===== *)
theory Cli imports GoFlag ReplRunProps begin

text \<open>
  \<open>main.go\<close>: the flags, the order in which configuration, prompt, input and output are checked, and the
  hand-over to the REPL.  The world gives what the operating system answers; the result is the exit
  code, both streams, the output files created and the run, if it came to one.
\<close>

section \<open>World and result\<close>

datatype create_error = AlreadyExists | CreateFailed string

record cli_world =
  cw_environ :: environment
  cw_ip :: ip_host
  cw_fs :: file_system
  cw_fifo :: "string \<Rightarrow> bool"
  cw_fs_text :: "string \<Rightarrow> string \<Rightarrow> string"     \<comment> \<open>the system's error for an operation on a path\<close>
  cw_create :: "string \<Rightarrow> (create_error, sink) result"
  cw_config_text :: "config_error \<Rightarrow> string"
  cw_stdin :: reader
  cw_repl :: repl_env
  cw_servers :: "nat \<Rightarrow> world"

record cli_result =
  cr_code :: int
  cr_out :: string
  cr_errw :: string
  cr_created :: "string list"
  cr_run :: "repl_state option"

definition usage_text :: string where
  "usage_text = concat
     [''Usage: radichat [-config PATH] [-input PATH] [-output PATH|-]'', nl,
      ''  RadiChat is a small terminal client for OpenAI-compatible chat endpoints.'', nl,
      ''  Local use needs no token. Optional bearer auth names an environment variable in the config file.'', nl,
      ''  Default config path: '', DefaultPath, nl,
      ''  A file literally named - is passed as ./-. There is no -input - stdin alias.'', nl, nl,
      ''Flags:'', nl,
      ''  -config PATH   JSON configuration file (default '', DefaultPath, '')'', nl,
      ''  -input PATH    read conversation lines from PATH instead of stdin'', nl,
      ''  -output PATH   write JSONL results to PATH, or - for stdout'', nl,
      ''  -help          show this help and exit'', nl]"

definition stop :: "int \<Rightarrow> string \<Rightarrow> string \<Rightarrow> cli_result" where
  "stop code out err = \<lparr>cr_code = code, cr_out = out, cr_errw = err, cr_created = [], cr_run = None\<rparr>"

definition complain :: "int \<Rightarrow> string \<Rightarrow> cli_result" where
  "complain code message = stop code [] (''radichat: '' @ message @ nl)"

section \<open>Files and prompt\<close>

definition createOutput :: "cli_world \<Rightarrow> string \<Rightarrow> (string, sink) result" where
  "createOutput w path =
     (let q = go_quote (en_printable (cw_repl w)) path in
      case cw_create w path of
        Inl AlreadyExists \<Rightarrow> Inl (''output file '' @ q @ '' already exists'')
      | Inl (CreateFailed e) \<Rightarrow> Inl (''cannot create output file '' @ q @ '': '' @ e)
      | Inr f \<Rightarrow> Inr f)"

definition openInput :: "cli_world \<Rightarrow> string \<Rightarrow> (string, reader) result" where
  "openInput w path0 =
     (let path = (if path0 = ''-'' then ''./-'' else path0);
          q = go_quote (en_printable (cw_repl w)) path in
      case fs_stat (cw_fs w) path of
        Inl NotExist \<Rightarrow> Inl (''input file '' @ q @ '' not found'')
      | Inl OtherFsError \<Rightarrow> Inl (''cannot read input file '' @ q @ '': '' @ cw_fs_text w ''stat'' path)
      | Inr info \<Rightarrow>
          (if fi_dir info then Inl (''input path '' @ q @ '' is a directory'')
           else if \<not> fi_regular info \<and> \<not> cw_fifo w path then
             Inl (''input path '' @ q @ '' is not a regular file or FIFO'')
           else case fs_open (cw_fs w) path of
             Inl _ \<Rightarrow> Inl (''cannot read input file '' @ q @ '': '' @ cw_fs_text w ''open'' path)
           | Inr f \<Rightarrow> Inr (of_reader f)))"

definition prompt_too_long :: string where
  "prompt_too_long = ''system prompt does not fit in context_budget with generation_reserve; shorten the prompt, reduce generation_reserve, or increase context_budget''"

definition systemPromptFits :: "config \<Rightarrow> string option" where
  "systemPromptFits cfg =
     (if cfg_SystemPrompt cfg = [] then None
      else case Fits [\<lparr>Role = ''system'', Content = cfg_SystemPrompt cfg\<rparr>, \<lparr>Role = ''user'', Content = []\<rparr>]
             (cfg_ContextBudget cfg) (cfg_GenerationReserve cfg) of
        Inl e \<Rightarrow> Some (chat_error_text e)
      | Inr ok \<Rightarrow> (if ok then None else Some prompt_too_long))"

section \<open>The command\<close>

text \<open>The run itself, with the reader and the record writer chosen by the flags.\<close>

definition start_repl ::
  "cli_world \<Rightarrow> config \<Rightarrow> bool \<Rightarrow> reader \<Rightarrow> sink option \<Rightarrow> bool \<Rightarrow> string list \<Rightarrow> cli_result" where
  "start_repl w cfg from_file inp records jsonlStdout created =
     (let en = (cw_repl w)\<lparr>en_interactive := en_interactive (cw_repl w) \<and> \<not> from_file\<rparr> in
      case RunWithOptions en (cw_servers w) cfg inp
             \<lparr>opt_Client = None, opt_Records = records, opt_JSONLStdout = jsonlStdout\<rparr> of
        (code, st) \<Rightarrow>
          \<lparr>cr_code = code, cr_out = (if jsonlStdout then rs_rec st else rs_out st), cr_errw = rs_errw st,
           cr_created = created, cr_run = Some st\<rparr>)"

definition open_output ::
  "cli_world \<Rightarrow> config \<Rightarrow> bool \<Rightarrow> reader \<Rightarrow> string \<Rightarrow> cli_result" where
  "open_output w cfg from_file inp outputPath =
     (if outputPath = [] then start_repl w cfg from_file inp None False []
      else if outputPath = ''-'' then start_repl w cfg from_file inp (Some (en_out (cw_repl w))) True []
      else case createOutput w outputPath of
        Inl e \<Rightarrow> complain 1 e
      | Inr f \<Rightarrow> start_repl w cfg from_file inp (Some f) False [outputPath])"

definition run_radichat :: "cli_world \<Rightarrow> string list \<Rightarrow> cli_result" where
  "run_radichat w args =
     (case flag_parse [''config'', ''input'', ''output''] [] args of
        (Some ErrHelp, _, _) \<Rightarrow> stop 0 usage_text []
      | (Some (FlagFailure e), _, _) \<Rightarrow> stop 2 usage_text (e @ nl)
      | (None, vals, arg # _) \<Rightarrow>
          complain 2 (''unexpected argument '' @ go_quote (en_printable (cw_repl w)) arg @ ''; see -help'')
      | (None, vals, []) \<Rightarrow>
          (case Load (cw_environ w) (cw_ip w) (cw_fs w) (flag_value vals ''config'' DefaultPath) of
             Inl e \<Rightarrow> complain 1 (cw_config_text w e)
           | Inr cfg \<Rightarrow>
               (case systemPromptFits cfg of
                  Some e \<Rightarrow> complain 1 e
                | None \<Rightarrow>
                    (let inputPath = flag_value vals ''input'' []; outputPath = flag_value vals ''output'' [] in
                     if inputPath = [] then open_output w cfg False (cw_stdin w) outputPath
                     else case openInput w inputPath of
                       Inl e \<Rightarrow> complain 1 e
                     | Inr inp \<Rightarrow> open_output w cfg True inp outputPath))))"

section \<open>Exit codes\<close>

definition exit_codes :: "int set" where
  "exit_codes = {0, 1, 130, 143}"

lemma code_cases:
  "interruptExit en \<in> exit_codes" "ExitOK \<in> exit_codes" "ExitError \<in> exit_codes"
  by (simp_all add: interruptExit_def ExitTerminated_def ExitInterrupt_def ExitOK_def ExitError_def exit_codes_def
      split: option.split)

lemma emit_then_code: "emit_then en r eof st = (Some c, st') \<Longrightarrow> c \<in> exit_codes"
  by (auto simp: emit_then_def at_eof_def code_cases split: prod.splits if_splits)

lemma take_turn_code: "take_turn en line n eof st = (Some c, st') \<Longrightarrow> c \<in> exit_codes"
  by (auto simp: take_turn_def finish_turn_def Let_def code_cases dest: emit_then_code
      split: sum.splits prod.splits option.splits if_splits)

lemma handle_line_code: "handle_line en line n eof st = (Some c, st') \<Longrightarrow> c \<in> exit_codes"
  by (auto simp: handle_line_def handleCommand_def unknown_command_def at_eof_def Let_def code_cases
      dest: emit_then_code take_turn_code split: prod.splits bool.splits if_splits)

lemma repl_step_code: "repl_step en st = (Some c, st') \<Longrightarrow> c \<in> exit_codes"
  by (auto simp: repl_step_def Let_def code_cases dest: emit_then_code handle_line_code
      split: prod.splits option.splits line_error.splits if_splits)

lemma runOpts_code: "runOpts en cfg inp = (code, st) \<Longrightarrow> code \<in> exit_codes"
  unfolding runOpts_def
  by (rule run_loop_rule [where P = "\<lambda>_. True"]) (auto dest: repl_step_code)

section \<open>Properties\<close>

lemma prompt_fits_stages:
  assumes "systemPromptFits cfg = None" and "cfg_SystemPrompt cfg \<noteq> []"
  shows "\<exists>msgs c. Stage (New (cfg_ContextBudget cfg) (cfg_GenerationReserve cfg) (cfg_SystemPrompt cfg)) []
     = (Inr (msgs, 0), c)"
proof -
  let ?c = "New (cfg_ContextBudget cfg) (cfg_GenerationReserve cfg) (cfg_SystemPrompt cfg)"
  let ?u = "\<lparr>Role = ''user'', Content = []\<rparr>"
  have "Fits (prefix_msgs ?c [] ?u) (c_budget ?c) (c_reserve ?c) = Inr True"
    using assms by (auto simp: systemPromptFits_def prefix_msgs_def New_def split: sum.splits if_splits)
  then show ?thesis
    by (simp add: Stage_def stage_loop.simps Let_def) (simp add: New_def stage_loop.simps Let_def)
qed

lemma stop_sel [simp]:
  "cr_run (stop c a b) = None" "cr_created (stop c a b) = []" "cr_code (stop c a b) = c"
  "cr_run (complain c e) = None" "cr_created (complain c e) = []" "cr_code (complain c e) = c"
  by (simp_all add: stop_def complain_def)

lemma start_repl_sel:
  "cr_created (start_repl w cfg ff inp recs js created) = created"
  "cr_run (start_repl w cfg ff inp recs js created) \<noteq> None"
  "cr_code (start_repl w cfg ff inp recs js created) \<in> exit_codes"
  by (auto simp: start_repl_def Let_def RunWithOptions_def dest: runOpts_code split: prod.split)

lemma open_output_cases:
  "cr_code (open_output w cfg ff inp p) \<in> exit_codes
   \<and> (cr_run (open_output w cfg ff inp p) = None \<longrightarrow> cr_created (open_output w cfg ff inp p) = [])
   \<and> set (cr_created (open_output w cfg ff inp p)) \<subseteq> {p} - {[], ''-''}
   \<and> (\<forall>q \<in> set (cr_created (open_output w cfg ff inp p)). \<exists>f. cw_create w q = Inr f)"
proof -
  have "1 \<in> exit_codes" by (simp add: exit_codes_def)
  moreover have "\<exists>f. cw_create w p = Inr f" if "createOutput w p = Inr f" for f
    using that by (auto simp: createOutput_def Let_def split: sum.splits create_error.splits)
  ultimately show ?thesis
    by (cases "createOutput w p") (auto simp: open_output_def start_repl_sel)
qed

text \<open>What must hold for the command to go past its checks.\<close>

definition validated :: "cli_world \<Rightarrow> string list \<Rightarrow> config \<Rightarrow> string \<Rightarrow> bool" where
  "validated w args cfg outputPath \<longleftrightarrow>
     (\<exists>vals. flag_parse [''config'', ''input'', ''output''] [] args = (None, vals, [])
       \<and> Load (cw_environ w) (cw_ip w) (cw_fs w) (flag_value vals ''config'' DefaultPath) = Inr cfg
       \<and> systemPromptFits cfg = None
       \<and> (flag_value vals ''input'' [] = [] \<or> (\<exists>inp. openInput w (flag_value vals ''input'' []) = Inr inp))
       \<and> outputPath = flag_value vals ''output'' [])"

lemma run_radichat_cases:
  obtains (stopped) "cr_run (run_radichat w args) = None" "cr_created (run_radichat w args) = []"
      "cr_code (run_radichat w args) \<in> {0, 1, 2}"
    | (opened) cfg ff inp p where "validated w args cfg p" "run_radichat w args = open_output w cfg ff inp p"
proof -
  obtain e vals rest where parse: "flag_parse [''config'', ''input'', ''output''] [] args = (e, vals, rest)"
    by (metis prod.collapse)
  show thesis
  proof (cases "e = None \<and> rest = []")
    case False
    with parse show thesis
      by (intro stopped) (auto simp: run_radichat_def split: option.splits flag_error.splits list.splits)
  next
    case ok: True
    let ?load = "Load (cw_environ w) (cw_ip w) (cw_fs w) (flag_value vals ''config'' DefaultPath)"
    let ?in = "flag_value vals ''input'' []" and ?out = "flag_value vals ''output'' []"
    show thesis
    proof (cases ?load)
      case (Inl x)
      with ok parse show thesis by (intro stopped) (simp_all add: run_radichat_def)
    next
      case cfg: (Inr cfg)
      show thesis
      proof (cases "systemPromptFits cfg")
        case (Some x)
        with ok parse cfg show thesis by (intro stopped) (simp_all add: run_radichat_def)
      next
        case fits: None
        show thesis
        proof (cases "?in = []")
          case True
          with ok parse cfg fits show thesis
            by (intro opened [of cfg ?out False "cw_stdin w"]) (auto simp: run_radichat_def validated_def)
        next
          case False
          show thesis
          proof (cases "openInput w ?in")
            case (Inl x)
            with False ok parse cfg fits show thesis by (intro stopped) (simp_all add: run_radichat_def)
          next
            case (Inr inp)
            with False ok parse cfg fits show thesis
              by (intro opened [of cfg ?out True inp]) (auto simp: run_radichat_def validated_def)
          qed
        qed
      qed
    qed
  qed
qed

text \<open>C10: nothing starts unchecked: the command ends with one of the documented exit codes; it starts the
  REPL only after the flags, the configuration, the fit of the system prompt and the input have been
  checked.  If the configuration then in force has a (nonempty) system prompt, a first empty message
  is sure to fit beside it; without one the fit is not checked at startup and nothing is claimed.
  The only file a run creates is the one named by \<open>-output\<close>, newly, and if no run starts none is
  created.\<close>

theorem startup_is_validated:
  "let res = run_radichat w args in
     cr_code res \<in> {0, 1, 2, 130, 143}
     \<and> (cr_run res = None \<longrightarrow> cr_created res = [])
     \<and> (cr_run res \<noteq> None \<longrightarrow>
         (\<exists>cfg p. validated w args cfg p
            \<and> set (cr_created res) \<subseteq> {p} - {[], ''-''}
            \<and> (\<forall>q \<in> set (cr_created res). \<exists>f. cw_create w q = Inr f)
            \<and> (cfg_SystemPrompt cfg \<noteq> [] \<longrightarrow>
                (\<exists>msgs c. Stage (New (cfg_ContextBudget cfg) (cfg_GenerationReserve cfg) (cfg_SystemPrompt cfg)) []
                   = (Inr (msgs, 0), c)))))"
proof (cases rule: run_radichat_cases [of w args])
  case stopped
  then show ?thesis by (auto simp: Let_def)
next
  case (opened cfg ff inp p)
  have "systemPromptFits cfg = None" using opened(1) by (auto simp: validated_def)
  then have stages: "cfg_SystemPrompt cfg \<noteq> [] \<Longrightarrow>
      \<exists>msgs c. Stage (New (cfg_ContextBudget cfg) (cfg_GenerationReserve cfg) (cfg_SystemPrompt cfg)) [] = (Inr (msgs, 0), c)"
    by (rule prompt_fits_stages)
  define res where "res = run_radichat w args"
  then have "res = open_output w cfg ff inp p" using opened(2) by simp
  then have "cr_code res \<in> exit_codes" "cr_run res = None \<longrightarrow> cr_created res = []"
    and out: "set (cr_created res) \<subseteq> {p} - {[], ''-''} \<and> (\<forall>q \<in> set (cr_created res). \<exists>f. cw_create w q = Inr f)"
    using open_output_cases [of w cfg ff inp p] by simp_all
  moreover have "\<exists>cfg p. validated w args cfg p \<and> set (cr_created res) \<subseteq> {p} - {[], ''-''}
            \<and> (\<forall>q \<in> set (cr_created res). \<exists>f. cw_create w q = Inr f)
            \<and> (cfg_SystemPrompt cfg \<noteq> [] \<longrightarrow>
                (\<exists>msgs c. Stage (New (cfg_ContextBudget cfg) (cfg_GenerationReserve cfg) (cfg_SystemPrompt cfg)) []
                   = (Inr (msgs, 0), c)))"
    using opened(1) out stages by (intro exI [of _ cfg] exI [of _ p]) simp
  ultimately show ?thesis by (auto simp: exit_codes_def Let_def simp flip: res_def)
qed

definition demo_cli :: cli_world where
  "demo_cli = \<lparr>cw_environ = demo_env, cw_ip = no_ip_host, cw_fs = demo_files, cw_fifo = (\<lambda>_. False),
     cw_fs_text = (\<lambda>_ _. []), cw_create = (\<lambda>p. if p = ''old'' then Inl AlreadyExists else Inr (\<lambda>t d. (length d, None))),
     cw_config_text = (\<lambda>_. []), cw_stdin = demo_input, cw_repl = demo_repl, cw_servers = (\<lambda>_. breaking_world)\<rparr>"

theorem startup_is_validated_witness:
  "\<exists>cfg p. validated demo_cli [''-config'', ''c.json'', ''--output=new''] cfg p"
proof -
  let ?args = "[''-config'', ''c.json'', ''--output=new'']"
  have "flag_parse [''config'', ''input'', ''output''] [] ?args
      = (None, [(''output'', ''new''), (''config'', ''c.json'')], [])"
    by (simp add: classify_arg_def flag_name_def)
  moreover have "systemPromptFits demo_config = None"
    by (simp add: systemPromptFits_def Fits_spec small_msgs_def units_of_def size_message_ext_def demo_config_def)
  ultimately have "cr_run (run_radichat demo_cli ?args) \<noteq> None"
    using demo_load start_repl_sel(2)
    by (simp add: run_radichat_def flag_value_def demo_cli_def open_output_def createOutput_def Let_def)
  with startup_is_validated [of demo_cli ?args] show ?thesis unfolding Let_def by blast
qed

end
