(* ===== verification/MockWire.thy ===== *)
theory MockWire imports ClientProps begin

text \<open>
  \<open>internal/mockllm/fragment.go\<close> and the wire helpers of \<open>scenarios.go\<close>: what the mock endpoint writes,
  as segments, and how a wire is cut into them.
\<close>

unbundle bit_operations_syntax

section \<open>Segments\<close>

record segment =
  seg_Bytes :: string
  seg_Delay :: int
  seg_CloseAfter :: bool

definition plain_segment :: "string \<Rightarrow> segment" where
  "plain_segment b = \<lparr>seg_Bytes = b, seg_Delay = 0, seg_CloseAfter = False\<rparr>"

definition WireBytes :: "segment list \<Rightarrow> string" where
  "WireBytes segments = concat (map seg_Bytes segments)"

definition slice :: "string \<Rightarrow> nat \<Rightarrow> nat \<Rightarrow> string" where
  "slice data i j = take (j - i) (drop i data)"

text \<open>The spans between the offsets, or nothing at the first offset that does not advance or is not inside.\<close>

fun fragment_spans :: "nat \<Rightarrow> nat \<Rightarrow> int list \<Rightarrow> (nat \<times> nat) list option" where
  "fragment_spans n prev [] = Some [(prev, n)]"
| "fragment_spans n prev (off # offs) =
     (if off \<le> int prev \<or> int n \<le> off then None
      else map_option (\<lambda>spans. (prev, nat off) # spans) (fragment_spans n (nat off) offs))"

definition Fragment :: "string \<Rightarrow> int list \<Rightarrow> segment list" where
  "Fragment data offsets =
     (case fragment_spans (length data) 0 offsets of
        None \<Rightarrow> []
      | Some spans \<Rightarrow> map (\<lambda>(i, j). plain_segment (slice data i j)) spans)"

definition FragmentAt :: "string \<Rightarrow> segment list" where
  "FragmentAt data = [plain_segment data]"

definition FragmentText :: "string \<Rightarrow> segment list" where
  "FragmentText s = [plain_segment s]"

text \<open>At most \<open>n\<close> bytes each; a count that is not positive gives nothing.\<close>

function every_n :: "nat \<Rightarrow> string \<Rightarrow> segment list" where
  "every_n n data = (if n = 0 \<or> data = [] then [] else plain_segment (take n data) # every_n n (drop n data))"
  by pat_completeness auto
termination
  by (relation "measure (\<lambda>(n, data). length data)") auto

declare every_n.simps [simp del]

definition FragmentEveryN :: "string \<Rightarrow> int \<Rightarrow> segment list" where
  "FragmentEveryN data n = (if n \<le> 0 then [] else every_n (nat n) data)"

section \<open>Offsets\<close>

definition continuation :: "char \<Rightarrow> bool" where
  "continuation c \<longleftrightarrow> (of_char c :: nat) AND 0xC0 = 0x80"

fun mid_rune_from :: "nat \<Rightarrow> string \<Rightarrow> int" where
  "mid_rune_from i [] = - 1"
| "mid_rune_from i (c # cs) = (if continuation c then int i else mid_rune_from (Suc i) cs)"

definition midRuneOffset :: "string \<Rightarrow> int" where
  "midRuneOffset s = mid_rune_from 1 (drop 1 s)"

fun crlf_split_from :: "nat \<Rightarrow> string \<Rightarrow> int" where
  "crlf_split_from i (a # b # cs) =
     (if a = CHR 0x0D \<and> b = CHR 0x0A then int i + 1 else crlf_split_from (Suc i) (b # cs))"
| "crlf_split_from i _ = - 1"

definition firstCRLFSplit :: "string \<Rightarrow> int" where
  "firstCRLFSplit s = crlf_split_from 0 s"

definition firstDataFieldSplit :: "string \<Rightarrow> int" where
  "firstDataFieldSplit s = (case index_of s ''data:'' of None \<Rightarrow> - 1 | Some i \<Rightarrow> int i + 5 + 1)"

definition firstDoneSplit :: "string \<Rightarrow> int" where
  "firstDoneSplit s = (case index_of s ''[DONE]'' of None \<Rightarrow> - 1 | Some i \<Rightarrow> int i + 3)"

section \<open>Events\<close>

definition doneMarker :: string where
  "doneMarker = ''data: [DONE]'' @ [LF, LF]"

definition rawEvent :: "string \<Rightarrow> string" where
  "rawEvent payload = ''data: '' @ payload @ [LF, LF]"

text \<open>\<open>json.Marshal\<close> of maps writes the keys in order.\<close>

definition chunk_json :: "string \<Rightarrow> string \<Rightarrow> json" where
  "chunk_json content finish = JObj [json_member ''choices'' (JArr [JObj
     [json_member ''delta'' (JObj (if content = [] then [] else [json_member ''content'' (JStr content)])),
      json_member ''finish_reason'' (if finish = [] then JNull else JStr finish)]])]"

definition chunk :: "string \<Rightarrow> string \<Rightarrow> string" where
  "chunk content finish = rawEvent (json_print True (chunk_json content finish))"

definition successWire :: "string \<Rightarrow> string \<Rightarrow> segment list" where
  "successWire content finish = FragmentAt (chunk content [] @ chunk [] finish @ doneMarker)"

fun multi_chunks :: "string list \<Rightarrow> string" where
  "multi_chunks [] = []"
| "multi_chunks (p # ps) = chunk p (if ps = [] then ''stop'' else []) @ multi_chunks ps"

definition successWireMulti :: "string list \<Rightarrow> segment list" where
  "successWireMulti parts = FragmentAt (multi_chunks parts @ doneMarker)"

datatype wire_part = PartText string | PartSegment segment | PartSegments "segment list"

fun part_bytes :: "wire_part \<Rightarrow> string" where
  "part_bytes (PartText s) = s"
| "part_bytes (PartSegment s) = seg_Bytes s"
| "part_bytes (PartSegments ss) = WireBytes ss"

definition concat_parts :: "wire_part list \<Rightarrow> segment list" where
  "concat_parts parts = FragmentAt (concat (map part_bytes parts))"

fun crlf_loop :: "string \<Rightarrow> string \<Rightarrow> string" where
  "crlf_loop out [] = out"
| "crlf_loop out (c # cs) =
     crlf_loop ((if c = LF \<and> (out = [] \<or> last out \<noteq> CR) then out @ [CR] else out) @ [c]) cs"

definition crlf :: "string \<Rightarrow> string" where
  "crlf s = crlf_loop [] s"

section \<open>Cutting a wire keeps its bytes\<close>

lemma fragment_spans_bytes:
  assumes "fragment_spans (length data) prev offs = Some spans" and "prev \<le> length data"
  shows "concat (map (\<lambda>(i, j). slice data i j) spans) = drop prev data \<and> length spans = Suc (length offs)"
  using assms
proof (induction offs arbitrary: prev spans)
  case (Cons off offs)
  then obtain rest where rest: "fragment_spans (length data) (nat off) offs = Some rest"
    and spans: "spans = (prev, nat off) # rest" and off: "int prev < off" "off < int (length data)"
    by (auto split: if_splits)
  have "slice data prev (nat off) @ drop (nat off) data = drop prev data"
    using off by (simp add: slice_def)
      (metis append_take_drop_id drop_drop le_add_diff_inverse2 less_imp_le nat_less_iff of_nat_0_le_iff zless_nat_eq_int_zless)
  with Cons.IH [OF rest] spans off show ?case by simp
qed (simp add: slice_def)

definition inside_offsets :: "nat \<Rightarrow> int list \<Rightarrow> bool" where
  "inside_offsets n offs \<longleftrightarrow> sorted_wrt (<) (0 # offs) \<and> (\<forall>off \<in> set offs. off < int n)"

lemma fragment_spans_valid:
  "(\<exists>spans. fragment_spans n prev offs = Some spans)
     \<longleftrightarrow> sorted_wrt (<) (int prev # offs) \<and> (\<forall>off \<in> set offs. off < int n)"
proof (induction offs arbitrary: prev)
  case (Cons off offs)
  have "(\<exists>spans. fragment_spans n prev (off # offs) = Some spans)
      \<longleftrightarrow> int prev < off \<and> off < int n \<and> (\<exists>spans. fragment_spans n (nat off) offs = Some spans)"
    by auto
  also have "\<dots> \<longleftrightarrow> sorted_wrt (<) (int prev # off # offs) \<and> (\<forall>x \<in> set (off # offs). x < int n)"
    unfolding Cons.IH by auto
  finally show ?case .
qed simp

lemma every_n_bytes:
  "0 < n \<Longrightarrow> WireBytes (every_n n data) = data
     \<and> (\<forall>s \<in> set (every_n n data). seg_Bytes s \<noteq> [] \<and> length (seg_Bytes s) \<le> n)"
proof (induction n data rule: every_n.induct)
  case (1 n data)
  then show ?case
    by (subst (1 2) every_n.simps) (auto simp: WireBytes_def plain_segment_def)
qed

end
