(* ===== verification/MockCatalog.thy ===== *)
theory MockCatalog imports MockWire "HOL-Library.List_Lexorder" "HOL-Library.Char_ord" begin

text \<open>
  \<open>internal/mockllm/mockllm.go\<close> and the catalog of \<open>scenarios.go\<close>: the scenario type, the registry, and
  every registered scenario with the bytes it writes.  A scenario is data, as in the source: a field
  the source leaves out has its zero value.  The registry is the list of scenarios in the order of
  their registration; what Go iterates over in any order is sorted before it is returned.
\<close>

section \<open>Scenarios\<close>

datatype mode = ModeHTTP | ModeRaw | OtherMode int

definition mode_text :: "mode \<Rightarrow> string" where
  "mode_text m =
     (case m of ModeHTTP \<Rightarrow> ''http'' | ModeRaw \<Rightarrow> ''raw'' | OtherMode n \<Rightarrow> ''Mode('' @ show_int n @ '')'')"

record auth_spec =
  as_Required :: bool
  as_Token :: string

datatype expect_value = WantInt int | WantBool bool | WantString string

record expect =
  ex_Method :: string
  ex_Fields :: "(string \<times> expect_value) list"
  ex_Messages :: "string list"
  ex_Note :: string

record scenario =
  sc_Name :: string
  sc_Family :: string
  sc_Description :: string
  sc_Auth :: auth_spec
  sc_Status :: int
  sc_Headers :: "(string \<times> string) list"
  sc_Redirect :: string
  sc_Wire :: "segment list"
  sc_Mode :: mode
  sc_Expect :: expect

definition zero_expect :: expect where
  "zero_expect = \<lparr>ex_Method = [], ex_Fields = [], ex_Messages = [], ex_Note = []\<rparr>"

definition zero_scenario :: scenario where
  "zero_scenario = \<lparr>sc_Name = [], sc_Family = [], sc_Description = [],
     sc_Auth = \<lparr>as_Required = False, as_Token = []\<rparr>, sc_Status = 0, sc_Headers = [], sc_Redirect = [],
     sc_Wire = [], sc_Mode = ModeHTTP, sc_Expect = zero_expect\<rparr>"

definition scenarioPathPrefix :: string where
  "scenarioPathPrefix = ''/v1/chat/completions/''"

definition scenario_path :: "scenario \<Rightarrow> string" where
  "scenario_path s = scenarioPathPrefix @ sc_Name s"

definition scenario_status :: "scenario \<Rightarrow> int" where
  "scenario_status s = (if sc_Status s = 0 then 200 else sc_Status s)"

definition redirectStatus :: "scenario \<Rightarrow> int" where
  "redirectStatus s = (if sc_Status s = 0 then 302 else sc_Status s)"

section \<open>The registry\<close>

type_synonym registry = "scenario list"

datatype register_panic = NoName | DuplicateName string

definition Lookup :: "registry \<Rightarrow> string \<Rightarrow> scenario option" where
  "Lookup reg name = List.find (\<lambda>s. sc_Name s = name) reg"

definition Register :: "scenario \<Rightarrow> registry \<Rightarrow> (register_panic, registry) result" where
  "Register s reg =
     (if sc_Name s = [] then Inl NoName
      else if Lookup reg (sc_Name s) \<noteq> None then Inl (DuplicateName (sc_Name s))
      else Inr (reg @ [s]))"

fun register_all :: "scenario list \<Rightarrow> registry \<Rightarrow> (register_panic, registry) result" where
  "register_all [] reg = Inr reg"
| "register_all (s # ss) reg = (case Register s reg of Inl p \<Rightarrow> Inl p | Inr reg' \<Rightarrow> register_all ss reg')"

definition Names :: "registry \<Rightarrow> string list" where
  "Names reg = sort (map sc_Name reg)"

definition Catalog :: "registry \<Rightarrow> scenario list" where
  "Catalog reg = map (\<lambda>name. the (Lookup reg name)) (Names reg)"

definition Families :: "registry \<Rightarrow> string list" where
  "Families reg = sort (remdups (map sc_Family reg))"

section \<open>The catalog\<close>

definition SentinelToken :: string where
  "SentinelToken = ''mockllm-sentinel-token-not-a-real-credential''"

definition SentinelEnvName :: string where
  "SentinelEnvName = ''MOCKLLM_SENTINEL_TOKEN''"

definition contentTypeSSE :: string where
  "contentTypeSSE = ''text/event-stream''"

definition contentTypeJSON :: string where
  "contentTypeJSON = ''application/json''"

definition sseHeaders :: "(string \<times> string) list" where
  "sseHeaders = [(''Content-Type'', contentTypeSSE)]"

definition stream_scenarios :: "scenario list" where
  "stream_scenarios =
    [zero_scenario
     \<lparr>sc_Name := ''stream-success-basic'',
      sc_Family := ''stream'',
      sc_Description := ''Successful streamed response: one content delta, a stop finish reason, then [DONE].'',
      sc_Headers := sseHeaders,
      sc_Wire := successWire ''hello'' ''stop'',
      sc_Expect := zero_expect\<lparr>ex_Method := ''POST'',
        ex_Fields := [(''stream'', WantBool True)],
        ex_Note := ''Baseline successful exchange; RadiChat prints the assistant text and commits the turn.''\<rparr>\<rparr>,
     zero_scenario
     \<lparr>sc_Name := ''stream-success-multibyte'',
      sc_Family := ''stream'',
      sc_Description := ''Successful stream whose content is multibyte UTF-8 (accents, emoji, CJK) split across deltas.'',
      sc_Headers := sseHeaders,
      sc_Wire := successWireMulti [''h'' @ [CHR 0xC3, CHR 0xA9] @ ''llo'', [CHR 0xF0, CHR 0x9F, CHR 0x8C, CHR 0x8D], [CHR 0xE6, CHR 0x97, CHR 0xA5, CHR 0xE6, CHR 0x9C, CHR 0xAC, CHR 0xE8, CHR 0xAA, CHR 0x9E]],
      sc_Expect := zero_expect\<lparr>ex_Method := ''POST'',
        ex_Note := ''UTF-8 content must be reassembled byte for byte; a rune must not become a replacement character.''\<rparr>\<rparr>,
     zero_scenario
     \<lparr>sc_Name := ''stream-success-length-finish'',
      sc_Family := ''stream'',
      sc_Description := ''Successful stream that ends with finish_reason length, which RadiChat treats as success.'',
      sc_Headers := sseHeaders,
      sc_Wire := successWire ''truncated text'' ''length'',
      sc_Expect := zero_expect\<lparr>ex_Method := ''POST'',
        ex_Note := ''A length finish is a success: RadiChat commits the complete streamed text without local truncation.''\<rparr>\<rparr>,
     zero_scenario
     \<lparr>sc_Name := ''stream-success-role-only'',
      sc_Family := ''stream'',
      sc_Description := ''Stream whose first delta carries only a role, then empty deltas, then content.'',
      sc_Headers := sseHeaders,
      sc_Wire := concat_parts
        [PartText (rawEvent ''{\"choices\":[{\"delta\":{\"role\":\"assistant\"},\"finish_reason\":null}]}''),
         PartText (rawEvent ''{\"choices\":[{\"delta\":{},\"finish_reason\":null}]}''),
         PartText (chunk ''ok'' ''stop''), PartText doneMarker],
      sc_Expect := zero_expect\<lparr>ex_Method := ''POST'',
        ex_Note := ''Role-only chunks and empty deltas are legal and contribute no assistant text.''\<rparr>\<rparr>,
     zero_scenario
     \<lparr>sc_Name := ''stream-success-crlf'',
      sc_Family := ''stream'',
      sc_Description := ''Successful stream framed with CRLF line endings.'',
      sc_Headers := sseHeaders,
      sc_Wire := FragmentText (crlf (chunk ''crlf text'' ''stop'' @ doneMarker)),
      sc_Expect := zero_expect\<lparr>ex_Method := ''POST'',
        ex_Note := ''LF and CRLF framing are both accepted.''\<rparr>\<rparr>,
     zero_scenario
     \<lparr>sc_Name := ''stream-success-comments'',
      sc_Family := ''stream'',
      sc_Description := ''Successful stream with SSE comments and ignored event, id, and retry fields.'',
      sc_Headers := sseHeaders,
      sc_Wire := concat_parts
        [PartText ('': keep-alive comment'' @ [CR, LF]), PartText (''event: message'' @ [CR, LF] @ ''id: 1'' @ [CR, LF] @ ''retry: 100'' @ [CR, LF]),
         PartText (chunk ''commented'' []), PartText [LF], PartText (chunk [] ''stop''), PartText doneMarker],
      sc_Expect := zero_expect\<lparr>ex_Method := ''POST'',
        ex_Note := ''Comment lines and non-data fields are ignored; only data payloads are consumed.''\<rparr>\<rparr>,
     zero_scenario
     \<lparr>sc_Name := ''stream-success-no-content-type'',
      sc_Family := ''stream'',
      sc_Description := ''Successful stream with the Content-Type header omitted, which RadiChat still parses as SSE.'',
      sc_Headers := [],
      sc_Wire := successWire ''untyped'' ''stop'',
      sc_Expect := zero_expect\<lparr>ex_Method := ''POST'',
        ex_Note := ''An omitted Content-Type is parsed as SSE; a present but wrong one is not.''\<rparr>\<rparr>,
     zero_scenario
     \<lparr>sc_Name := ''stream-success-empty-content'',
      sc_Family := ''stream'',
      sc_Description := ''Stream that completes with no assistant text at all.'',
      sc_Headers := sseHeaders,
      sc_Wire := FragmentText (chunk [] ''stop'' @ doneMarker),
      sc_Expect := zero_expect\<lparr>ex_Method := ''POST'',
        ex_Note := ''A choice with no content is a valid empty completion, not an error.''\<rparr>\<rparr>]"

text \<open>The wires that are cut at chosen offsets.\<close>

definition multi_wire :: string where
  "multi_wire = chunk (''h'' @ [CHR 0xC3, CHR 0xA9] @ ''llo'') ''stop'' @ doneMarker"

definition crlf_wire :: string where
  "crlf_wire = crlf (chunk ''crlf'' ''stop'' @ doneMarker)"

definition data_wire :: string where
  "data_wire = chunk ''frag'' ''stop'' @ doneMarker"

definition done_wire :: string where
  "done_wire = chunk ''done'' ''stop'' @ doneMarker"

definition framing_scenarios :: "scenario list" where
  "framing_scenarios =
    [zero_scenario
     \<lparr>sc_Name := ''fragment-utf8-inside-rune'',
      sc_Family := ''framing'',
      sc_Description := ''One successful stream fragmented at a byte offset inside a multibyte UTF-8 sequence.'',
      sc_Headers := sseHeaders,
      sc_Wire := Fragment multi_wire [midRuneOffset multi_wire],
      sc_Expect := zero_expect\<lparr>ex_Method := ''POST'',
        ex_Note := ''A rune split across writes must be reassembled, not replaced with U+FFFD.''\<rparr>\<rparr>,
     zero_scenario
     \<lparr>sc_Name := ''fragment-inside-crlf'',
      sc_Family := ''framing'',
      sc_Description := ''One successful CRLF-framed stream fragmented between the CR and LF of a line ending.'',
      sc_Headers := sseHeaders,
      sc_Wire := Fragment crlf_wire [firstCRLFSplit crlf_wire],
      sc_Expect := zero_expect\<lparr>ex_Method := ''POST'',
        ex_Note := ''A CRLF split across writes must not be mistaken for two line endings.''\<rparr>\<rparr>,
     zero_scenario
     \<lparr>sc_Name := ''fragment-inside-data-field'',
      sc_Family := ''framing'',
      sc_Description := ''One successful stream fragmented inside a data: field, between the field name and its payload.'',
      sc_Headers := sseHeaders,
      sc_Wire := Fragment data_wire [firstDataFieldSplit data_wire],
      sc_Expect := zero_expect\<lparr>ex_Method := ''POST'',
        ex_Note := ''A data: field split across writes must be reassembled before parsing.''\<rparr>\<rparr>,
     zero_scenario
     \<lparr>sc_Name := ''fragment-inside-done'',
      sc_Family := ''framing'',
      sc_Description := ''One successful stream fragmented inside the [DONE] marker.'',
      sc_Headers := sseHeaders,
      sc_Wire := Fragment done_wire [firstDoneSplit done_wire],
      sc_Expect := zero_expect\<lparr>ex_Method := ''POST'',
        ex_Note := ''The [DONE] marker must be recognized even when split across writes.''\<rparr>\<rparr>,
     zero_scenario
     \<lparr>sc_Name := ''fragment-byte-by-byte'',
      sc_Family := ''framing'',
      sc_Description := ''One successful stream delivered one byte at a time.'',
      sc_Headers := sseHeaders,
      sc_Wire := FragmentEveryN multi_wire 1,
      sc_Expect := zero_expect\<lparr>ex_Method := ''POST'',
        ex_Note := ''Extreme fragmentation still yields the same assembled assistant text.''\<rparr>\<rparr>,
     zero_scenario
     \<lparr>sc_Name := ''fragment-multiple-events-one-write'',
      sc_Family := ''framing'',
      sc_Description := ''Several complete events delivered in a single write, the opposite of fragmentation.'',
      sc_Headers := sseHeaders,
      sc_Wire := concat_parts [PartText (chunk ''one'' []), PartText (chunk ''two'' []), PartText (chunk [] ''stop''), PartText doneMarker],
      sc_Expect := zero_expect\<lparr>ex_Method := ''POST'',
        ex_Note := ''Multiple events in one read must all be processed.''\<rparr>\<rparr>]"

definition malformed_scenarios :: "scenario list" where
  "malformed_scenarios =
    [zero_scenario
     \<lparr>sc_Name := ''malformed-json-event'',
      sc_Family := ''malformed'',
      sc_Description := ''Stream containing a data event whose payload is not valid JSON.'',
      sc_Headers := sseHeaders,
      sc_Wire := FragmentText (rawEvent ''{not json'' @ doneMarker),
      sc_Expect := zero_expect\<lparr>ex_Method := ''POST'',
        ex_Note := ''Malformed stream JSON fails with a clear parse error.''\<rparr>\<rparr>,
     zero_scenario
     \<lparr>sc_Name := ''malformed-delta-content-not-string'',
      sc_Family := ''malformed'',
      sc_Description := ''Stream whose delta.content is a number rather than a JSON string.'',
      sc_Headers := sseHeaders,
      sc_Wire := FragmentText (rawEvent ''{\"choices\":[{\"delta\":{\"content\":42},\"finish_reason\":null}]}'' @ doneMarker),
      sc_Expect := zero_expect\<lparr>ex_Method := ''POST'',
        ex_Note := ''Non-string delta content fails as an unsupported protocol subset.''\<rparr>\<rparr>,
     zero_scenario
     \<lparr>sc_Name := ''malformed-multiple-choices'',
      sc_Family := ''malformed'',
      sc_Description := ''Stream event carrying more than one choice.'',
      sc_Headers := sseHeaders,
      sc_Wire := FragmentText (rawEvent ''{\"choices\":[{\"delta\":{\"content\":\"a\"},\"finish_reason\":null},{\"delta\":{\"content\":\"b\"},\"finish_reason\":null}]}'' @ doneMarker),
      sc_Expect := zero_expect\<lparr>ex_Method := ''POST'',
        ex_Note := ''Multiple choices fail; RadiChat supports exactly one.''\<rparr>\<rparr>,
     zero_scenario
     \<lparr>sc_Name := ''malformed-early-termination'',
      sc_Family := ''malformed'',
      sc_Description := ''Stream that ends before [DONE], with no terminal marker at all.'',
      sc_Headers := sseHeaders,
      sc_Wire := [plain_segment (chunk ''partial'' []), (plain_segment [])\<lparr>seg_CloseAfter := True\<rparr>],
      sc_Expect := zero_expect\<lparr>ex_Method := ''POST'',
        ex_Note := ''Premature EOF without [DONE] fails and the turn is not committed.''\<rparr>\<rparr>,
     zero_scenario
     \<lparr>sc_Name := ''malformed-early-termination-mid-event'',
      sc_Family := ''malformed'',
      sc_Description := ''Stream truncated in the middle of an event, after partial JSON has been written.'',
      sc_Headers := sseHeaders,
      sc_Wire := [plain_segment (chunk ''partial'' []),
        (plain_segment ''data: {\"choices\":[{\"delta\"'')\<lparr>seg_CloseAfter := True\<rparr>],
      sc_Expect := zero_expect\<lparr>ex_Method := ''POST'',
        ex_Note := ''Truncation inside an event also fails; partial data is never committed.''\<rparr>\<rparr>,
     zero_scenario
     \<lparr>sc_Name := ''stream-error-object'',
      sc_Family := ''malformed'',
      sc_Description := ''Stream carrying a JSON error object.'',
      sc_Headers := sseHeaders,
      sc_Wire := FragmentText (rawEvent ''{\"error\":{\"message\":\"model unavailable\",\"type\":\"server_error\"}}'' @ doneMarker),
      sc_Expect := zero_expect\<lparr>ex_Method := ''POST'',
        ex_Note := ''A stream error object fails as an endpoint error.''\<rparr>\<rparr>,
     zero_scenario
     \<lparr>sc_Name := ''stream-error-non-object'',
      sc_Family := ''malformed'',
      sc_Description := ''Stream carrying a non-null error value that is not a JSON object.'',
      sc_Headers := sseHeaders,
      sc_Wire := FragmentText (rawEvent ''{\"error\":[\"boom\"]}'' @ doneMarker),
      sc_Expect := zero_expect\<lparr>ex_Method := ''POST'',
        ex_Note := ''A malformed error payload fails closed.''\<rparr>\<rparr>,
     zero_scenario
     \<lparr>sc_Name := ''stream-error-null-ignored'',
      sc_Family := ''malformed'',
      sc_Description := ''Stream carrying an explicit null error, which is not an error.'',
      sc_Headers := sseHeaders,
      sc_Wire := FragmentText (rawEvent ''{\"error\":null,\"choices\":[{\"delta\":{\"content\":\"fine\"},\"finish_reason\":\"stop\"}]}'' @ doneMarker),
      sc_Expect := zero_expect\<lparr>ex_Method := ''POST'',
        ex_Note := ''JSON null error and an omitted error field are both ignored.''\<rparr>\<rparr>,
     zero_scenario
     \<lparr>sc_Name := ''stream-tool-calls-rejected'',
      sc_Family := ''malformed'',
      sc_Description := ''Stream delta carrying tool_calls.'',
      sc_Headers := sseHeaders,
      sc_Wire := FragmentText (rawEvent ''{\"choices\":[{\"delta\":{\"tool_calls\":[{\"id\":\"c1\",\"function\":{\"name\":\"f\",\"arguments\":\"{}\"}}]},\"finish_reason\":null}]}'' @ doneMarker),
      sc_Expect := zero_expect\<lparr>ex_Method := ''POST'',
        ex_Note := ''Tool-call deltas fail; tools are outside the supported subset.''\<rparr>\<rparr>,
     zero_scenario
     \<lparr>sc_Name := ''stream-function-call-rejected'',
      sc_Family := ''malformed'',
      sc_Description := ''Stream delta carrying function_call.'',
      sc_Headers := sseHeaders,
      sc_Wire := FragmentText (rawEvent ''{\"choices\":[{\"delta\":{\"function_call\":{\"name\":\"f\",\"arguments\":\"{}\"}},\"finish_reason\":null}]}'' @ doneMarker),
      sc_Expect := zero_expect\<lparr>ex_Method := ''POST'',
        ex_Note := ''Function-call deltas fail; functions are outside the supported subset.''\<rparr>\<rparr>,
     zero_scenario
     \<lparr>sc_Name := ''stream-finish-content-filter'',
      sc_Family := ''malformed'',
      sc_Description := ''Stream that completes with finish_reason content_filter.'',
      sc_Headers := sseHeaders,
      sc_Wire := FragmentText (chunk [] ''content_filter'' @ doneMarker),
      sc_Expect := zero_expect\<lparr>ex_Method := ''POST'',
        ex_Note := ''content_filter fails with a clear refusal message.''\<rparr>\<rparr>,
     zero_scenario
     \<lparr>sc_Name := ''stream-finish-unsupported'',
      sc_Family := ''malformed'',
      sc_Description := ''Stream that completes with an unrecognized nonempty finish_reason.'',
      sc_Headers := sseHeaders,
      sc_Wire := FragmentText (chunk [] ''weird_reason'' @ doneMarker),
      sc_Expect := zero_expect\<lparr>ex_Method := ''POST'',
        ex_Note := ''An unsupported finish reason fails rather than being ignored.''\<rparr>\<rparr>]"

definition http_error_scenarios :: "scenario list" where
  "http_error_scenarios =
    [zero_scenario
     \<lparr>sc_Name := ''http-error-401'',
      sc_Family := ''http-error'',
      sc_Description := ''HTTP 401 with a text/plain body.'',
      sc_Status := 401,
      sc_Headers := [(''Content-Type'', ''text/plain'')],
      sc_Wire := FragmentText (''unauthorized'' @ [LF]),
      sc_Expect := zero_expect\<lparr>ex_Method := ''POST'',
        ex_Note := ''A 401 status fails with the status code and a fix hint.''\<rparr>\<rparr>,
     zero_scenario
     \<lparr>sc_Name := ''http-error-429'',
      sc_Family := ''http-error'',
      sc_Description := ''HTTP 429 with a JSON error body.'',
      sc_Status := 429,
      sc_Headers := [(''Content-Type'', contentTypeJSON)],
      sc_Wire := FragmentText ''{\"error\":{\"message\":\"rate limited\"}}'',
      sc_Expect := zero_expect\<lparr>ex_Method := ''POST'',
        ex_Note := ''A 429 status fails without any retry.''\<rparr>\<rparr>,
     zero_scenario
     \<lparr>sc_Name := ''http-error-500'',
      sc_Family := ''http-error'',
      sc_Description := ''HTTP 500 with an HTML error body.'',
      sc_Status := 500,
      sc_Headers := [(''Content-Type'', ''text/html'')],
      sc_Wire := FragmentText ''<html><body>internal error</body></html>'',
      sc_Expect := zero_expect\<lparr>ex_Method := ''POST'',
        ex_Note := ''A 500 status fails with the status code and a fix hint.''\<rparr>\<rparr>,
     zero_scenario
     \<lparr>sc_Name := ''http-error-404-unknown-model'',
      sc_Family := ''http-error'',
      sc_Description := ''HTTP 404 with a JSON body naming an unknown model.'',
      sc_Status := 404,
      sc_Headers := [(''Content-Type'', contentTypeJSON)],
      sc_Wire := FragmentText ''{\"error\":{\"message\":\"model not found\",\"code\":\"model_not_found\"}}'',
      sc_Expect := zero_expect\<lparr>ex_Method := ''POST'',
        ex_Note := ''A 404 for a bad model name fails with the status and a fix hint.''\<rparr>\<rparr>,
     zero_scenario
     \<lparr>sc_Name := ''non-sse-content-type'',
      sc_Family := ''http-error'',
      sc_Description := ''HTTP 200 with a non-SSE Content-Type and a non-streaming JSON body.'',
      sc_Headers := [(''Content-Type'', contentTypeJSON)],
      sc_Wire := FragmentText ''{\"choices\":[{\"message\":{\"role\":\"assistant\",\"content\":\"non-streaming\"}}]}'',
      sc_Expect := zero_expect\<lparr>ex_Method := ''POST'',
        ex_Note := ''A non-streaming JSON response fails; there is no fallback.''\<rparr>\<rparr>,
     zero_scenario
     \<lparr>sc_Name := ''non-sse-empty-body'',
      sc_Family := ''http-error'',
      sc_Description := ''HTTP 200 with no Content-Type and no body at all.'',
      sc_Headers := [],
      sc_Expect := zero_expect\<lparr>ex_Method := ''POST'',
        ex_Note := ''An empty body with no content type ends before [DONE] and fails.''\<rparr>\<rparr>]"

definition auth_scenarios :: "scenario list" where
  "auth_scenarios =
    [zero_scenario
     \<lparr>sc_Name := ''auth-required-match'',
      sc_Family := ''auth'',
      sc_Description := ''Scenario that requires a bearer credential matching the expected token.'',
      sc_Auth := \<lparr>as_Required = True, as_Token = SentinelToken\<rparr>,
      sc_Headers := sseHeaders,
      sc_Wire := successWire ''authorized'' ''stop'',
      sc_Expect := zero_expect\<lparr>ex_Method := ''POST'',
        ex_Note := ''With the expected credential the stream succeeds exactly as the zero-auth path does.''\<rparr>\<rparr>,
     zero_scenario
     \<lparr>sc_Name := ''auth-required-missing'',
      sc_Family := ''auth'',
      sc_Description := ''Scenario that requires a bearer credential, exercised without one.'',
      sc_Auth := \<lparr>as_Required = True, as_Token = SentinelToken\<rparr>,
      sc_Headers := sseHeaders,
      sc_Wire := successWire ''never reached'' ''stop'',
      sc_Expect := zero_expect\<lparr>ex_Method := ''POST'',
        ex_Note := ''Without a credential the server answers 401 and no stream is produced.''\<rparr>\<rparr>,
     zero_scenario
     \<lparr>sc_Name := ''auth-required-mismatch'',
      sc_Family := ''auth'',
      sc_Description := ''Scenario that requires a bearer credential, exercised with a different token.'',
      sc_Auth := \<lparr>as_Required = True, as_Token = SentinelToken\<rparr>,
      sc_Headers := sseHeaders,
      sc_Wire := successWire ''never reached'' ''stop'',
      sc_Expect := zero_expect\<lparr>ex_Method := ''POST'',
        ex_Note := ''A wrong credential answers 401; the credential value is never recorded or echoed.''\<rparr>\<rparr>,
     zero_scenario
     \<lparr>sc_Name := ''auth-malformed-header'',
      sc_Family := ''auth'',
      sc_Description := ''Scenario that requires a bearer credential, exercised with a malformed Authorization header.'',
      sc_Auth := \<lparr>as_Required = True, as_Token = SentinelToken\<rparr>,
      sc_Headers := sseHeaders,
      sc_Wire := successWire ''never reached'' ''stop'',
      sc_Expect := zero_expect\<lparr>ex_Method := ''POST'',
        ex_Note := ''A non-Bearer or empty credential is classified malformed and answers 401.''\<rparr>\<rparr>]"

definition redirect_scenarios :: "scenario list" where
  "redirect_scenarios =
    [zero_scenario
     \<lparr>sc_Name := ''redirect-to-final-url'',
      sc_Family := ''redirect'',
      sc_Description := ''302 redirect to a different path, which RadiChat must refuse rather than follow.'',
      sc_Headers := sseHeaders,
      sc_Redirect := ''/v1/chat/completions/stream-success-basic'',
      sc_Expect := zero_expect\<lparr>ex_Method := ''POST'',
        ex_Note := ''Redirects are refused; the client must not follow them.''\<rparr>\<rparr>,
     zero_scenario
     \<lparr>sc_Name := ''redirect-with-query'',
      sc_Family := ''redirect'',
      sc_Description := ''302 redirect whose Location carries a query string.'',
      sc_Headers := sseHeaders,
      sc_Redirect := ''/v1/chat/completions/stream-success-basic?token=placeholder'',
      sc_Expect := zero_expect\<lparr>ex_Method := ''POST'',
        ex_Note := ''A redirect with a query is still refused.''\<rparr>\<rparr>,
     zero_scenario
     \<lparr>sc_Name := ''redirect-absolute'',
      sc_Family := ''redirect'',
      sc_Description := ''302 redirect to an absolute loopback URL, which RadiChat must also refuse.'',
      sc_Headers := sseHeaders,
      sc_Redirect := ''http://127.0.0.1:1/v1/chat/completions/stream-success-basic'',
      sc_Expect := zero_expect\<lparr>ex_Method := ''POST'',
        ex_Note := ''Absolute redirect targets are refused too; the endpoint must be final.''\<rparr>\<rparr>]"

definition context_scenarios :: "scenario list" where
  "context_scenarios =
    [zero_scenario
     \<lparr>sc_Name := ''context-system-retained'',
      sc_Family := ''context'',
      sc_Description := ''Fixture observing that the system message stays first across turns.'',
      sc_Headers := sseHeaders,
      sc_Wire := successWire ''ok'' ''stop'',
      sc_Expect := zero_expect\<lparr>ex_Method := ''POST'',
        ex_Messages := [''system'', ''user''],
        ex_Note := ''With a system prompt configured, the first request message is the system message.''\<rparr>\<rparr>,
     zero_scenario
     \<lparr>sc_Name := ''context-pair-trimming'',
      sc_Family := ''context'',
      sc_Description := ''Fixture observing that trimming drops oldest complete user/assistant pairs.'',
      sc_Headers := sseHeaders,
      sc_Wire := successWire ''ok'' ''stop'',
      sc_Expect := zero_expect\<lparr>ex_Method := ''POST'',
        ex_Messages := [''system'', ''user'', ''assistant'', ''user''],
        ex_Note := ''After trimming, the remaining history is whole pairs: system, user, assistant, user.''\<rparr>\<rparr>,
     zero_scenario
     \<lparr>sc_Name := ''context-exact-budget-boundary'',
      sc_Family := ''context'',
      sc_Description := ''Fixture whose request fits the budget exactly at the boundary.'',
      sc_Headers := sseHeaders,
      sc_Wire := successWire ''ok'' ''stop'',
      sc_Expect := zero_expect\<lparr>ex_Method := ''POST'',
        ex_Fields := [(''max_tokens'', WantInt 1024)],
        ex_Note := ''max_tokens equals the configured generation_reserve, and the prompt fits exactly at the boundary.''\<rparr>\<rparr>,
     zero_scenario
     \<lparr>sc_Name := ''context-utf8-byte-accounting'',
      sc_Family := ''context'',
      sc_Description := ''Fixture whose content is sized by UTF-8 bytes rather than rune count.'',
      sc_Headers := sseHeaders,
      sc_Wire := successWire ''ok'' ''stop'',
      sc_Expect := zero_expect\<lparr>ex_Method := ''POST'',
        ex_Fields := [(''stream'', WantBool True)],
        ex_Note := ''Multibyte content is charged in bytes, so a rune-heavy prompt consumes more budget than its rune count suggests.''\<rparr>\<rparr>,
     zero_scenario
     \<lparr>sc_Name := ''context-failed-turn-rollback'',
      sc_Family := ''context'',
      sc_Description := ''Fixture that fails mid-stream so the client must discard the staged turn.'',
      sc_Headers := sseHeaders,
      sc_Wire := [plain_segment (chunk ''partial'' []), (plain_segment [])\<lparr>seg_CloseAfter := True\<rparr>],
      sc_Expect := zero_expect\<lparr>ex_Method := ''POST'',
        ex_Note := ''A failed stream must not commit the turn; the next request shows unchanged history.''\<rparr>\<rparr>,
     zero_scenario
     \<lparr>sc_Name := ''context-after-clear'',
      sc_Family := ''context'',
      sc_Description := ''Fixture observing that /clear drops history but keeps the system prompt.'',
      sc_Headers := sseHeaders,
      sc_Wire := successWire ''ok'' ''stop'',
      sc_Expect := zero_expect\<lparr>ex_Method := ''POST'',
        ex_Messages := [''system'', ''user''],
        ex_Note := ''After /clear the next request carries only the system message and the new user message.''\<rparr>\<rparr>,
     zero_scenario
     \<lparr>sc_Name := ''context-max-tokens-sent'',
      sc_Family := ''context'',
      sc_Description := ''Fixture asserting that max_tokens is sent and equals generation_reserve.'',
      sc_Headers := sseHeaders,
      sc_Wire := successWire ''ok'' ''stop'',
      sc_Expect := zero_expect\<lparr>ex_Method := ''POST'',
        ex_Fields := [(''max_tokens'', WantInt 512), (''stream'', WantBool True)],
        ex_Note := ''max_tokens is present and equals the configured generation_reserve.''\<rparr>\<rparr>,
     zero_scenario
     \<lparr>sc_Name := ''context-no-optional-fields'',
      sc_Family := ''context'',
      sc_Description := ''Fixture asserting that no tools, functions, or option bags are sent.'',
      sc_Headers := sseHeaders,
      sc_Wire := successWire ''ok'' ''stop'',
      sc_Expect := zero_expect\<lparr>ex_Method := ''POST'',
        ex_Fields := [(''stream'', WantBool True)],
        ex_Note := ''Only model, messages, stream, and max_tokens are sent; tools and functions are absent.''\<rparr>\<rparr>]"

text \<open>The package's \<open>init\<close>.\<close>

definition all_scenarios :: "scenario list" where
  "all_scenarios = stream_scenarios @ framing_scenarios @ malformed_scenarios @ http_error_scenarios
     @ auth_scenarios @ redirect_scenarios @ context_scenarios"

definition init_registry :: "(register_panic, registry) result" where
  "init_registry = register_all all_scenarios []"

end
