(* ===== verification/MockRecorder.thy ===== *)
theory MockRecorder imports MockCatalog JsonTokens begin

text \<open>
  \<open>internal/mockllm/recorder.go\<close>: what the mock keeps of a request, how it classifies a credential, and
  how it compares a request with a scenario's expectation.
\<close>

section \<open>Requests and records\<close>

text \<open>The parts of an \<open>http.Request\<close> the mock reads; header names are in canonical form.\<close>

record http_request =
  hr_Method :: string
  hr_Path :: string
  hr_Header :: "(string \<times> string) list"
  hr_Body :: "reader option"

definition header_get :: "(string \<times> string) list \<Rightarrow> string \<Rightarrow> string" where
  "header_get h k = (case map_of h k of None \<Rightarrow> [] | Some v \<Rightarrow> v)"

definition maxRequestBody :: nat where "maxRequestBody = 1048576"
definition maxHeaderRecord :: nat where "maxHeaderRecord = 256"
definition bearerPrefix :: string where "bearerPrefix = ''Bearer ''"

definition RedactedAuthorization :: string where
  "RedactedAuthorization = ''<redacted-authorization>''"

record auth_outcome =
  ao_Present :: bool
  ao_Malformed :: bool
  ao_Matched :: bool

definition outcome_text :: "auth_outcome \<Rightarrow> string" where
  "outcome_text a =
     (if ao_Malformed a then ''malformed''
      else if \<not> ao_Present a then ''none''
      else if ao_Matched a then ''match''
      else ''mismatch'')"

record expect_result =
  er_Matched :: bool
  er_Problems :: "string list"

type_synonym json_object = "(string \<times> string \<times> json) list"

record mock_record =
  mr_Method :: string
  mr_Path :: string
  mr_Headers :: "(string \<times> string) list"
  mr_Body :: "json_object option"
  mr_BodyRaw :: string
  mr_Auth :: auth_outcome
  mr_Scenario :: string
  mr_ExpectCheck :: expect_result

section \<open>Credentials and headers\<close>

definition classifyAuth :: "string \<Rightarrow> string \<Rightarrow> auth_outcome" where
  "classifyAuth header expected =
     (if header = [] then \<lparr>ao_Present = False, ao_Malformed = False, ao_Matched = False\<rparr>
      else case cut_prefix header bearerPrefix of (token, ok) \<Rightarrow>
        (if \<not> ok \<or> token = [] then \<lparr>ao_Present = True, ao_Malformed = True, ao_Matched = False\<rparr>
         else if expected = [] then \<lparr>ao_Present = True, ao_Malformed = False, ao_Matched = True\<rparr>
         else \<lparr>ao_Present = True, ao_Malformed = False, ao_Matched = (token = expected)\<rparr>))"

definition truncate :: "string \<Rightarrow> string" where
  "truncate s = (if maxHeaderRecord < length s then take maxHeaderRecord s @ ''...'' else s)"

definition recordedHeaders :: "(string \<times> string) list \<Rightarrow> (string \<times> string) list" where
  "recordedHeaders h =
     (let ct = header_get h ''Content-Type''; ac = header_get h ''Accept'' in
      (if ct \<noteq> [] then [(''Content-Type'', truncate ct)] else [])
      @ (if ac \<noteq> [] then [(''Accept'', truncate ac)] else [])
      @ (if header_get h ''Authorization'' \<noteq> [] then [(''Authorization'', RedactedAuthorization)] else []))"

section \<open>Bodies\<close>

text \<open>\<open>json.Unmarshal\<close> into an \<open>any\<close> fails on a number that overflows.\<close>

fun floats_ok :: "json \<Rightarrow> bool" where
  "floats_ok (JNum t) \<longleftrightarrow> \<not> float_overflow t"
| "floats_ok (JArr es) \<longleftrightarrow> list_all floats_ok es"
| "floats_ok (JObj ms) \<longleftrightarrow> list_all (\<lambda>(k, raw, v). floats_ok v) ms"
| "floats_ok _ \<longleftrightarrow> True"

definition decodeBody :: "string \<Rightarrow> json_object option" where
  "decodeBody body =
     (if trim_space body = [] then None
      else case parse_json body of
        Some (JObj ms) \<Rightarrow> (if floats_ok (JObj ms) then Some ms else None)
      | _ \<Rightarrow> None)"

text \<open>A field of a decoded object: the last member of that name; a nil map has none.\<close>

definition body_field :: "json_object option \<Rightarrow> string \<Rightarrow> json option" where
  "body_field b k = (case b of None \<Rightarrow> None | Some ms \<Rightarrow> map_option snd (map_of (rev ms) k))"

definition messageRoles :: "json_object option \<Rightarrow> string list" where
  "messageRoles b =
     (case body_field b ''messages'' of
        Some (JArr items) \<Rightarrow>
          map (\<lambda>item. case item of
             JObj ms \<Rightarrow> (case body_field (Some ms) ''role'' of Some (JStr r) \<Rightarrow> r | _ \<Rightarrow> [])
           | _ \<Rightarrow> []) items
      | _ \<Rightarrow> [])"

text \<open>The nearest \<open>float64\<close> of a decimal, ties to even, as a mantissa and a power of two.\<close>

fun bit_count :: "nat \<Rightarrow> nat" where
  "bit_count n = (if n = 0 then 0 else Suc (bit_count (n div 2)))"

declare bit_count.simps [simp del]

definition round_div :: "nat \<Rightarrow> nat \<Rightarrow> nat" where
  "round_div n d =
     (let q = n div d; r = n mod d in if 2 * r < d \<or> 2 * r = d \<and> even q then q else Suc q)"

definition scaled :: "nat \<Rightarrow> nat \<Rightarrow> int \<Rightarrow> nat" where
  "scaled n d e = (if 0 \<le> e then round_div n (d * 2 ^ nat e) else round_div (n * 2 ^ nat (- e)) d)"

definition to_float64 :: "nat \<Rightarrow> nat \<Rightarrow> nat \<times> int" where
  "to_float64 n d =
     (let k = int (bit_count n) - int (bit_count d);
          below = (if 0 \<le> k then n < d * 2 ^ nat k else n * 2 ^ nat (- k) < d);
          e = max ((if below then k - 1 else k) - 52) (- 1074);
          m = scaled n d e in
      if m = 0 then (0, 0) else if m = 2 ^ 53 then (2 ^ 52, e + 1) else (m, e))"

definition decimal_float64 :: "string \<Rightarrow> bool \<times> nat \<times> int" where
  "decimal_float64 t =
     (case decimal_of t of (neg, m, e) \<Rightarrow>
        (neg, if 0 \<le> e then to_float64 (m * 10 ^ nat e) 1 else to_float64 m (10 ^ nat (- e))))"

definition int_float64 :: "int \<Rightarrow> bool \<times> nat \<times> int" where
  "int_float64 w = (w < 0, to_float64 (nat \<bar>w\<bar>) 1)"

definition float64_eq :: "bool \<times> nat \<times> int \<Rightarrow> bool \<times> nat \<times> int \<Rightarrow> bool" where
  "float64_eq a b \<longleftrightarrow> snd a = snd b \<and> (fst a = fst b \<or> fst (snd a) = 0)"

definition valuesEqual :: "json \<Rightarrow> expect_value \<Rightarrow> bool" where
  "valuesEqual got want =
     (case want of
        WantInt w \<Rightarrow> (case got of JNum t \<Rightarrow> float64_eq (decimal_float64 t) (int_float64 w) | _ \<Rightarrow> False)
      | WantBool w \<Rightarrow> (case got of JBool b \<Rightarrow> b = w | _ \<Rightarrow> False)
      | WantString w \<Rightarrow> (case got of JStr s \<Rightarrow> s = w | _ \<Rightarrow> False))"

section \<open>Expectations\<close>

definition problem :: "string \<Rightarrow> expect_result \<Rightarrow> expect_result" where
  "problem p res = \<lparr>er_Matched = False, er_Problems = er_Problems res @ [p]\<rparr>"

fun check_fields :: "json_object option \<Rightarrow> (string \<times> expect_value) list \<Rightarrow> expect_result \<Rightarrow> expect_result" where
  "check_fields body [] res = res"
| "check_fields body ((k, want) # fs) res =
     check_fields body fs
       (case body_field body k of
          None \<Rightarrow> problem (''missing body field '' @ k) res
        | Some got \<Rightarrow> (if valuesEqual got want then res else problem (''body field '' @ k @ '' mismatch'') res))"

fun check_roles :: "nat \<Rightarrow> string list \<Rightarrow> string list \<Rightarrow> expect_result \<Rightarrow> expect_result" where
  "check_roles i (g # got) (w # want) res =
     check_roles (Suc i) got want
       (if g \<noteq> w then problem (''message role mismatch at index '' @ show_nat i) res else res)"
| "check_roles i _ _ res = res"

definition checkExpect :: "scenario \<Rightarrow> mock_record \<Rightarrow> expect_result" where
  "checkExpect sc rec =
     (let ex = sc_Expect sc;
          res0 = \<lparr>er_Matched = True, er_Problems = []\<rparr>;
          res1 = (if ex_Method ex \<noteq> [] \<and> mr_Method rec \<noteq> ex_Method ex
                  then problem (''method '' @ mr_Method rec @ '' != '' @ ex_Method ex) res0 else res0);
          res2 = check_fields (mr_Body rec) (ex_Fields ex) res1 in
      if ex_Messages ex = [] then res2
      else
        (let got = messageRoles (mr_Body rec) in
         if length got \<noteq> length (ex_Messages ex) then problem ''message count mismatch'' res2
         else check_roles 0 got (ex_Messages ex) res2))"

datatype body_error = BodyRead string | BodyTooLarge

definition readRequestBody :: "http_request \<Rightarrow> (body_error, string) result" where
  "readRequestBody r =
     (case hr_Body r of
        None \<Rightarrow> Inr []
      | Some body \<Rightarrow>
          (case read_all (limit_reader (maxRequestBody + 1) body) of
             (_, Some e) \<Rightarrow> Inl (BodyRead (err_text e))
           | (data, None) \<Rightarrow> (if maxRequestBody < length data then Inl BodyTooLarge else Inr data)))"

end
