(* ===== verification/GoNet.thy ===== *)
theory GoNet imports GoJson begin

text \<open>
  What the mock uses of \<open>net\<close> and \<open>strconv\<close>: \<open>SplitHostPort\<close>, \<open>ParseIP\<close> as far as \<open>IsLoopback\<close> looks, and
  \<open>Atoi\<close>.
\<close>

section \<open>Host and port\<close>

definition index_byte :: "string \<Rightarrow> char \<Rightarrow> nat option" where
  "index_byte s c = index_of s [c]"

definition last_index_byte :: "string \<Rightarrow> char \<Rightarrow> nat option" where
  "last_index_byte s c = map_option (\<lambda>i. length s - 1 - i) (index_byte (rev s) c)"

datatype addr_error = MissingPort | TooManyColons | MissingBracket | UnexpectedBracket char

definition split_host_port :: "string \<Rightarrow> (addr_error, string \<times> string) result" where
  "split_host_port hp =
     (case last_index_byte hp (CHR '':'') of
        None \<Rightarrow> Inl MissingPort
      | Some i \<Rightarrow>
          (let checked = (\<lambda>host j k.
             if CHR ''['' \<in> set (drop j hp) then Inl (UnexpectedBracket (CHR ''[''))
             else if CHR '']'' \<in> set (drop k hp) then Inl (UnexpectedBracket (CHR '']''))
             else Inr (host, drop (Suc i) hp)) in
           if hd hp = CHR ''['' then
             (case index_byte hp (CHR '']'') of
                None \<Rightarrow> Inl MissingBracket
              | Some e \<Rightarrow>
                  (if Suc e = length hp then Inl MissingPort
                   else if Suc e = i then checked (take (e - 1) (drop 1 hp)) 1 (Suc e)
                   else if hp ! Suc e = CHR '':'' then Inl TooManyColons else Inl MissingPort))
           else if CHR '':'' \<in> set (take i hp) then Inl TooManyColons
           else checked (take i hp) 0 0))"

section \<open>Addresses\<close>

text \<open>Dotted quads: four decimal fields up to 255 without leading zeros.\<close>

definition ipv4_field :: "string \<Rightarrow> nat option" where
  "ipv4_field f =
     (if f \<noteq> [] \<and> list_all is_digit f \<and> length f \<le> 3 \<and> (hd f \<noteq> CHR ''0'' \<or> length f = 1) \<and> dec_value f \<le> 255
      then Some (dec_value f) else None)"

fun split_on :: "char \<Rightarrow> string \<Rightarrow> string list" where
  "split_on sep [] = [[]]"
| "split_on sep (c # cs) =
     (if c = sep then [] # split_on sep cs
      else (case split_on sep cs of [] \<Rightarrow> [[c]] | f # fs \<Rightarrow> (c # f) # fs))"

definition parse_ipv4 :: "string \<Rightarrow> nat list option" where
  "parse_ipv4 s =
     (let fs = map ipv4_field (split_on (CHR ''.'') s) in
      if length fs = 4 \<and> None \<notin> set fs then Some (map the fs) else None)"

fun hex_word :: "string \<Rightarrow> nat" where
  "hex_word s = fold (\<lambda>c n. 16 * n + (case hex_val c of None \<Rightarrow> 0 | Some d \<Rightarrow> d)) s 0"

definition is_hex :: "char \<Rightarrow> bool" where
  "is_hex c \<longleftrightarrow> hex_val c \<noteq> None"

text \<open>
  The groups of an IPv6 address, from the left: the bytes so far, where the ellipsis was, and the rest.
  Each round takes two bytes, so nine rounds are enough for sixteen.
\<close>

fun ipv6_groups :: "nat \<Rightarrow> nat list \<Rightarrow> nat option \<Rightarrow> string \<Rightarrow> (nat list \<times> nat option) option" where
  "ipv6_groups 0 bs ell s = None"
| "ipv6_groups (Suc fuel) bs ell s =
     (if 16 \<le> length bs then (if s = [] then Some (bs, ell) else None)
      else
        (let g = takeWhile is_hex s; r = dropWhile is_hex s in
         if g = [] \<or> 4 < length g then None
         else if r \<noteq> [] \<and> hd r = CHR ''.'' then
           (if ell = None \<and> length bs \<noteq> 12 \<or> 12 < length bs then None
            else map_option (\<lambda>v4. (bs @ v4, ell)) (parse_ipv4 s))
         else
           (let bs' = bs @ [hex_word g div 256, hex_word g mod 256] in
            case r of
              [] \<Rightarrow> Some (bs', ell)
            | c # r' \<Rightarrow>
                (if c \<noteq> CHR '':'' \<or> r' = [] then None
                 else if hd r' = CHR '':'' then
                   (if ell \<noteq> None then None
                    else if tl r' = [] then Some (bs', Some (length bs'))
                    else ipv6_groups fuel bs' (Some (length bs')) (tl r'))
                 else ipv6_groups fuel bs' ell r'))))"

definition parse_ipv6 :: "string \<Rightarrow> nat list option" where
  "parse_ipv6 s =
     (let start = (if has_prefix s ''::'' then (Some 0, drop 2 s) else (None, s)) in
      if has_prefix s ''::'' \<and> drop 2 s = [] then Some (replicate 16 0)
      else case ipv6_groups 9 [] (fst start) (snd start) of
        None \<Rightarrow> None
      | Some (bs, ell) \<Rightarrow>
          (if length bs < 16 then
             (case ell of
                None \<Rightarrow> None
              | Some e \<Rightarrow> Some (take e bs @ replicate (16 - length bs) 0 @ drop e bs))
           else if ell \<noteq> None then None
           else Some bs))"

text \<open>The first dot, colon or percent sign decides the kind; a zone makes the address no IP.\<close>

definition parse_ip :: "string \<Rightarrow> nat list option" where
  "parse_ip s =
     (if CHR ''%'' \<in> set s then None
      else case List.find (\<lambda>c. c = CHR ''.'' \<or> c = CHR '':'') s of
        None \<Rightarrow> None
      | Some c \<Rightarrow> (if c = CHR ''.'' then map_option (\<lambda>v4. replicate 10 0 @ [255, 255] @ v4) (parse_ipv4 s) else parse_ipv6 s))"

definition is_loopback_ip :: "nat list \<Rightarrow> bool" where
  "is_loopback_ip ip \<longleftrightarrow>
     (if take 12 ip = replicate 10 0 @ [255, 255] then ip ! 12 = 127 else ip = replicate 15 0 @ [1])"

section \<open>Numbers\<close>

definition atoi :: "string \<Rightarrow> int option" where
  "atoi s =
     (let neg = has_prefix s ''-''; ds = (if neg \<or> has_prefix s ''+'' then drop 1 s else s);
          v = (if neg then - int (dec_value ds) else int (dec_value ds)) in
      if ds = [] \<or> \<not> list_all is_digit ds \<or> v < - (2 ^ 63) \<or> 2 ^ 63 \<le> v then None else Some v)"

end
