(* ===== verification/MockServer.thy ===== *)
theory MockServer imports MockRecorder GoNet begin

text \<open>
  \<open>internal/mockllm/server.go\<close>: the listen address, the handler over the registry, and the recorded
  observations.  The \<open>ResponseWriter\<close> is a record of what was set and written; what \<open>net/http\<close> adds to it
  on the wire (framing, sniffed types, dates) is not part of it.  The life of a server, with its
  concurrent \<open>Start\<close> and \<open>Close\<close>, is in \<open>MockLife\<close>.
\<close>

section \<open>Addresses\<close>

definition LoopbackHost :: string where "LoopbackHost = ''127.0.0.1''"
definition DefaultAddr :: string where "DefaultAddr = LoopbackHost @ '':0''"

definition loopback_names :: "string list" where
  "loopback_names = [''localhost'', ''127.0.0.1'', ''::1'', ''0:0:0:0:0:0:0:1'']"

definition isLoopback :: "string \<Rightarrow> bool" where
  "isLoopback host =
     (if to_lower (trim_space host) \<in> set loopback_names then True
      else case parse_ip (trim_space host) of
        Some ip \<Rightarrow> is_loopback_ip ip
      | None \<Rightarrow> False)"

record server_options =
  so_Addr :: string
  so_ExpectedBearer :: string

datatype new_error = InvalidAddress string addr_error | LoopbackRequired

definition New_server :: "server_options \<Rightarrow> (new_error, server_options) result" where
  "New_server opts0 =
     (let opts = (if so_Addr opts0 = [] then opts0\<lparr>so_Addr := DefaultAddr\<rparr> else opts0) in
      case split_host_port (so_Addr opts) of
        Inl e \<Rightarrow> Inl (InvalidAddress (so_Addr opts) e)
      | Inr (host, _) \<Rightarrow> (if isLoopback host then Inr opts else Inl LoopbackRequired))"

section \<open>Responses\<close>

record response_writer =
  rw_Header :: "(string \<times> string) list"
  rw_Status :: "int option"
  rw_Body :: string
  rw_Hijacked :: bool
  rw_Raw :: string

definition fresh_writer :: response_writer where
  "fresh_writer = \<lparr>rw_Header = [], rw_Status = None, rw_Body = [], rw_Hijacked = False, rw_Raw = []\<rparr>"

definition set_header :: "string \<Rightarrow> string \<Rightarrow> response_writer \<Rightarrow> response_writer" where
  "set_header k v w = w\<lparr>rw_Header := (k, v) # filter (\<lambda>(k', _). k' \<noteq> k) (rw_Header w)\<rparr>"

definition WriteHeader :: "int \<Rightarrow> response_writer \<Rightarrow> response_writer" where
  "WriteHeader code w = (if rw_Status w = None then w\<lparr>rw_Status := Some code\<rparr> else w)"

definition write_body :: "string \<Rightarrow> response_writer \<Rightarrow> response_writer" where
  "write_body data w = (let w' = WriteHeader 200 w in w'\<lparr>rw_Body := rw_Body w' @ data\<rparr>)"

definition write_raw :: "string \<Rightarrow> response_writer \<Rightarrow> response_writer" where
  "write_raw data w = w\<lparr>rw_Raw := rw_Raw w @ data\<rparr>"

definition set_headers :: "(string \<times> string) list \<Rightarrow> response_writer \<Rightarrow> response_writer" where
  "set_headers hs w = fold (\<lambda>(k, v). set_header k v) hs w"

text \<open>\<open>http.Error\<close>.\<close>

definition http_error :: "string \<Rightarrow> int \<Rightarrow> response_writer \<Rightarrow> response_writer" where
  "http_error message code w =
     write_body (message @ [LF])
       (WriteHeader code
         (set_header ''X-Content-Type-Options'' ''nosniff''
           (set_header ''Content-Type'' ''text/plain; charset=utf-8'' w)))"

definition status_texts :: "(int \<times> string) list" where
  "status_texts =
     [(100, ''Continue''), (101, ''Switching Protocols''), (102, ''Processing''), (103, ''Early Hints''),
      (200, ''OK''), (201, ''Created''), (202, ''Accepted''), (203, ''Non-Authoritative Information''),
      (204, ''No Content''), (205, ''Reset Content''), (206, ''Partial Content''), (207, ''Multi-Status''),
      (208, ''Already Reported''), (226, ''IM Used''), (300, ''Multiple Choices''), (301, ''Moved Permanently''),
      (302, ''Found''), (303, ''See Other''), (304, ''Not Modified''), (305, ''Use Proxy''),
      (307, ''Temporary Redirect''), (308, ''Permanent Redirect''), (400, ''Bad Request''), (401, ''Unauthorized''),
      (402, ''Payment Required''), (403, ''Forbidden''), (404, ''Not Found''), (405, ''Method Not Allowed''),
      (406, ''Not Acceptable''), (407, ''Proxy Authentication Required''), (408, ''Request Timeout''),
      (409, ''Conflict''), (410, ''Gone''), (411, ''Length Required''), (412, ''Precondition Failed''),
      (413, ''Request Entity Too Large''), (414, ''Request URI Too Long''), (415, ''Unsupported Media Type''),
      (416, ''Requested Range Not Satisfiable''), (417, ''Expectation Failed''), (418, ''I'' @ [CHR 0x27] @ ''m a teapot''),
      (421, ''Misdirected Request''), (422, ''Unprocessable Entity''), (423, ''Locked''), (424, ''Failed Dependency''),
      (425, ''Too Early''), (426, ''Upgrade Required''), (428, ''Precondition Required''), (429, ''Too Many Requests''),
      (431, ''Request Header Fields Too Large''), (451, ''Unavailable For Legal Reasons''),
      (500, ''Internal Server Error''), (501, ''Not Implemented''), (502, ''Bad Gateway''),
      (503, ''Service Unavailable''), (504, ''Gateway Timeout''), (505, ''HTTP Version Not Supported''),
      (506, ''Variant Also Negotiates''), (507, ''Insufficient Storage''), (508, ''Loop Detected''),
      (510, ''Not Extended''), (511, ''Network Authentication Required'')]"

definition StatusText :: "int \<Rightarrow> string" where
  "StatusText code = (case map_of status_texts code of None \<Rightarrow> [] | Some t \<Rightarrow> t)"

section \<open>Serving a scenario\<close>

text \<open>
  What the environment decides per exchange: whether the request's context ends during the delay of a
  segment, how much of a segment's write is taken and whether it fails, and the answer to \<open>Hijack\<close>.
\<close>

datatype hijack_answer = NoHijacker | HijackFails | Hijacked

record serve_env =
  se_cancelled :: "nat \<Rightarrow> bool"
  se_write :: "nat \<Rightarrow> nat option"      \<comment> \<open>the bytes taken by a write that fails\<close>
  se_hijack :: hijack_answer

fun serve_segments ::
  "(string \<Rightarrow> response_writer \<Rightarrow> response_writer) \<Rightarrow> serve_env \<Rightarrow> nat \<Rightarrow> segment list
     \<Rightarrow> response_writer \<Rightarrow> response_writer" where
  "serve_segments put_bytes env k [] w = w"
| "serve_segments put_bytes env k (seg # segs) w =
     (if 0 < seg_Delay seg \<and> se_cancelled env k then w
      else case se_write env k of
        Some n \<Rightarrow> put_bytes (take n (seg_Bytes seg)) w
      | None \<Rightarrow>
          (let w' = put_bytes (seg_Bytes seg) w in
           if seg_CloseAfter seg then w' else serve_segments put_bytes env (Suc k) segs w'))"

definition serveHTTP :: "serve_env \<Rightarrow> scenario \<Rightarrow> response_writer \<Rightarrow> response_writer" where
  "serveHTTP env sc w =
     (if sc_Redirect sc \<noteq> [] then
        WriteHeader (redirectStatus sc) (set_header ''Location'' (sc_Redirect sc) w)
      else
        (let w1 = set_headers (sc_Headers sc) w;
             w2 = (if scenario_status sc \<noteq> 200 then WriteHeader (scenario_status sc) w1 else w1) in
         serve_segments write_body env 0 (sc_Wire sc) w2))"

definition crlf_line :: "string \<Rightarrow> string" where
  "crlf_line s = s @ [CR, LF]"

definition serveRaw :: "serve_env \<Rightarrow> scenario \<Rightarrow> response_writer \<Rightarrow> response_writer" where
  "serveRaw env sc w0 =
     (case se_hijack env of
        NoHijacker \<Rightarrow> http_error ''mockllm: connection cannot be hijacked for raw mode'' 500 w0
      | HijackFails \<Rightarrow> w0
      | Hijacked \<Rightarrow>
          (let w = w0\<lparr>rw_Hijacked := True\<rparr>;
               status_line = (\<lambda>code. crlf_line (''HTTP/1.1 '' @ show_int code @ '' '' @ StatusText code)) in
           if sc_Redirect sc \<noteq> [] then
             write_raw (status_line (redirectStatus sc) @ crlf_line (''Location: '' @ sc_Redirect sc)
               @ crlf_line ''Content-Length: 0'' @ [CR, LF]) w
           else
             serve_segments write_raw env 0 (sc_Wire sc)
               (write_raw (status_line (scenario_status sc)
                  @ concat (map (\<lambda>(k, v). crlf_line (k @ '': '' @ v)) (sc_Headers sc))
                  @ crlf_line ''Connection: close'' @ [CR, LF]) w)))"

section \<open>The handler\<close>

definition trim_slashes :: "string \<Rightarrow> string" where
  "trim_slashes s =
     rev (dropWhile (\<lambda>c. c = CHR ''/'') (rev (dropWhile (\<lambda>c. c = CHR ''/'') s)))"

definition scenarioNameFromPath :: "string \<Rightarrow> string" where
  "scenarioNameFromPath path =
     (if \<not> has_prefix path scenarioPathPrefix then []
      else trim_slashes (trim_prefix path scenarioPathPrefix))"

text \<open>One observation; an unknown scenario and an unread body leave no name and no check.\<close>

definition observation ::
  "http_request \<Rightarrow> auth_outcome \<Rightarrow> string \<Rightarrow> string \<Rightarrow> scenario option \<Rightarrow> mock_record" where
  "observation r auth name body sc =
     (let rec = \<lparr>mr_Method = hr_Method r, mr_Path = hr_Path r, mr_Headers = recordedHeaders (hr_Header r),
            mr_Body = decodeBody body, mr_BodyRaw = body, mr_Auth = auth, mr_Scenario = [],
            mr_ExpectCheck = \<lparr>er_Matched = False, er_Problems = []\<rparr>\<rparr> in
      case sc of
        None \<Rightarrow> rec
      | Some s \<Rightarrow> (let named = rec\<lparr>mr_Scenario := name\<rparr> in named\<lparr>mr_ExpectCheck := checkExpect s named\<rparr>))"

definition writeStatus :: "scenario \<Rightarrow> int \<Rightarrow> response_writer \<Rightarrow> response_writer" where
  "writeStatus sc code w = WriteHeader code (set_headers (sc_Headers sc) w)"

definition handle ::
  "registry \<Rightarrow> server_options \<Rightarrow> serve_env \<Rightarrow> http_request \<Rightarrow> mock_record list
     \<Rightarrow> mock_record list \<times> response_writer" where
  "handle reg opts env r recs =
     (let auth = classifyAuth (header_get (hr_Header r) ''Authorization'') (so_ExpectedBearer opts);
          name = scenarioNameFromPath (hr_Path r); w = fresh_writer in
      case Lookup reg name of
        None \<Rightarrow>
          (recs @ [observation r auth name [] None],
           http_error (''mockllm: unknown scenario '' @ name @ ''; list scenarios with radichat-mock list'') 404 w)
      | Some sc \<Rightarrow>
          (case readRequestBody r of
             Inl e \<Rightarrow> (recs @ [observation r auth name [] None], http_error ''mockllm: cannot read request body'' 400 w)
           | Inr body \<Rightarrow>
               (recs @ [observation r auth name body (Some sc)],
                if as_Required (sc_Auth sc) \<and> \<not> ao_Matched auth then
                  write_body (''mockllm: missing or mismatched bearer credential'' @ [LF]) (writeStatus sc 401 w)
                else if sc_Mode sc = ModeRaw then serveRaw env sc w
                else serveHTTP env sc w)))"

definition Records :: "mock_record list \<Rightarrow> mock_record list" where
  "Records recs = recs"

definition ResetRecords :: "mock_record list \<Rightarrow> mock_record list" where
  "ResetRecords recs = []"

definition Last :: "mock_record list \<Rightarrow> mock_record option" where
  "Last recs = (if recs = [] then None else Some (last recs))"

end
