(* ===== verification/MockProps.thy ===== *)
theory MockProps imports MockServer "HOL-Library.Multiset" begin

text \<open>
  What the mock endpoint guarantees: a catalog without gaps, an authentication gate, the configured bytes
  on the wire, and observations that keep no credential.
\<close>

section \<open>The registry\<close>

lemma Lookup_Some: "Lookup reg name = Some s \<Longrightarrow> s \<in> set reg \<and> sc_Name s = name"
  unfolding Lookup_def by (auto simp: find_Some_iff)

lemma Lookup_None: "Lookup reg name = None \<longleftrightarrow> name \<notin> sc_Name ` set reg"
  unfolding Lookup_def by (auto simp: find_None_iff)

lemma Lookup_distinct: "distinct (map sc_Name reg) \<Longrightarrow> s \<in> set reg \<Longrightarrow> Lookup reg (sc_Name s) = Some s"
proof (induction reg)
  case (Cons t reg)
  then show ?case
    by (cases "s = t") (auto simp: Lookup_def image_iff)
qed simp

text \<open>
  What the server, the command and the tests rely on: a store of named scenarios, where a new name can be
  registered and is then found, and nothing else changes.
\<close>

fun add_all :: "('s \<Rightarrow> 'r \<Rightarrow> ('e, 'r) result) \<Rightarrow> 's list \<Rightarrow> 'r \<Rightarrow> ('e, 'r) result" where
  "add_all add [] r = Inr r"
| "add_all add (s # ss) r = (case add s r of Inl e \<Rightarrow> Inl e | Inr r' \<Rightarrow> add_all add ss r')"

locale named_store =
  fixes lookup :: "'r \<Rightarrow> string \<Rightarrow> 's option" and add :: "'s \<Rightarrow> 'r \<Rightarrow> ('e, 'r) result" and name_of :: "'s \<Rightarrow> string"
  assumes add_new: "name_of s \<noteq> [] \<Longrightarrow> lookup r (name_of s) = None \<Longrightarrow> \<exists>r'. add s r = Inr r'"
    and add_refuses: "name_of s = [] \<or> lookup r (name_of s) \<noteq> None \<Longrightarrow> \<exists>e. add s r = Inl e"
    and lookup_add: "add s r = Inr r' \<Longrightarrow> lookup r' n = (if n = name_of s then Some s else lookup r n)"
begin

lemma add_all_found:
  assumes "distinct (map name_of ss)" and "\<forall>s \<in> set ss. name_of s \<noteq> [] \<and> lookup r (name_of s) = None"
  shows "\<exists>r'. add_all add ss r = Inr r' \<and> (\<forall>s \<in> set ss. lookup r' (name_of s) = Some s)
     \<and> (\<forall>n. n \<notin> name_of ` set ss \<longrightarrow> lookup r' n = lookup r n)"
  using assms
proof (induction ss arbitrary: r)
  case (Cons s ss)
  then obtain r1 where r1: "add s r = Inr r1"
    using add_new by fastforce
  have new: "lookup r1 n = (if n = name_of s then Some s else lookup r n)" for n
    using lookup_add [OF r1] .
  have "\<forall>t \<in> set ss. name_of t \<noteq> [] \<and> lookup r1 (name_of t) = None"
    using Cons.prems by (auto simp: new image_iff)
  with Cons.IH [of r1] Cons.prems(1) obtain r' where "add_all add ss r1 = Inr r'"
    "\<forall>t \<in> set ss. lookup r' (name_of t) = Some t" "\<forall>n. n \<notin> name_of ` set ss \<longrightarrow> lookup r' n = lookup r1 n"
    by auto
  with Cons.prems(1) r1 new show ?case by auto
qed simp

lemma twice_refused: "add s r = Inr r' \<Longrightarrow> name_of t = name_of s \<Longrightarrow> \<exists>e. add t r' = Inl e"
  using add_refuses lookup_add by (metis option.distinct(1))

end

lemma Lookup_append: "Lookup (reg @ [s]) n = (case Lookup reg n of None \<Rightarrow> if sc_Name s = n then Some s else None | Some t \<Rightarrow> Some t)"
  by (induction reg) (simp_all add: Lookup_def)

interpretation reg: named_store Lookup Register sc_Name
  by unfold_locales (auto simp: Register_def Lookup_append split: if_splits option.splits)

lemma register_all_add: "register_all ss reg = add_all Register ss reg"
  by (induction ss arbitrary: reg) (simp_all split: sum.split)

lemma register_all_appends: "add_all Register ss reg = Inr reg' \<Longrightarrow> reg' = reg @ ss"
  by (induction ss arbitrary: reg) (fastforce simp: Register_def split: sum.splits if_splits)+

lemma Catalog_perm:
  assumes "distinct (map sc_Name reg)"
  shows "mset (Catalog reg) = mset reg \<and> sorted (map sc_Name (Catalog reg))"
proof -
  have the: "the (Lookup reg (sc_Name s)) = s" if "s \<in> set reg" for s
    using Lookup_distinct [OF assms that] by simp
  have "mset (Catalog reg) = image_mset (\<lambda>n. the (Lookup reg n)) (mset (map sc_Name reg))"
    by (simp only: Catalog_def Names_def mset_map mset_sort)
  also have "\<dots> = mset (map (\<lambda>s. the (Lookup reg (sc_Name s))) reg)"
    by (simp add: multiset.map_comp comp_def)
  also have "map (\<lambda>s. the (Lookup reg (sc_Name s))) reg = reg"
    by (simp add: the map_idI)
  finally have m: "mset (Catalog reg) = mset reg" .
  have "sc_Name (the (Lookup reg n)) = n" if "n \<in> set (Names reg)" for n
    using that the by (auto simp: Names_def)
  then have "map sc_Name (Catalog reg) = Names reg"
    by (simp add: Catalog_def map_idI)
  then show ?thesis using m by (simp add: Names_def)
qed

lemmas scenario_lists = stream_scenarios_def framing_scenarios_def malformed_scenarios_def http_error_scenarios_def
  auth_scenarios_def redirect_scenarios_def context_scenarios_def

lemma all_names:
  "map sc_Name all_scenarios =
     [''stream-success-basic'', ''stream-success-multibyte'', ''stream-success-length-finish'',
      ''stream-success-role-only'', ''stream-success-crlf'', ''stream-success-comments'',
      ''stream-success-no-content-type'', ''stream-success-empty-content'', ''fragment-utf8-inside-rune'',
      ''fragment-inside-crlf'', ''fragment-inside-data-field'', ''fragment-inside-done'',
      ''fragment-byte-by-byte'', ''fragment-multiple-events-one-write'', ''malformed-json-event'',
      ''malformed-delta-content-not-string'', ''malformed-multiple-choices'', ''malformed-early-termination'',
      ''malformed-early-termination-mid-event'', ''stream-error-object'', ''stream-error-non-object'',
      ''stream-error-null-ignored'', ''stream-tool-calls-rejected'', ''stream-function-call-rejected'',
      ''stream-finish-content-filter'', ''stream-finish-unsupported'', ''http-error-401'', ''http-error-429'',
      ''http-error-500'', ''http-error-404-unknown-model'', ''non-sse-content-type'', ''non-sse-empty-body'',
      ''auth-required-match'', ''auth-required-missing'', ''auth-required-mismatch'', ''auth-malformed-header'',
      ''redirect-to-final-url'', ''redirect-with-query'', ''redirect-absolute'', ''context-system-retained'',
      ''context-pair-trimming'', ''context-exact-budget-boundary'', ''context-utf8-byte-accounting'',
      ''context-failed-turn-rollback'', ''context-after-clear'', ''context-max-tokens-sent'',
      ''context-no-optional-fields'']"
  by (simp add: all_scenarios_def scenario_lists)

lemma names_distinct: "distinct (map sc_Name all_scenarios)"
  unfolding all_names by simp

lemma names_no_slash:
  assumes "s \<in> set all_scenarios"
  shows "sc_Name s \<noteq> []" and "hd (sc_Name s) \<noteq> CHR ''/''" and "last (sc_Name s) \<noteq> CHR ''/''"
proof -
  have "list_all (\<lambda>n. n \<noteq> [] \<and> hd n \<noteq> CHR ''/'' \<and> last n \<noteq> CHR ''/'') (map sc_Name all_scenarios)"
    unfolding all_names by simp
  with assms show "sc_Name s \<noteq> []" "hd (sc_Name s) \<noteq> CHR ''/''" "last (sc_Name s) \<noteq> CHR ''/''"
    by (auto simp: list_all_iff)
qed

lemma trim_slashes_id:
  assumes "n \<noteq> []" and "hd n \<noteq> CHR ''/''" and "last n \<noteq> CHR ''/''"
  shows "trim_slashes n = n"
proof -
  have "dropWhile (\<lambda>c. c = CHR ''/'') n = n"
    using assms(1,2) by (cases n) auto
  moreover have "dropWhile (\<lambda>c. c = CHR ''/'') (rev n) = rev n"
    using assms(1,3) by (cases "rev n") (auto simp: hd_rev)
  ultimately show ?thesis by (simp add: trim_slashes_def)
qed

lemma path_name:
  assumes "n \<noteq> []" and "hd n \<noteq> CHR ''/''" and "last n \<noteq> CHR ''/''"
  shows "scenarioNameFromPath (scenarioPathPrefix @ n) = n"
  using trim_slashes_id [OF assms] by (simp add: scenarioNameFromPath_def has_prefix_def trim_prefix_def)

text \<open>C38: the catalog is complete and reachable: registering the built-in scenarios never panics, the
  catalog lists exactly them by increasing name, and each is found under its name and under the URL
  path it gives out.\<close>

theorem catalog_complete:
  "init_registry = Inr all_scenarios \<and> length all_scenarios = 47
   \<and> mset (Catalog all_scenarios) = mset all_scenarios \<and> sorted (map sc_Name (Catalog all_scenarios))
   \<and> list_all (\<lambda>s. Lookup all_scenarios (scenarioNameFromPath (scenario_path s)) = Some s) all_scenarios"
proof -
  have "\<exists>r'. add_all Register all_scenarios [] = Inr r'"
    using reg.add_all_found [OF names_distinct, of "[]"] names_no_slash(1) by (auto simp: Lookup_None)
  then have "init_registry = Inr all_scenarios"
    using register_all_appends [of all_scenarios "[]"] by (auto simp: init_registry_def register_all_add)
  moreover have "length all_scenarios = 47"
    using arg_cong [OF all_names, of length] by simp
  moreover have "Lookup all_scenarios (scenarioNameFromPath (scenario_path s)) = Some s"
    if "s \<in> set all_scenarios" for s
    using that by (simp add: scenario_path_def path_name names_no_slash Lookup_distinct names_distinct)
  ultimately show ?thesis
    using Catalog_perm [OF names_distinct] by (simp add: list_all_iff)
qed

section \<open>Credentials\<close>

lemma classifyAuth_present: "ao_Present (classifyAuth h expected) \<longleftrightarrow> h \<noteq> []"
  by (simp add: classifyAuth_def split: prod.split)

lemma classifyAuth_matched:
  "ao_Matched (classifyAuth h expected) \<longleftrightarrow>
     (\<exists>token. h = bearerPrefix @ token \<and> token \<noteq> [] \<and> (expected = [] \<or> token = expected))"
proof (cases "has_prefix h bearerPrefix")
  case True
  then obtain token where h: "h = bearerPrefix @ token"
    by (auto simp: has_prefix_iff prefix_def)
  then show ?thesis
    by (simp add: classifyAuth_def cut_prefix_def has_prefix_def bearerPrefix_def)
next
  case False
  then have "\<nexists>token. h = bearerPrefix @ token"
    by (auto simp: has_prefix_iff)
  with False show ?thesis by (simp add: classifyAuth_def cut_prefix_def)
qed

text \<open>Two requests that agree on everything but the credential they carry and the headers nobody reads.\<close>

definition agree_in_public :: "http_request \<Rightarrow> http_request \<Rightarrow> bool" where
  "agree_in_public r r' \<longleftrightarrow> hr_Method r = hr_Method r' \<and> hr_Path r = hr_Path r' \<and> hr_Body r = hr_Body r'
     \<and> header_get (hr_Header r) ''Content-Type'' = header_get (hr_Header r') ''Content-Type''
     \<and> header_get (hr_Header r) ''Accept'' = header_get (hr_Header r') ''Accept''"

lemma observation_public:
  assumes "agree_in_public r r'" and "header_get (hr_Header r) ''Authorization'' = [] \<longleftrightarrow> header_get (hr_Header r') ''Authorization'' = []"
  shows "observation r auth name body sc = observation r' auth name body sc"
  using assms by (simp add: observation_def recordedHeaders_def agree_in_public_def Let_def)

text \<open>C36: no credential reaches an observation or a response: if two requests agree in method, path, body,
  content type and accept header, and their authorization headers are classified alike (none,
  malformed, match or mismatch), the mock records the same observations and answers the same bytes
  for both, whatever the credentials, cookies and other headers are.\<close>

theorem recorder_keeps_no_credential:
  assumes "agree_in_public r r'"
    and "classifyAuth (header_get (hr_Header r) ''Authorization'') (so_ExpectedBearer opts)
       = classifyAuth (header_get (hr_Header r') ''Authorization'') (so_ExpectedBearer opts)"
  shows "handle reg opts env r recs = handle reg opts env r' recs"
proof -
  have "header_get (hr_Header r) ''Authorization'' = [] \<longleftrightarrow> header_get (hr_Header r') ''Authorization'' = []"
    using assms(2) classifyAuth_present by metis
  from observation_public [OF assms(1) this] have obs: "observation r = observation r'"
    by (intro ext)
  have same: "hr_Path r = hr_Path r'" "readRequestBody r = readRequestBody r'"
    using assms(1) by (simp_all add: agree_in_public_def readRequestBody_def)
  show ?thesis
    unfolding handle_def Let_def obs same assms(2) ..
qed

definition demo_request :: "string \<Rightarrow> http_request" where
  "demo_request cred = \<lparr>hr_Method = ''POST'', hr_Path = ''/v1/chat/completions/auth-required-match'',
     hr_Header = [(''Authorization'', cred), (''Cookie'', cred)], hr_Body = Some (new_reader ''{}'' EOF)\<rparr>"

definition demo_server :: server_options where
  "demo_server = \<lparr>so_Addr = DefaultAddr, so_ExpectedBearer = SentinelToken\<rparr>"

definition smooth :: serve_env where
  "smooth = \<lparr>se_cancelled = (\<lambda>_. False), se_write = (\<lambda>_. None), se_hijack = Hijacked\<rparr>"

theorem recorder_keeps_no_credential_witness:
  "handle all_scenarios demo_server smooth (demo_request ''Bearer guess-one'') []
     = handle all_scenarios demo_server smooth (demo_request ''Bearer guess-two'') []"
  by (rule recorder_keeps_no_credential)
    (simp_all add: agree_in_public_def demo_request_def header_get_def classifyAuth_def cut_prefix_def has_prefix_def
      bearerPrefix_def demo_server_def SentinelToken_def)

section \<open>What is served\<close>

text \<open>The segments that are written: up to the first that closes the connection.\<close>

fun delivered_segments :: "segment list \<Rightarrow> segment list" where
  "delivered_segments [] = []"
| "delivered_segments (s # ss) = s # (if seg_CloseAfter s then [] else delivered_segments ss)"

text \<open>An exchange in which no write fails and no delay is cut short by the end of the request's context.\<close>

definition unbroken :: "serve_env \<Rightarrow> bool" where
  "unbroken env \<longleftrightarrow> (\<forall>k. \<not> se_cancelled env k \<and> se_write env k = None)"

lemma serve_segments_unbroken:
  assumes "unbroken env"
  shows "serve_segments write_body env k segs w =
     (if segs = [] then w
      else (WriteHeader 200 w)\<lparr>rw_Body := rw_Body w @ WireBytes (delivered_segments segs)\<rparr>)"
proof (induction segs arbitrary: k w)
  case (Cons s segs)
  then show ?case
    using assms by (simp add: unbroken_def write_body_def WriteHeader_def WireBytes_def Let_def)
qed simp

lemma written_status:
  "rw_Status (write_body t w) = rw_Status (WriteHeader 200 w)" "rw_Body (write_body t w) = rw_Body w @ t"
  "rw_Body (WriteHeader c w) = rw_Body w"
  "rw_Status (WriteHeader c w) = (if rw_Status w = None then Some c else rw_Status w)"
  by (simp_all add: write_body_def WriteHeader_def Let_def)

text \<open>In any exchange what is written is a beginning of the segments' bytes.\<close>

lemma serve_segments_prefix:
  "\<exists>sent. rw_Body (serve_segments write_body env k segs w) = rw_Body w @ sent
     \<and> prefix sent (WireBytes (delivered_segments segs))
     \<and> (sent = [] \<and> rw_Status (serve_segments write_body env k segs w) = rw_Status w
         \<or> rw_Status (serve_segments write_body env k segs w) = rw_Status (WriteHeader 200 w))"
proof (induction segs arbitrary: k w)
  case (Cons s segs)
  let ?rest = "if seg_CloseAfter s then [] else delivered_segments segs"
  let ?w = "write_body (seg_Bytes s) w"
  have wire: "WireBytes (delivered_segments (s # segs)) = seg_Bytes s @ WireBytes ?rest"
    by (simp add: WireBytes_def)
  consider (cut) "0 < seg_Delay s \<and> se_cancelled env k"
    | (failed) n where "\<not> (0 < seg_Delay s \<and> se_cancelled env k)" "se_write env k = Some n"
    | (written) "\<not> (0 < seg_Delay s \<and> se_cancelled env k)" "se_write env k = None"
    by (cases "se_write env k") blast+
  then show ?case
  proof cases
    case cut
    then show ?thesis by simp
  next
    case failed
    then show ?thesis
      unfolding wire
      by (intro exI [of _ "take n (seg_Bytes s)"]) (auto simp: written_status take_is_prefix prefix_prefix)
  next
    case written
    show ?thesis
    proof (cases "seg_CloseAfter s")
      case True
      with written show ?thesis
        unfolding wire by (intro exI [of _ "seg_Bytes s"]) (auto simp: written_status)
    next
      case False
      from Cons.IH [of "Suc k" ?w] obtain sent where
        "rw_Body (serve_segments write_body env (Suc k) segs ?w) = rw_Body ?w @ sent"
        "prefix sent (WireBytes (delivered_segments segs))"
        "rw_Status (serve_segments write_body env (Suc k) segs ?w) = rw_Status ?w
          \<or> rw_Status (serve_segments write_body env (Suc k) segs ?w) = rw_Status (WriteHeader 200 ?w)"
        by blast
      with written False show ?thesis
        unfolding wire by (intro exI [of _ "seg_Bytes s @ sent"]) (auto simp: written_status Let_def)
    qed
  qed
qed (simp add: WireBytes_def)

lemma set_header_same [simp]:
  "rw_Status (set_header k v w) = rw_Status w" "rw_Body (set_header k v w) = rw_Body w"
  by (simp_all add: set_header_def)

lemma set_headers_same [simp]:
  "rw_Status (set_headers hs w) = rw_Status w" "rw_Body (set_headers hs w) = rw_Body w"
  by (induction hs arbitrary: w) (auto simp: set_headers_def)

lemma served_unbroken:
  assumes "sc_Redirect sc = []" and "unbroken env"
  shows "rw_Body (serveHTTP env sc fresh_writer) = WireBytes (delivered_segments (sc_Wire sc))"
    and "rw_Status (serveHTTP env sc fresh_writer)
      = (if sc_Wire sc = [] \<and> scenario_status sc = 200 then None else Some (scenario_status sc))"
  using assms(1)
  by (simp_all add: serveHTTP_def serve_segments_unbroken [OF assms(2)] WriteHeader_def fresh_writer_def WireBytes_def Let_def)

lemma served_prefix:
  assumes "sc_Redirect sc = []"
  shows "prefix (rw_Body (serveHTTP env sc fresh_writer)) (WireBytes (delivered_segments (sc_Wire sc)))"
    and "rw_Status (serveHTTP env sc fresh_writer) = Some (scenario_status sc)
      \<or> rw_Status (serveHTTP env sc fresh_writer) = None \<and> scenario_status sc = 200
         \<and> rw_Body (serveHTTP env sc fresh_writer) = []"
proof -
  define w where "w = (if scenario_status sc \<noteq> 200
      then WriteHeader (scenario_status sc) (set_headers (sc_Headers sc) fresh_writer)
      else set_headers (sc_Headers sc) fresh_writer)"
  have served: "serveHTTP env sc fresh_writer = serve_segments write_body env 0 (sc_Wire sc) w"
    using assms by (simp add: serveHTTP_def w_def Let_def)
  have w: "rw_Body w = []" "rw_Status (WriteHeader 200 w) = Some (scenario_status sc)"
      "rw_Status w = Some (scenario_status sc) \<or> rw_Status w = None \<and> scenario_status sc = 200"
    by (auto simp: w_def written_status fresh_writer_def)
  show "prefix (rw_Body (serveHTTP env sc fresh_writer)) (WireBytes (delivered_segments (sc_Wire sc)))"
    and "rw_Status (serveHTTP env sc fresh_writer) = Some (scenario_status sc)
      \<or> rw_Status (serveHTTP env sc fresh_writer) = None \<and> scenario_status sc = 200
         \<and> rw_Body (serveHTTP env sc fresh_writer) = []"
    using serve_segments_prefix [of env 0 "sc_Wire sc" w] w unfolding served by auto
qed

lemma redirect_written:
  assumes "sc_Redirect sc \<noteq> []"
  shows "rw_Body (serveHTTP env sc fresh_writer) = []"
    and "rw_Status (serveHTTP env sc fresh_writer) = Some (redirectStatus sc)"
  using assms by (simp_all add: serveHTTP_def written_status fresh_writer_def)

lemma http_error_written:
  "rw_Status (http_error t c fresh_writer) = Some c" "rw_Body (http_error t c fresh_writer) = t @ [LF]"
  by (simp_all add: http_error_def written_status fresh_writer_def)

lemma refusal_written:
  "rw_Status (write_body t (writeStatus sc 401 fresh_writer)) = Some 401"
  "rw_Body (write_body t (writeStatus sc 401 fresh_writer)) = t"
  by (simp_all add: write_body_def writeStatus_def WriteHeader_def fresh_writer_def Let_def)

text \<open>C13: the gate and the wire, for every request and every exchange: each request is recorded once.  One
  for an unknown scenario is answered 404 and one whose body cannot be read (or is too large) 400,
  both recorded without a name and without a body.  Any other is recorded under the scenario's name
  with its body.  It is refused with status 401 and none of the wire exactly if the scenario
  requires a credential and the header is not \<open>Bearer\<close> followed by the nonempty expected token (any
  token, when none is expected).  One that is let through to a scenario served over HTTP gets the
  redirect status and no body if the scenario redirects, and otherwise a beginning of the bytes of
  the scenario's segments, up to the one that closes, under the scenario's status (or with none set,
  which is 200, before the first byte): all of them if no write fails and no delay is cut short.\<close>

theorem gate_and_wire:
  "\<exists>ob w. handle reg opts env r recs = (recs @ [ob], w)
     \<and> (case Lookup reg (scenarioNameFromPath (hr_Path r)) of
          None \<Rightarrow> mr_Scenario ob = [] \<and> mr_BodyRaw ob = [] \<and> rw_Status w = Some 404
            \<and> rw_Body w = ''mockllm: unknown scenario '' @ scenarioNameFromPath (hr_Path r)
                @ ''; list scenarios with radichat-mock list'' @ [LF]
        | Some sc \<Rightarrow>
           (case readRequestBody r of
              Inl _ \<Rightarrow> mr_Scenario ob = [] \<and> mr_BodyRaw ob = [] \<and> rw_Status w = Some 400
                \<and> rw_Body w = ''mockllm: cannot read request body'' @ [LF]
            | Inr body \<Rightarrow> mr_Scenario ob = sc_Name sc \<and> mr_BodyRaw ob = body
                \<and> (let h = header_get (hr_Header r) ''Authorization'' in
                    if as_Required (sc_Auth sc) \<and> \<not> (\<exists>token. h = bearerPrefix @ token \<and> token \<noteq> []
                         \<and> (so_ExpectedBearer opts = [] \<or> token = so_ExpectedBearer opts))
                    then rw_Status w = Some 401
                      \<and> rw_Body w = ''mockllm: missing or mismatched bearer credential'' @ [LF]
                    else sc_Mode sc \<noteq> ModeRaw \<longrightarrow>
                      (if sc_Redirect sc \<noteq> [] then rw_Status w = Some (redirectStatus sc) \<and> rw_Body w = []
                       else prefix (rw_Body w) (WireBytes (delivered_segments (sc_Wire sc)))
                         \<and> (rw_Status w = Some (scenario_status sc)
                             \<or> rw_Status w = None \<and> scenario_status sc = 200 \<and> rw_Body w = [])
                         \<and> (unbroken env \<longrightarrow>
                              rw_Body w = WireBytes (delivered_segments (sc_Wire sc))
                              \<and> rw_Status w = (if sc_Wire sc = [] \<and> scenario_status sc = 200 then None
                                  else Some (scenario_status sc)))))))"
proof (cases "Lookup reg (scenarioNameFromPath (hr_Path r))")
  case None
  then show ?thesis
    by (simp add: handle_def observation_def http_error_written Let_def)
next
  case known: (Some sc)
  show ?thesis
  proof (cases "readRequestBody r")
    case (Inl e)
    with known show ?thesis
      by (simp add: handle_def observation_def http_error_written Let_def)
  next
    case (Inr body)
    define h where "h = header_get (hr_Header r) ''Authorization''"
    define auth where "auth = classifyAuth h (so_ExpectedBearer opts)"
    define ob where "ob = observation r auth (scenarioNameFromPath (hr_Path r)) body (Some sc)"
    define refused where "refused \<longleftrightarrow> as_Required (sc_Auth sc) \<and> \<not> ao_Matched auth"
    define w where "w = (if refused then
        write_body (''mockllm: missing or mismatched bearer credential'' @ [LF]) (writeStatus sc 401 fresh_writer)
      else if sc_Mode sc = ModeRaw then serveRaw env sc fresh_writer else serveHTTP env sc fresh_writer)"
    have handled: "handle reg opts env r recs = (recs @ [ob], w)"
      unfolding w_def refused_def ob_def auth_def h_def using known Inr by (simp add: handle_def Let_def)
    have observed: "mr_Scenario ob = sc_Name sc" "mr_BodyRaw ob = body"
      unfolding ob_def using Lookup_Some [OF known] by (simp_all add: observation_def Let_def)
    have gate: "refused \<longleftrightarrow> as_Required (sc_Auth sc) \<and> \<not> (\<exists>token. h = bearerPrefix @ token \<and> token \<noteq> []
                \<and> (so_ExpectedBearer opts = [] \<or> token = so_ExpectedBearer opts))"
      unfolding refused_def auth_def classifyAuth_matched ..
    have closed: "rw_Status w = Some 401"
        "rw_Body w = ''mockllm: missing or mismatched bearer credential'' @ [LF]" if refused
      unfolding w_def if_P [OF that] by (rule refusal_written)+
    have opened: "w = serveHTTP env sc fresh_writer" if "\<not> refused" "sc_Mode sc \<noteq> ModeRaw"
      using that by (simp add: w_def)
    show ?thesis
      unfolding known Inr option.case sum.case Let_def h_def [symmetric] gate [symmetric]
      by (intro exI [of _ ob] exI [of _ w])
        (simp add: handled observed closed opened served_prefix served_unbroken redirect_written)
  qed
qed

theorem gate_and_wire_witness:
  "\<exists>ob w. handle all_scenarios demo_server smooth (demo_request (''Bearer '' @ SentinelToken)) [] = ([ob], w)
     \<and> rw_Body w = WireBytes (successWire ''authorized'' ''stop'')"
proof -
  have "\<exists>sc. Lookup all_scenarios ''auth-required-match'' = Some sc \<and> sc_Wire sc = successWire ''authorized'' ''stop''
      \<and> sc_Mode sc = ModeHTTP \<and> sc_Redirect sc = [] \<and> as_Required (sc_Auth sc)"
    by (simp add: Lookup_def all_scenarios_def scenario_lists zero_scenario_def)
  then obtain sc where sc: "Lookup all_scenarios ''auth-required-match'' = Some sc"
    "sc_Wire sc = successWire ''authorized'' ''stop''" "sc_Mode sc = ModeHTTP" "sc_Redirect sc = []"
    "as_Required (sc_Auth sc)" by blast
  have path: "scenarioNameFromPath (hr_Path (demo_request c)) = ''auth-required-match''" for c
    by (simp add: demo_request_def scenarioNameFromPath_def scenarioPathPrefix_def has_prefix_def trim_prefix_def
        trim_slashes_def)
  have body: "readRequestBody (demo_request c) = Inr ''{}''" for c
    by (simp add: readRequestBody_def demo_request_def read_all_limit new_reader_def maxRequestBody_def)
  have "delivered_segments (successWire ''authorized'' ''stop'') = successWire ''authorized'' ''stop''"
    by (simp add: successWire_def FragmentAt_def plain_segment_def)
  moreover have "header_get (hr_Header (demo_request c)) ''Authorization'' = c" for c
    by (simp add: demo_request_def header_get_def)
  moreover have "Lookup all_scenarios (scenarioNameFromPath (hr_Path (demo_request c))) = Some sc" for c
    unfolding path by (rule sc(1))
  moreover have "SentinelToken \<noteq> []" "so_ExpectedBearer demo_server = SentinelToken"
    by (simp_all add: demo_server_def SentinelToken_def)
  ultimately show ?thesis
    using gate_and_wire [of all_scenarios demo_server smooth "demo_request (''Bearer '' @ SentinelToken)" "[]"]
      body sc(2-5)
    by (auto simp: bearerPrefix_def unbroken_def smooth_def Let_def)
qed

end
