(* ===== verification/MockClient.thy ===== *)
theory MockClient imports MockProps ClientProps begin

text \<open>
  The client and the mock put together: the request \<open>internal/client\<close> writes, as
  \<open>internal/mockllm\<close> records and judges it.
\<close>

section \<open>The token of a scenario\<close>

definition retoken :: "(scenario \<Rightarrow> string) \<Rightarrow> scenario \<Rightarrow> scenario" where
  "retoken f s = s\<lparr>sc_Auth := (sc_Auth s)\<lparr>as_Token := f s\<rparr>\<rparr>"

lemma Lookup_retoken: "Lookup (map (retoken f) reg) name = map_option (retoken f) (Lookup reg name)"
  by (induction reg) (simp_all add: Lookup_def retoken_def)

lemma retoken_sel [simp]:
  "sc_Redirect (retoken f s) = sc_Redirect s" "sc_Wire (retoken f s) = sc_Wire s" "sc_Mode (retoken f s) = sc_Mode s"
  "sc_Headers (retoken f s) = sc_Headers s" "sc_Expect (retoken f s) = sc_Expect s"
  "as_Required (sc_Auth (retoken f s)) = as_Required (sc_Auth s)"
  "scenario_status (retoken f s) = scenario_status s" "redirectStatus (retoken f s) = redirectStatus s"
  by (simp_all add: retoken_def scenario_status_def redirectStatus_def)

lemma retoken_serves:
  "serveHTTP env (retoken f s) w = serveHTTP env s w" "serveRaw env (retoken f s) w = serveRaw env s w"
  "writeStatus (retoken f s) code w = writeStatus s code w"
  "observation r auth name body (Some (retoken f s)) = observation r auth name body (Some s)"
  by (simp_all add: serveHTTP_def serveRaw_def writeStatus_def observation_def checkExpect_def Let_def
      split: hijack_answer.split)

text \<open>
  \<open>AuthSpec.Token\<close> is documented as the credential a scenario expects, but no request is ever compared
  with it: the handler compares with \<open>Options.ExpectedBearer\<close> only, so whatever tokens the scenarios
  name, the same requests are let through.
\<close>

lemma auth_token_ignored:
  "handle (map (retoken f) reg) opts env r recs = handle reg opts env r recs"
proof (cases "Lookup reg (scenarioNameFromPath (hr_Path r))")
  case (Some s)
  then show ?thesis
    unfolding handle_def Lookup_retoken Let_def
    by (simp only: option.map option.case retoken_serves retoken_sel)
qed (simp add: handle_def Lookup_retoken Let_def)

section \<open>The client's body, decoded\<close>

lemma decimal_of_digits:
  assumes "list_all is_digit t" and "t \<noteq> []"
  shows "decimal_of t = (False, dec_value t, 0)"
proof -
  have n: "\<not> has_prefix t ''-''"
    using digits_plain(5) [OF assms] .
  have t: "takeWhile is_digit t = t" "dropWhile is_digit t = []"
    using assms(1) by (simp_all add: takeWhile_eq_all_conv list_all_iff)
  show ?thesis
    by (simp add: decimal_of_def n t has_prefix_def [of "[]"])
qed

lemma show_nat_Nil [simp]: "show_nat n \<noteq> []"
  by (simp add: show_nat.simps [of n])

lemma int_fields_equal: "0 < i \<Longrightarrow> valuesEqual (JNum (show_int i)) (WantInt i)"
  by (simp add: valuesEqual_def float64_eq_def decimal_float64_def int_float64_def show_int_pos decimal_of_digits
      show_nat_digits)

definition request_members :: "config \<Rightarrow> message list \<Rightarrow> json_object" where
  "request_members cfg messages =
     [json_member ''model'' (JStr (cfg_Model cfg)),
      json_member ''messages'' (JArr (map wire_message messages)),
      json_member ''stream'' (JBool True),
      json_member ''max_tokens'' (JNum (show_int (sint (cfg_GenerationReserve cfg))))]"

lemma request_body_members: "request_body cfg messages = JObj (request_members cfg messages)"
  by (simp add: request_body_def request_members_def)

lemma body_field_request:
  "body_field (Some (request_members cfg messages)) ''model'' = Some (JStr (cfg_Model cfg))"
  "body_field (Some (request_members cfg messages)) ''messages'' = Some (JArr (map wire_message messages))"
  "body_field (Some (request_members cfg messages)) ''stream'' = Some (JBool True)"
  "body_field (Some (request_members cfg messages)) ''max_tokens''
     = Some (JNum (show_int (sint (cfg_GenerationReserve cfg))))"
  by (simp_all add: body_field_def request_members_def json_member_def)

lemma messageRoles_request: "messageRoles (Some (request_members cfg messages)) = map Role messages"
  unfolding messageRoles_def body_field_request
  by (simp add: wire_message_def str_member_def text_field_def body_field_def)

lemma decodeBody_request:
  assumes "parse_json t = Some (request_body cfg messages)" and "trim_space t \<noteq> []"
    and "0 < sint (cfg_GenerationReserve cfg)"
  shows "decodeBody t = Some (request_members cfg messages)"
proof -
  have "\<not> float_overflow (show_nat (nat (sint (cfg_GenerationReserve cfg))))"
    by (rule digits_no_overflow)
      (use sint64_bounds [of "cfg_GenerationReserve cfg"] in \<open>auto simp: show_nat_digits\<close>)
  then have "floats_ok (JObj (request_members cfg messages))"
    using assms(3)
    by (simp add: request_members_def json_member_def wire_message_def str_member_def text_field_def
        list_all_iff show_int_pos)
  with assms show ?thesis
    by (simp add: decodeBody_def request_body_members)
qed

lemma request_text_plain:
  "trim_space (json_print True (request_body cfg messages)) = json_print True (request_body cfg messages)"
  by (rule trim_space_plain) (simp_all add: request_body_def plain_byte_def)

lemma request_built:
  assumes "valid_config env ip cp (cl_cfg cl)"
  shows "build_request ip ut cl messages = Inr \<lparr>rq_method = ''POST'', rq_url = cfg_Endpoint (cl_cfg cl),
     rq_header = [(''Content-Type'', ''application/json''), (''Accept'', ''text/event-stream'')]
       @ (if cfg_BearerToken (cl_cfg cl) \<noteq> [] then [(''Authorization'', ''Bearer '' @ cfg_BearerToken (cl_cfg cl))] else []),
     rq_body = json_print True (request_body (cl_cfg cl) messages)\<rparr>"
proof -
  have "validateEndpoint ip (cfg_Endpoint (cl_cfg cl)) = Inr ()"
    using assms by (auto simp: valid_config_def endpoint_accepted)
  then obtain u where "url_parse ip (cfg_Endpoint (cl_cfg cl)) = Inr u"
    using valid_endpoint_parses by blast
  then show ?thesis by (simp add: build_request_def Let_def)
qed

section \<open>Expectations the client meets\<close>

definition asks_for :: "config \<Rightarrow> message list \<Rightarrow> expect \<Rightarrow> bool" where
  "asks_for cfg messages ex \<longleftrightarrow> ex_Method ex \<in> {[], ''POST''} \<and> ex_Messages ex \<in> {[], map Role messages}
     \<and> set (ex_Fields ex) \<subseteq> {(''model'', WantString (cfg_Model cfg)), (''stream'', WantBool True),
          (''max_tokens'', WantInt (sint (cfg_GenerationReserve cfg)))}"

lemma check_fields_met:
  assumes "0 < sint (cfg_GenerationReserve cfg)"
    and "set fs \<subseteq> {(''model'', WantString (cfg_Model cfg)), (''stream'', WantBool True),
          (''max_tokens'', WantInt (sint (cfg_GenerationReserve cfg)))}"
  shows "check_fields (Some (request_members cfg messages)) fs res = res"
  using assms(2)
proof (induction fs)
  case (Cons f fs)
  then show ?case
    using int_fields_equal [OF assms(1)]
    by (auto simp: body_field_request) (auto simp: valuesEqual_def)
qed simp

lemma check_roles_same: "check_roles i rs rs res = res"
  by (induction rs arbitrary: i) simp_all

lemma expectation_met:
  assumes "0 < sint (cfg_GenerationReserve cfg)" and "asks_for cfg messages (sc_Expect sc)"
    and "mr_Method rec = ''POST''" and "mr_Body rec = Some (request_members cfg messages)"
  shows "checkExpect sc rec = \<lparr>er_Matched = True, er_Problems = []\<rparr>"
proof -
  have ask: "ex_Method (sc_Expect sc) = [] \<or> ex_Method (sc_Expect sc) = ''POST''"
    "ex_Messages (sc_Expect sc) = [] \<or> ex_Messages (sc_Expect sc) = map Role messages"
    using assms(2) unfolding asks_for_def by blast+
  have met: "check_fields (mr_Body rec) (ex_Fields (sc_Expect sc)) res = res" for res
    unfolding assms(4) using assms(2) by (intro check_fields_met assms(1)) (simp add: asks_for_def)
  have roles: "messageRoles (mr_Body rec) = map Role messages"
    unfolding assms(4) by (rule messageRoles_request)
  have posted: "\<not> (ex_Method (sc_Expect sc) \<noteq> [] \<and> ''POST'' \<noteq> ex_Method (sc_Expect sc))"
    using ask(1) by auto
  show ?thesis
    unfolding checkExpect_def Let_def met roles assms(3) if_not_P [OF posted]
    using ask(2) by (auto simp: check_roles_same)
qed

text \<open>What \<open>net/http\<close> hands to the mock's handler of a request the client sent to \<open>path\<close>.\<close>

definition received :: "string \<Rightarrow> request \<Rightarrow> http_request" where
  "received path req = \<lparr>hr_Method = rq_method req, hr_Path = path, hr_Header = rq_header req,
     hr_Body = Some (new_reader (rq_body req) EOF)\<rparr>"

lemma received_body:
  assumes "length (rq_body req) \<le> maxRequestBody"
  shows "readRequestBody (received path req) = Inr (rq_body req)"
  using assms by (simp add: readRequestBody_def received_def read_all_limit new_reader_def)

text \<open>C7: the request on the wire: with a validated configuration and UTF-8 messages whose encoding fits the
  mock's bound, the client's request to a known scenario is recorded as a \<open>POST\<close> whose decoded body has
  the roles of the messages in order, the configured model, \<open>stream\<close> true and the generation reserve
  as \<open>max_tokens\<close>; its credential is classified as absent, matching or mismatching, never as
  malformed; and every expectation about these fields is met without a problem.\<close>

theorem client_request_as_recorded:
  assumes "valid_config env ip cp (cl_cfg cl)" and "utf8_config (cl_cfg cl)" and "list_all utf8_message messages"
    and "length (json_print True (request_body (cl_cfg cl) messages)) \<le> maxRequestBody"
    and "Lookup reg (scenarioNameFromPath path) = Some sc"
  shows "\<exists>req ob w. build_request ip ut cl messages = Inr req
     \<and> handle reg opts se (received path req) recs = (recs @ [ob], w)
     \<and> mr_Method ob = ''POST'' \<and> messageRoles (mr_Body ob) = map Role messages
     \<and> body_field (mr_Body ob) ''model'' = Some (JStr (cfg_Model (cl_cfg cl)))
     \<and> body_field (mr_Body ob) ''stream'' = Some (JBool True)
     \<and> body_field (mr_Body ob) ''max_tokens'' = Some (JNum (show_int (sint (cfg_GenerationReserve (cl_cfg cl)))))
     \<and> outcome_text (mr_Auth ob)
         = (if cfg_BearerToken (cl_cfg cl) = [] then ''none''
            else if so_ExpectedBearer opts \<in> {[], cfg_BearerToken (cl_cfg cl)} then ''match'' else ''mismatch'')
     \<and> (asks_for (cl_cfg cl) messages (sc_Expect sc)
         \<longrightarrow> mr_ExpectCheck ob = \<lparr>er_Matched = True, er_Problems = []\<rparr>)"
proof -
  let ?cfg = "cl_cfg cl" and ?payload = "json_print True (request_body (cl_cfg cl) messages)"
  obtain req where req: "build_request ip ut cl messages = Inr req" "rq_method req = ''POST''" "rq_body req = ?payload"
    and header: "header_get (rq_header req) ''Authorization''
      = (if cfg_BearerToken ?cfg = [] then [] else ''Bearer '' @ cfg_BearerToken ?cfg)"
    using request_built [OF assms(1), of ut messages] by (simp add: header_get_def)
  let ?r = "received path req"
  define auth where "auth = classifyAuth (header_get (hr_Header ?r) ''Authorization'') (so_ExpectedBearer opts)"
  define ob where "ob = observation ?r auth (scenarioNameFromPath path) ?payload (Some sc)"
  have pos: "0 < sint (cfg_GenerationReserve ?cfg)"
    using assms(1) by (simp add: valid_config_def)
  have decoded: "decodeBody ?payload = Some (request_members ?cfg messages)"
    using request_text_plain [of ?cfg messages]
    by (intro decodeBody_request parse_json_print request_body_wf assms(2,3) pos) (simp add: request_body_def)
  have ob: "mr_Method ob = ''POST''" "mr_Body ob = Some (request_members ?cfg messages)" "mr_Auth ob = auth"
    using req(2) decoded by (simp_all add: ob_def observation_def received_def Let_def)
  have outcome: "outcome_text auth = (if cfg_BearerToken ?cfg = [] then ''none''
      else if so_ExpectedBearer opts \<in> {[], cfg_BearerToken ?cfg} then ''match'' else ''mismatch'')"
    using header by (auto simp: auth_def received_def classifyAuth_def cut_prefix_def has_prefix_def bearerPrefix_def
        outcome_text_def)
  have met: "mr_ExpectCheck ob = \<lparr>er_Matched = True, er_Problems = []\<rparr>" if "asks_for ?cfg messages (sc_Expect sc)"
    using req(2) decoded expectation_met [OF pos that]
    by (simp add: ob_def observation_def received_def Let_def)
  have body: "readRequestBody ?r = Inr ?payload"
    using received_body [of req path] req(3) assms(4) by simp
  have "\<exists>w. handle reg opts se ?r recs = (recs @ [ob], w)"
    unfolding handle_def Let_def ob_def auth_def body using assms(5) by (simp add: received_def)
  then show ?thesis
    using req(1) ob outcome met by (auto simp: body_field_request messageRoles_request)
qed

lemma demo_request_length:
  "length (json_print True (request_body demo_config [\<lparr>Role = ''user'', Content = ''hi''\<rparr>])) = 89"
  by code_simp

theorem client_request_as_recorded_witness:
  "\<exists>req ob w. build_request no_ip_host (\<lambda>_. []) demo_client [\<lparr>Role = ''user'', Content = ''hi''\<rparr>] = Inr req
     \<and> handle all_scenarios demo_server smooth (received ''/v1/chat/completions/stream-success-basic'' req) [] = ([ob], w)
     \<and> messageRoles (mr_Body ob) = [''user'']"
proof -
  let ?ms = "[\<lparr>Role = ''user'', Content = ''hi''\<rparr>]"
  have valid: "valid_config demo_env no_ip_host ''c.json'' (cl_cfg demo_client)" "utf8_config (cl_cfg demo_client)"
    using demo_valid demo_utf8 by simp_all
  have ms: "list_all utf8_message ?ms"
    by (simp add: utf8_message_def valid_utf8_ascii byte_in_def)
  have short: "length (json_print True (request_body (cl_cfg demo_client) ?ms)) \<le> maxRequestBody"
    using demo_request_length by (simp add: maxRequestBody_def)
  have path: "scenarioNameFromPath ''/v1/chat/completions/stream-success-basic'' = ''stream-success-basic''"
    by (simp add: scenarioNameFromPath_def scenarioPathPrefix_def has_prefix_def trim_prefix_def trim_slashes_def)
  have "Lookup all_scenarios ''stream-success-basic'' \<noteq> None"
    by (simp add: Lookup_None all_names flip: image_set set_map)
  then obtain sc where "Lookup all_scenarios (scenarioNameFromPath ''/v1/chat/completions/stream-success-basic'') = Some sc"
    by (auto simp: path)
  from client_request_as_recorded [OF valid ms short this, of "\<lambda>_. []" demo_server smooth "[]"] show ?thesis
    by auto
qed

end
