(* ===== verification/MockDecode.thy ===== *)
theory MockDecode imports MockWire JsonVisible begin

text \<open>
  The wires of the mock read by the client: what \<open>decodeStream\<close> makes of a chunk event, and of the
  successful wires however they are cut into segments.
\<close>

section \<open>An event of the mock\<close>

definition payload_event :: "string \<Rightarrow> framed_event" where
  "payload_event p = ([(''data: '' @ p, [LF])], [LF])"

lemma payload_event_text: "event_text (payload_event p) = rawEvent p"
  by (simp add: event_text_def frame_text_def payload_event_def rawEvent_def)

lemma visible_no_eol: "list_all visible p \<Longrightarrow> list_all (\<lambda>c. \<not> eol_byte c) p"
  by (auto simp: list_all_iff visible_def eol_byte_def LF_def CR_def)

lemma payload_event_ok:
  assumes "list_all visible p" and "int (length (rawEvent p)) \<le> do_max_event opt"
  shows "event_ok opt (payload_event p)"
  using assms visible_no_eol [OF assms(1)]
  by (simp add: event_ok_def payload_event_def framed_def frame_line_def line_end_def frame_text_def rawEvent_def)
    (simp add: eol_byte_def LF_def CR_def)

lemma payload_event_data:
  assumes "p \<noteq> []" and "plain_byte (hd p)" and "plain_byte (last p)"
  shows "event_data (payload_event p) = p"
  using trim_space_plain [OF assms]
  by (simp add: event_data_def payload_event_def has_prefix_def splitSSEField_def)

section \<open>The chunks\<close>

lemma chunk_json_wf: "valid_utf8 content \<Longrightarrow> valid_utf8 finish \<Longrightarrow> json_wf True max_nesting (chunk_json content finish)"
  by (simp add: chunk_json_def json_member_def max_nesting_def valid_utf8_ascii byte_in_def)

lemma chunk_visible: "list_all visible (json_print True (chunk_json content finish))"
  unfolding chunk_json_def json_member_def
  by (intro members_visible) 
    (auto intro!: array_visible members_visible simp: json_quote_visible split: if_splits simp: visible_def)

lemma chunk_payload_ends:
  "json_print True (chunk_json content finish) \<noteq> []"
  "hd (json_print True (chunk_json content finish)) = CHR ''{''"
  "last (json_print True (chunk_json content finish)) = CHR ''}''"
  by (simp_all add: chunk_json_def)

lemma plain_braces: "plain_byte (CHR ''{'')" "plain_byte (CHR ''}'')"
  by (simp_all add: plain_byte_def)

lemma chunk_event_data: "event_data (payload_event (json_print True (chunk_json content finish)))
    = json_print True (chunk_json content finish)"
  by (rule payload_event_data) (simp_all add: chunk_payload_ends plain_braces del: json_print.simps)

lemma chunk_not_done: "json_print True (chunk_json content finish) \<noteq> ''[DONE]''"
  using chunk_payload_ends(2) [of content finish] by auto

lemma unmarshal_chunk_print:
  assumes "valid_utf8 content" and "valid_utf8 finish"
  shows "unmarshal_chunk (json_print True (chunk_json content finish)) = Some \<lparr>sc_error = [],
     sc_choices = [\<lparr>ch_delta = zero_delta\<lparr>d_content := (if content = [] then [] else json_quote True content)\<rparr>,
        ch_finish = (if finish = [] then None else Some finish)\<rparr>]\<rparr>"
  unfolding unmarshal_chunk_def parse_json_print [OF chunk_json_wf [OF assms]]
  by (simp add: chunk_json_def json_member_def chunk_member_def names_field_def has_prefix_def ascii_upper_def
      unmarshal_slice_def unmarshal_choice_def choice_member_def unmarshal_delta_def delta_member_def
      zero_choice_def zero_delta_def)

lemma deltaText_quote:
  assumes "valid_utf8 t"
  shows "deltaText (json_quote True t) = Inr t"
proof -
  have "parse_json (json_print True (JStr t)) = Some (JStr t)"
    using assms by (intro parse_json_print) simp
  then show ?thesis by (simp add: deltaText_def) (simp add: json_quote_def)
qed

lemma classify_nothing: "classifyStreamError [] omit = None"
  by (simp add: classifyStreamError_def trim_space_Nil)

text \<open>What the loop does with a chunk of content and with one that only finishes.\<close>

lemma take_content_chunk:
  assumes "valid_utf8 content" and "content \<noteq> []" and "valid_utf8 finish"
    and "\<not> (0 < do_output_limit opt \<and> do_output_limit opt < int (length (ds_text ds)) + int (length content))"
  shows "take_chunk opt cb (json_print True (chunk_json content finish)) ds s =
     (case call_delta cb s content of
        (Some e, s') \<Rightarrow> (Some (CallbackErr e), ds\<lparr>ds_saw := True, ds_text := ds_text ds @ content\<rparr>, s')
      | (None, s') \<Rightarrow> (None, ds\<lparr>ds_saw := True, ds_text := ds_text ds @ content,
           ds_finish := (if finish = [] then ds_finish ds else finish)\<rparr>, s'))"
  using assms
  by (auto simp: take_chunk_def unmarshal_chunk_print classify_nothing take_choice_def zero_delta_def Let_def
      deltaText_quote note_finish_def split: prod.split option.split)

lemma take_finish_chunk:
  assumes "valid_utf8 finish"
  shows "take_chunk opt cb (json_print True (chunk_json [] finish)) ds s =
     (None, ds\<lparr>ds_saw := True, ds_finish := (if finish = [] then ds_finish ds else finish)\<rparr>, s)"
  using assms
  by (simp add: take_chunk_def unmarshal_chunk_print classify_nothing take_choice_def zero_delta_def Let_def
      deltaText_def note_finish_def)

section \<open>The successful wires\<close>

definition chunk_event :: "string \<Rightarrow> string \<Rightarrow> framed_event" where
  "chunk_event content finish = payload_event (json_print True (chunk_json content finish))"

definition done_event :: framed_event where
  "done_event = payload_event ''[DONE]''"

lemma done_event_simps:
  "event_data done_event = ''[DONE]''" "event_text done_event = doneMarker" "event_ok opt done_event \<longleftrightarrow> 14 \<le> do_max_event opt"
proof -
  show "event_data done_event = ''[DONE]''"
    unfolding done_event_def by (rule payload_event_data) (simp_all add: plain_byte_def)
  show "event_text done_event = doneMarker"
    by (simp add: done_event_def payload_event_text rawEvent_def doneMarker_def)
  show "event_ok opt done_event \<longleftrightarrow> 14 \<le> do_max_event opt"
    by (simp add: done_event_def event_ok_def payload_event_def framed_def frame_line_def line_end_def frame_text_def
        eol_byte_def LF_def CR_def)
qed

lemma chunk_event_simps:
  "event_data (chunk_event content finish) = json_print True (chunk_json content finish)"
  "event_text (chunk_event content finish) = chunk content finish"
  "int (length (chunk content finish)) \<le> do_max_event opt \<Longrightarrow> event_ok opt (chunk_event content finish)"
  by (simp_all add: chunk_event_def chunk_event_data payload_event_text chunk_def payload_event_ok chunk_visible
      del: json_print.simps)

text \<open>Limits that let a wire of such events through.\<close>

definition roomy :: "decode_opts \<Rightarrow> string \<Rightarrow> string \<Rightarrow> bool" where
  "roomy opt wire text \<longleftrightarrow> int (length wire) \<le> do_max_event opt \<and> int (length wire) \<le> do_max_stream opt
     \<and> (0 < do_output_limit opt \<longrightarrow> int (length text) \<le> do_output_limit opt)"

lemma success_wire_decodes:
  assumes "valid_utf8 content" and "content \<noteq> []" and "finish \<in> {''stop'', ''length''}"
    and "roomy opt (WireBytes (successWire content finish)) content"
  shows "decodeStream quiet (new_reader (WireBytes (successWire content finish)) EOF) opt cb s =
     (case call_delta cb s content of
        (Some e, s') \<Rightarrow> (Some (CallbackErr e), content, [], s')
      | (None, s') \<Rightarrow> (None, content, finish, s'))"
proof -
  let ?evs = "[chunk_event content [], chunk_event [] finish, done_event]"
  have bytes: "WireBytes (successWire content finish) = concat (map event_text ?evs)"
    by (simp add: WireBytes_def successWire_def FragmentAt_def plain_segment_def chunk_event_simps done_event_simps)
  have len: "length (WireBytes (successWire content finish)) = length (chunk content []) + length (chunk [] finish) + 14"
    by (simp add: bytes chunk_event_simps done_event_simps doneMarker_def)
  have utf8: "valid_utf8 finish"
    using assms(3) by (auto simp: valid_utf8_ascii byte_in_def)
  have "list_all (event_ok opt) ?evs" "0 < do_max_event opt"
    and stream: "int (length (concat (map event_text ?evs))) \<le> do_max_stream opt"
    using assms(4) len by (simp_all add: roomy_def chunk_event_simps done_event_simps doneMarker_def flip: bytes)
  moreover have "run_events opt cb ?evs start_state s =
     (case call_delta cb s content of
        (Some e, s') \<Rightarrow> (Some (CallbackErr e), \<lparr>ds_text = content, ds_finish = [], ds_saw = True\<rparr>, s')
      | (None, s') \<Rightarrow> (None, \<lparr>ds_text = content, ds_finish = finish, ds_saw = True\<rparr>, s'))"
    using assms utf8
    by (auto simp: chunk_event_simps done_event_simps take_content_chunk take_finish_chunk start_state_def roomy_def
        chunk_payload_ends(1) chunk_not_done simp del: json_print.simps split: prod.split option.split)
  ultimately show ?thesis
    unfolding bytes using assms(2,3)
    by (subst decodeStream_events) (auto simp: finish_stream_def split: prod.split option.split)
qed

section \<open>Properties\<close>

text \<open>C39: cutting a wire neither loses, adds nor reorders a byte: \<open>Fragment\<close> at strictly increasing offsets
  inside the data gives one segment more than offsets, whose bytes are the data, and at any other
  offsets nothing at all; \<open>FragmentEveryN\<close> gives nonempty segments of at most \<open>n\<close> bytes, whose bytes are
  the data.\<close>

theorem fragments_reassemble:
  "(if inside_offsets (length data) offs
    then WireBytes (Fragment data offs) = data \<and> length (Fragment data offs) = Suc (length offs)
    else Fragment data offs = [])
   \<and> (if 0 < n then WireBytes (FragmentEveryN data n) = data
        \<and> list_all (\<lambda>s. seg_Bytes s \<noteq> [] \<and> int (length (seg_Bytes s)) \<le> n) (FragmentEveryN data n)
      else FragmentEveryN data n = [])"
proof -
  have every: "if 0 < n then WireBytes (FragmentEveryN data n) = data
        \<and> list_all (\<lambda>s. seg_Bytes s \<noteq> [] \<and> int (length (seg_Bytes s)) \<le> n) (FragmentEveryN data n)
      else FragmentEveryN data n = []"
    using every_n_bytes [of "nat n" data] by (auto simp: FragmentEveryN_def list_all_iff le_nat_iff)
  have bytes: "WireBytes (map (\<lambda>(i, j). plain_segment (slice data i j)) spans)
      = concat (map (\<lambda>(i, j). slice data i j) spans)" for spans
    by (induction spans) (auto simp: WireBytes_def plain_segment_def)
  show ?thesis
  proof (cases "fragment_spans (length data) 0 offs")
    case None
    then have "\<not> inside_offsets (length data) offs"
      using fragment_spans_valid [of "length data" 0 offs] by (simp add: inside_offsets_def)
    with None every show ?thesis by (simp add: Fragment_def)
  next
    case (Some spans)
    then have "inside_offsets (length data) offs"
      using fragment_spans_valid [of "length data" 0 offs] by (simp add: inside_offsets_def)
    with Some every show ?thesis
      using fragment_spans_bytes [OF Some] by (simp add: Fragment_def bytes)
  qed
qed

text \<open>C8: what the mock sends as a success is what the client prints, within the client's limits
  (\<open>roomy\<close>: the whole wire is no longer than the event limit and the stream limit, and the content no
  longer than the output limit, when that is positive).  The bytes of the successful wire for a
  nonempty valid UTF-8 content and the finish reason \<open>stop\<close> or \<open>length\<close>, in segments cut anywhere and
  received whole while the context lasts, hand the content to the callback exactly once, whatever it is (quotes, line breaks,
  text that looks like an event, \<open>[DONE]\<close>).  If the callback takes it, or there is none, they decode
  to exactly that content and finish reason; if it returns an error, that error is the result, with
  the content and no finish reason.\<close>

theorem success_wire_reaches_client:
  assumes "valid_utf8 content" and "content \<noteq> []" and "finish \<in> {''stop'', ''length''}"
    and "WireBytes segments = WireBytes (successWire content finish)"
    and "roomy opt (WireBytes segments) content"
  shows "decodeStream quiet (new_reader (WireBytes segments) EOF) opt cb s =
     (case call_delta cb s content of
        (Some e, s') \<Rightarrow> (Some (CallbackErr e), content, [], s')
      | (None, s') \<Rightarrow> (None, content, finish, s'))"
  using assms success_wire_decodes by simp

definition wide_opts :: decode_opts where
  "wide_opts = \<lparr>do_max_event = 65536, do_max_stream = 65536, do_omit = False, do_output_limit = 100\<rparr>"

lemma demo_wire_length: "length (WireBytes (successWire ''[DONE]'' ''stop'')) = 144"
  by code_simp

theorem success_wire_reaches_client_witness:
  "decodeStream quiet (new_reader (WireBytes (FragmentEveryN (WireBytes (successWire ''[DONE]'' ''stop'')) 1)) EOF)
      wide_opts collect [] = (None, ''[DONE]'', ''stop'', [''[DONE]''])"
proof -
  have same: "WireBytes (FragmentEveryN (WireBytes (successWire ''[DONE]'' ''stop'')) 1)
      = WireBytes (successWire ''[DONE]'' ''stop'')"
    using every_n_bytes [of 1] by (simp add: FragmentEveryN_def)
  have "valid_utf8 ''[DONE]''" by (simp add: valid_utf8_ascii byte_in_def)
  from success_wire_reaches_client [OF this _ _ same, of wide_opts collect "[]"] show ?thesis
    using demo_wire_length by (simp add: same roomy_def wide_opts_def collect_def call_delta_def)
qed

end
