(* ===== verification/MockOutcomes.thy ===== *)
theory MockOutcomes imports MockClient MockDecode begin

text \<open>
  The catalog against the client: what \<open>decodeStream\<close> makes of the wires of the stream, framing and
  malformed scenarios, as \<open>internal/mockllm/scenarios.go\<close> documents it in each scenario's note.
\<close>

section \<open>Outcomes\<close>

type_synonym wire_result = "stream_error option \<times> string \<times> string"

definition bytes_outcome :: "string \<Rightarrow> wire_result" where
  "bytes_outcome bs =
     (case decodeStream quiet (new_reader bs EOF) wide_opts None () of (e, text, fin, _) \<Rightarrow> (e, text, fin))"

definition wire_outcome :: "scenario \<Rightarrow> wire_result" where
  "wire_outcome sc = bytes_outcome (WireBytes (delivered_segments (sc_Wire sc)))"

lemma outcome_events:
  assumes "list_all (event_ok wide_opts) evs" and "length (concat (map event_text evs)) \<le> 65536"
    and "run_events wide_opts None evs start_state () = (e, ds, u)"
  shows "bytes_outcome (concat (map event_text evs)) =
     (case e of Some x \<Rightarrow> (Some x, ds_text ds, []) | None \<Rightarrow> finish_stream ds)"
  using decodeStream_events [OF assms(1), of None "()"] assms(2,3)
  by (auto simp: bytes_outcome_def wide_opts_def split: option.split prod.split)

section \<open>Raw events\<close>

lemma raw_outcome:
  assumes "take_chunk wide_opts None p start_state () = (e, ds, u)"
    and "list_all visible p" and "p \<noteq> []" and "plain_byte (hd p)" and "plain_byte (last p)" and "p \<noteq> ''[DONE]''"
    and "length p \<le> 1000"
  shows "bytes_outcome (rawEvent p @ doneMarker) =
     (case e of Some x \<Rightarrow> (Some x, ds_text ds, []) | None \<Rightarrow> finish_stream ds)"
proof -
  let ?evs = "[payload_event p, done_event]"
  have data: "event_data (payload_event p) = p"
    using assms(3-5) by (rule payload_event_data)
  then have "run_events wide_opts None ?evs start_state () = (e, ds, u)"
    using assms(1,3,6) by (cases e) (simp_all add: done_event_simps)
  moreover have "list_all (event_ok wide_opts) ?evs"
    using assms(2,7) by (simp add: payload_event_ok done_event_simps rawEvent_def wide_opts_def)
  moreover have "concat (map event_text ?evs) = rawEvent p @ doneMarker"
    by (simp add: payload_event_text done_event_simps)
  moreover have "length (rawEvent p @ doneMarker) \<le> 65536"
    using assms(7) by (simp add: rawEvent_def doneMarker_def)
  ultimately show ?thesis
    using outcome_events [of ?evs] by metis
qed

text \<open>Chunks as the mock writes them by hand.\<close>

definition obj :: "(string \<times> json) list \<Rightarrow> json" where
  "obj ms = JObj (map (\<lambda>(k, v). json_member k v) ms)"

definition one_choice :: "(string \<times> json) list \<Rightarrow> json \<Rightarrow> json" where
  "one_choice delta fin = obj [(''choices'', JArr [obj [(''delta'', obj delta), (''finish_reason'', fin)]])]"

lemma ascii_texts [simp]: "list_all (byte_in 0 0x7F) t \<Longrightarrow> valid_utf8 t"
  by (rule valid_utf8_ascii)

lemma unmarshal_print:
  assumes "json_wf True max_nesting (JObj ms)"
  shows "unmarshal_chunk (json_print True (JObj ms)) =
     map_option (\<lambda>(err, backing, n). \<lparr>sc_error = err, sc_choices = take n backing\<rparr>)
       (fold_opt chunk_member ([], [], 0) ms)"
  unfolding unmarshal_chunk_def parse_json_print [OF assms] by simp

lemmas chunk_eval = take_chunk_def take_choice_def note_finish_def Let_def obj_def one_choice_def unmarshal_print
  json_member_def names_field_def has_prefix_def ascii_upper_def chunk_member_def unmarshal_slice_def
  unmarshal_choice_def choice_member_def unmarshal_delta_def delta_member_def zero_choice_def zero_delta_def
  classify_nothing max_nesting_def byte_in_def

lemma tool_calls_chunk:
  "take_chunk wide_opts None (json_print True (one_choice [(''tool_calls'', JArr [obj [(''id'', JStr ''c1''),
      (''function'', obj [(''name'', JStr ''f''), (''arguments'', JStr ''{}'')])]])] JNull)) start_state ()
   = (Some ToolCallsRequested, start_state\<lparr>ds_saw := True\<rparr>, ())"
  by (simp add: chunk_eval del: json_print.simps) simp

lemma function_call_chunk:
  "take_chunk wide_opts None (json_print True (one_choice [(''function_call'',
      obj [(''name'', JStr ''f''), (''arguments'', JStr ''{}'')])] JNull)) start_state ()
   = (Some FunctionCallRequested, start_state\<lparr>ds_saw := True\<rparr>, ())"
  by (simp add: chunk_eval del: json_print.simps) simp

lemma content_number_chunk:
  "take_chunk wide_opts None (json_print True (one_choice [(''content'', JNum ''42'')] JNull)) start_state ()
   = (Some ContentNotString, start_state\<lparr>ds_saw := True\<rparr>, ())"
proof -
  have "parse_json (json_print True (JNum ''42'')) = Some (JNum ''42'')"
    by (rule parse_json_print) (simp add: plain_number_def is_digit_def)
  then have "deltaText (json_print True (JNum ''42'')) = Inl ContentNotString"
    by (simp add: deltaText_def)
  then show ?thesis
    by (simp add: chunk_eval plain_number_def is_digit_def del: json_print.simps)
qed

definition content_choice :: "string \<Rightarrow> json" where
  "content_choice t = obj [(''delta'', obj [(''content'', JStr t)]), (''finish_reason'', JNull)]"

lemma two_choices_chunk:
  "take_chunk wide_opts None (json_print True (obj [(''choices'', JArr [content_choice ''a'', content_choice ''b''])]))
      start_state () = (Some (ManyChoices 2), start_state, ())"
  by (simp add: chunk_eval content_choice_def del: json_print.simps)

lemma error_chunk:
  assumes "json_wf True (max_nesting - 1) j" and "trim_space (json_print True j) = json_print True j"
  shows "take_chunk wide_opts None (json_print True (obj [(''error'', j)])) start_state ()
     = (classifyStreamError (json_print True j) False, start_state, ())"
  using assms
  by (simp add: chunk_eval wide_opts_def del: json_print.simps split: option.split)

lemma error_object_chunk:
  assumes "json_wf True max_nesting (JObj ms)" and "json_print True (JObj ms) = p"
  shows "classifyStreamError p False = Some (ErrorObject (Some p))"
proof -
  have "trim_space p = p" "p \<noteq> []" "hd p = CHR ''{''" "p \<noteq> ''null''"
    using assms(2) by (auto intro!: trim_space_plain simp: plain_braces)
  then show ?thesis
    using parse_json_print [OF assms(1)] assms(2) by (simp add: classifyStreamError_def)
qed

lemma error_null_chunk:
  assumes "valid_utf8 t" and "t \<noteq> []" and "length t \<le> 100"
  shows "take_chunk wide_opts None (json_print True (obj [(''error'', JNull), (''choices'', JArr
      [obj [(''delta'', obj [(''content'', JStr t)]), (''finish_reason'', JStr ''stop'')]])])) start_state ()
   = (None, \<lparr>ds_text = t, ds_finish = ''stop'', ds_saw = True\<rparr>, ())"
proof -
  have "classifyStreamError (json_print True JNull) omit = None" for omit
    by (simp add: classifyStreamError_def trim_space_plain plain_byte_def Let_def)
  moreover have "deltaText (json_print True (JStr t)) = Inr t"
    using deltaText_quote [OF assms(1)] by simp
  ultimately show ?thesis
    using assms
    by (simp add: chunk_eval wide_opts_def start_state_def call_delta_def del: json_print.simps)
qed

section \<open>Sequences of chunks\<close>

fun after_chunks :: "decode_state \<Rightarrow> (string \<times> string) list \<Rightarrow> decode_state" where
  "after_chunks ds [] = ds"
| "after_chunks ds ((content, finish) # cs) =
     after_chunks \<lparr>ds_text = ds_text ds @ content, ds_finish = (if finish = [] then ds_finish ds else finish),
       ds_saw = True\<rparr> cs"

definition chunk_events :: "(string \<times> string) list \<Rightarrow> framed_event list" where
  "chunk_events cs = map (\<lambda>(content, finish). chunk_event content finish) cs"

definition chunk_texts :: "(string \<times> string) list \<Rightarrow> string" where
  "chunk_texts cs = concat (map (\<lambda>(content, finish). chunk content finish) cs)"

definition small_chunks :: "(string \<times> string) list \<Rightarrow> bool" where
  "small_chunks cs \<longleftrightarrow> list_all (\<lambda>(content, finish). valid_utf8 content \<and> valid_utf8 finish) cs
     \<and> sum_list (map (\<lambda>(content, finish). length content + length finish) cs) \<le> 100 \<and> length cs \<le> 100"

lemma take_any_chunk:
  assumes "valid_utf8 content" and "valid_utf8 finish" and "length (ds_text ds) + length content \<le> 100"
  shows "take_chunk wide_opts None (json_print True (chunk_json content finish)) ds () =
     (None, \<lparr>ds_text = ds_text ds @ content, ds_finish = (if finish = [] then ds_finish ds else finish), ds_saw = True\<rparr>, ())"
proof (cases "content = []")
  case True
  with assms(2) show ?thesis by (simp add: take_finish_chunk del: json_print.simps)
next
  case False
  with assms show ?thesis
    by (subst take_content_chunk) (simp_all add: wide_opts_def call_delta_def)
qed

lemma run_chunks:
  assumes "list_all (\<lambda>(content, finish). valid_utf8 content \<and> valid_utf8 finish) cs"
    and "length (ds_text ds) + sum_list (map (\<lambda>(content, finish). length content + length finish) cs) \<le> 100"
  shows "run_events wide_opts None (chunk_events cs @ evs) ds () = run_events wide_opts None evs (after_chunks ds cs) ()"
  using assms
proof (induction cs arbitrary: ds)
  case (Cons c cs)
  obtain content finish where c: "c = (content, finish)" by fastforce
  have step: "take_chunk wide_opts None (json_print True (chunk_json content finish)) ds () =
     (None, \<lparr>ds_text = ds_text ds @ content, ds_finish = (if finish = [] then ds_finish ds else finish), ds_saw = True\<rparr>, ())"
    using Cons.prems by (intro take_any_chunk) (simp_all add: c)
  show ?case
    using Cons.IH [of "\<lparr>ds_text = ds_text ds @ content, ds_finish = (if finish = [] then ds_finish ds else finish),
        ds_saw = True\<rparr>"] Cons.prems
    by (simp add: c chunk_events_def chunk_event_simps(1) chunk_payload_ends(1) chunk_not_done step del: json_print.simps)
qed (simp add: chunk_events_def)

lemma escape_lengths: "length (escape_ascii html c) \<le> 6" "length (u_escape n) = 6"
  by (simp_all add: escape_ascii_def u_escape_def)

lemma quote_body_length: "length (quote_body html s) \<le> 6 * length s"
proof (induction html s rule: quote_body.induct)
  case (2 html c cs)
  let ?k = "rune_len (c # cs)"
  have k: "?k \<le> length (c # cs)" by (rule rune_len_le)
  show ?case
  proof (cases "byte_in 0 0x7F c \<or> ?k = 0")
    case True
    with 2(1,2) escape_lengths(1) [of html c] show ?thesis
      by (auto simp: quote_body.simps(2))
  next
    case False
    have "length (drop 2 cs) \<le> length cs" by simp
    then have sep: "length (quote_body html (drop 2 cs)) \<le> 6 * length cs"
      if "length (quote_body html (drop 2 cs)) \<le> 6 * length (drop 2 cs)"
      using that by linarith
    have rest: "length (take ?k (c # cs)) + 6 * length (drop ?k (c # cs)) \<le> 6 * length (c # cs)"
      using k by simp
    show ?thesis
      using 2(3-5) False sep rest unfolding quote_body.simps(2) [of html c cs]
      by (simp add: escape_lengths(2)) linarith
  qed
qed simp

lemma json_quote_length: "length (json_quote html s) \<le> 6 * length s + 2"
  using quote_body_length [of html s] by (simp add: json_quote_def)

lemma chunk_length: "length (chunk content finish) \<le> 300 + 6 * (length content + length finish)"
proof -
  have "length (json_quote True content) \<le> 6 * length content + 2" "length (json_quote True finish) \<le> 6 * length finish + 2"
    "length (json_quote True ''choices'') \<le> 44" "length (json_quote True ''delta'') \<le> 32"
    "length (json_quote True ''content'') \<le> 44" "length (json_quote True ''finish_reason'') \<le> 80"
    using json_quote_length [of True content] json_quote_length [of True finish]
      json_quote_length [of True "''choices''"] json_quote_length [of True "''delta''"]
      json_quote_length [of True "''content''"] json_quote_length [of True "''finish_reason''"]
    by simp_all
  then show ?thesis
    by (auto simp: chunk_def rawEvent_def chunk_json_def json_member_def)
qed

lemma chunk_events_text: "concat (map event_text (chunk_events cs)) = chunk_texts cs"
  by (induction cs) (auto simp: chunk_events_def chunk_texts_def chunk_event_simps(2))

lemma chunk_texts_length:
  "length (chunk_texts cs)
     \<le> 300 * length cs + 6 * sum_list (map (\<lambda>(content, finish). length content + length finish) cs)"
proof (induction cs)
  case (Cons c cs)
  then show ?case
    using chunk_length [of "fst c" "snd c"] by (cases c) (simp add: chunk_texts_def)
qed (simp add: chunk_texts_def)

lemma concat_map_le: "x \<in> set xs \<Longrightarrow> length (f x) \<le> length (concat (map f xs))"
  by (induction xs) auto

lemma small_chunks_ok:
  assumes "small_chunks cs"
  shows "list_all (event_ok wide_opts) (chunk_events cs)" and "length (chunk_texts cs) \<le> 30600"
proof -
  show len: "length (chunk_texts cs) \<le> 30600"
    using chunk_texts_length [of cs] assms by (simp add: small_chunks_def)
  have "event_ok wide_opts (chunk_event (fst c) (snd c))" if "c \<in> set cs" for c
  proof (rule chunk_event_simps(3))
    have "length (chunk (fst c) (snd c)) \<le> length (chunk_texts cs)"
      unfolding chunk_texts_def using that
      by (metis (mono_tags, lifting) case_prod_unfold concat_map_le)
    with len show "int (length (chunk (fst c) (snd c))) \<le> do_max_event wide_opts"
      by (simp add: wide_opts_def)
  qed
  then show "list_all (event_ok wide_opts) (chunk_events cs)"
    by (auto simp: chunk_events_def list_all_iff)
qed

text \<open>Chunks, then the end: of the stream with \<open>[DONE]\<close>, or of the connection without.\<close>

lemma chunks_outcome:
  assumes "small_chunks cs"
  shows "bytes_outcome (chunk_texts cs @ doneMarker) = finish_stream (after_chunks start_state cs)"
    and "bytes_outcome (chunk_texts cs) = (Some StreamEndedEarly, ds_text (after_chunks start_state cs), [])"
proof -
  have run: "run_events wide_opts None (chunk_events cs @ evs) start_state ()
      = run_events wide_opts None evs (after_chunks start_state cs) ()" for evs
    using assms by (intro run_chunks) (simp_all add: small_chunks_def start_state_def)
  show "bytes_outcome (chunk_texts cs @ doneMarker) = finish_stream (after_chunks start_state cs)"
    using outcome_events [of "chunk_events cs @ [done_event]"] run [of "[done_event]"] small_chunks_ok [OF assms]
    by (simp add: chunk_events_text done_event_simps wide_opts_def doneMarker_def)
  show "bytes_outcome (chunk_texts cs) = (Some StreamEndedEarly, ds_text (after_chunks start_state cs), [])"
    using outcome_events [of "chunk_events cs"] run [of "[]"] small_chunks_ok [OF assms]
    by (simp add: chunk_events_text)
qed

section \<open>Wires with other framing\<close>

lemma role_chunk:
  "take_chunk wide_opts None (json_print True (one_choice [(''role'', JStr ''assistant'')] JNull)) ds ()
     = (None, ds\<lparr>ds_saw := True\<rparr>, ())"
  "take_chunk wide_opts None (json_print True (one_choice [] JNull)) ds () = (None, ds\<lparr>ds_saw := True\<rparr>, ())"
  by (simp_all add: chunk_eval deltaText_def del: json_print.simps)

text \<open>An event with CR LF line ends.\<close>

definition crlf_event :: "string \<Rightarrow> framed_event" where
  "crlf_event p = ([(''data: '' @ p, [CR, LF])], [CR, LF])"

lemma crlf_event_data: "event_data (crlf_event p) = event_data (payload_event p)"
  by (simp add: event_data_def crlf_event_def payload_event_def)

lemma crlf_event_ok:
  assumes "list_all visible p" and "int (length p) + 10 \<le> do_max_event opt"
  shows "event_ok opt (crlf_event p)"
  using assms visible_no_eol [OF assms(1)]
  by (simp add: event_ok_def crlf_event_def framed_def frame_line_def line_end_def frame_text_def)
    (simp add: eol_byte_def LF_def CR_def)

definition comment_event :: "string \<Rightarrow> framed_event" where
  "comment_event p = ([('': keep-alive comment'', [CR, LF]), (''event: message'', [CR, LF]), (''id: 1'', [CR, LF]),
     (''retry: 100'', [CR, LF]), (''data: '' @ p, [LF])], [LF])"

lemma comment_event_data: "event_data (comment_event p) = event_data (payload_event p)"
  by (simp add: event_data_def comment_event_def payload_event_def splitSSEField_def has_prefix_def)

lemma comment_event_ok:
  assumes "list_all visible p" and "int (length p) + 200 \<le> do_max_event opt"
  shows "event_ok opt (comment_event p)"
  using assms visible_no_eol [OF assms(1)]
  by (simp add: event_ok_def comment_event_def framed_def frame_line_def line_end_def frame_text_def)
    (simp add: eol_byte_def LF_def CR_def)

text \<open>A list of events with their data and what they leave, then the verdict.\<close>

lemma outcome_run:
  assumes "bs = concat (map event_text evs)" and "list_all (event_ok wide_opts) evs" and "length bs \<le> 65536"
    and "run_events wide_opts None evs start_state () = (e, ds, u)"
  shows "bytes_outcome bs = (case e of Some x \<Rightarrow> (Some x, ds_text ds, []) | None \<Rightarrow> finish_stream ds)"
  using outcome_events [OF assms(2) _ assms(4)] assms(1,3) by simp

lemma crlf_line_loop:
  assumes "list_all (\<lambda>c. c \<noteq> LF \<and> c \<noteq> CR) t" and "out = [] \<or> last out \<noteq> CR"
  shows "crlf_loop out (t @ LF # rest) = crlf_loop (out @ t @ [CR, LF]) rest"
  using assms
proof (induction t arbitrary: out)
  case (Cons c t)
  then show ?case by (cases out) simp_all
qed auto

lemma crlf_print:
  assumes "list_all visible p"
  shows "crlf (''data: '' @ p @ [LF, LF] @ ''data: [DONE]'' @ [LF, LF])
     = ''data: '' @ p @ [CR, LF, CR, LF] @ ''data: [DONE]'' @ [CR, LF, CR, LF]"
proof -
  let ?t = "''data: '' @ p" and ?d = "''data: [DONE]''"
  have "list_all (\<lambda>c. c \<noteq> LF \<and> c \<noteq> CR) p"
    using assms by (auto simp: list_all_iff visible_def LF_def CR_def)
  then have t: "list_all (\<lambda>c. c \<noteq> LF \<and> c \<noteq> CR) ?t" "list_all (\<lambda>c. c \<noteq> LF \<and> c \<noteq> CR) ?d"
    by (simp_all add: LF_def CR_def)
  have cl: "LF \<noteq> CR" by (simp add: LF_def CR_def)
  have "crlf_loop [] (?t @ LF # LF # ?d @ LF # LF # []) = crlf_loop (?t @ [CR, LF]) ([] @ LF # ?d @ LF # LF # [])"
    using crlf_line_loop [OF t(1), of "[]"] by (simp del: crlf_loop.simps)
  also have "\<dots> = crlf_loop (?t @ [CR, LF, CR, LF]) (?d @ LF # LF # [])"
    using cl by (subst crlf_line_loop) (simp_all del: crlf_loop.simps)
  also have "\<dots> = crlf_loop (?t @ [CR, LF, CR, LF] @ ?d @ [CR, LF]) ([] @ LF # [])"
    using cl t(2) by (subst crlf_line_loop) (simp_all del: crlf_loop.simps)
  also have "\<dots> = ?t @ [CR, LF, CR, LF] @ ?d @ [CR, LF, CR, LF]"
    using cl by (subst crlf_line_loop) (simp_all del: crlf_loop.simps(2))
  finally show ?thesis by (simp add: crlf_def)
qed

lemma crlf_outcome:
  assumes "valid_utf8 content" and "valid_utf8 finish" and "length content + length finish \<le> 100"
  shows "bytes_outcome (crlf (chunk content finish @ doneMarker))
     = finish_stream (after_chunks start_state [(content, finish)])"
proof -
  let ?p = "json_print True (chunk_json content finish)"
  let ?evs = "[crlf_event ?p, crlf_event ''[DONE]'']"
  have len: "length ?p + 8 \<le> 1000"
    using chunk_length [of content finish] assms(3) by (simp add: chunk_def rawEvent_def del: json_print.simps)
  have "crlf (chunk content finish @ doneMarker) = concat (map event_text ?evs)"
    using crlf_print [OF chunk_visible, of content finish]
    by (simp add: chunk_def rawEvent_def doneMarker_def event_text_def crlf_event_def frame_text_def del: json_print.simps)
  moreover have "list_all (event_ok wide_opts) ?evs"
    using len by (simp add: crlf_event_ok chunk_visible wide_opts_def visible_def del: json_print.simps)
  moreover have "length (concat (map event_text ?evs)) \<le> 65536"
    using len by (simp add: event_text_def crlf_event_def frame_text_def del: json_print.simps)
  moreover have "run_events wide_opts None ?evs start_state () = (None, after_chunks start_state [(content, finish)], ())"
    using assms done_event_simps(1)
    by (simp add: crlf_event_data chunk_event_data chunk_not_done chunk_payload_ends(1) take_any_chunk start_state_def
        done_event_def del: json_print.simps)
  ultimately show ?thesis
    using outcome_run by (metis (no_types, lifting) option.case(1))
qed

section \<open>The scenarios one by one\<close>

lemma part_wires [simp]:
  "WireBytes (delivered_segments (FragmentText t)) = t" "WireBytes (delivered_segments (FragmentAt t)) = t"
  "WireBytes (delivered_segments (concat_parts ps)) = concat (map part_bytes ps)"
  by (simp_all add: FragmentText_def FragmentAt_def concat_parts_def plain_segment_def WireBytes_def)

lemma delivered_plain: "WireBytes (delivered_segments (map plain_segment bs)) = concat bs"
  by (induction bs) (simp_all add: plain_segment_def WireBytes_def)

lemma Fragment_delivered:
  assumes "inside_offsets (length data) offs"
  shows "WireBytes (delivered_segments (Fragment data offs)) = data"
proof -
  obtain spans where spans: "fragment_spans (length data) 0 offs = Some spans"
    using assms fragment_spans_valid [of "length data" 0 offs] by (auto simp: inside_offsets_def)
  have "Fragment data offs = map plain_segment (map (\<lambda>(i, j). slice data i j) spans)"
    by (simp add: Fragment_def spans comp_def case_prod_unfold)
  then show ?thesis
    using fragment_spans_bytes [OF spans] by (simp only: delivered_plain) simp
qed

lemma every_n_delivered:
  assumes "0 < n"
  shows "WireBytes (delivered_segments (FragmentEveryN data n)) = data"
proof -
  have "delivered_segments (every_n k d) = every_n k d" if "0 < k" for k d
    using that by (induction k d rule: every_n.induct) (subst (1 2) every_n.simps, auto simp: plain_segment_def)
  then show ?thesis
    using every_n_bytes [of "nat n" data] assms by (simp add: FragmentEveryN_def)
qed

lemma role_outcome:
  "bytes_outcome (rawEvent ''{\"choices\":[{\"delta\":{\"role\":\"assistant\"},\"finish_reason\":null}]}''
     @ rawEvent ''{\"choices\":[{\"delta\":{},\"finish_reason\":null}]}'' @ chunk ''ok'' ''stop'' @ doneMarker)
   = (None, ''ok'', ''stop'')"
proof -
  let ?p = "json_print True (one_choice [(''role'', JStr ''assistant'')] JNull)"
  let ?q = "json_print True (one_choice [] JNull)"
  have p: "?p = ''{\"choices\":[{\"delta\":{\"role\":\"assistant\"},\"finish_reason\":null}]}''" by code_simp
  have q: "?q = ''{\"choices\":[{\"delta\":{},\"finish_reason\":null}]}''" by code_simp
  let ?evs = "[payload_event ?p, payload_event ?q, chunk_event ''ok'' ''stop'', done_event]"
  have vis: "list_all visible ?p" "list_all visible ?q"
    unfolding p q by (simp_all add: visible_def)
  have data: "event_data (payload_event ?p) = ?p" "event_data (payload_event ?q) = ?q"
    unfolding p q by (rule payload_event_data; simp add: plain_braces)+
  have ne: "?p \<noteq> []" "?q \<noteq> []" "?p \<noteq> ''[DONE]''" "?q \<noteq> ''[DONE]''"
    unfolding p q by simp_all
  have len: "length (chunk ''ok'' ''stop'') \<le> 400" "length ?p \<le> 100" "length ?q \<le> 100"
    using chunk_length [of "''ok''" "''stop''"] unfolding p q by simp_all
  have run: "run_events wide_opts None ?evs start_state () = (None, \<lparr>ds_text = ''ok'', ds_finish = ''stop'', ds_saw = True\<rparr>, ())"
    using ne done_event_simps(1)
    by (simp add: data role_chunk chunk_event_simps(1) chunk_not_done chunk_payload_ends(1) take_any_chunk start_state_def
        byte_in_def del: json_print.simps)
  have "list_all (event_ok wide_opts) ?evs"
    using vis len by (simp add: payload_event_ok rawEvent_def chunk_event_simps(3) done_event_simps(3) wide_opts_def
        del: json_print.simps)
  moreover have bytes: "concat (map event_text ?evs) = rawEvent ?p @ rawEvent ?q @ chunk ''ok'' ''stop'' @ doneMarker"
    by (simp add: payload_event_text chunk_event_simps(2) done_event_simps(2) del: json_print.simps)
  moreover have "length (rawEvent ?p @ rawEvent ?q @ chunk ''ok'' ''stop'' @ doneMarker) \<le> 65536"
    using len by (simp add: rawEvent_def doneMarker_def del: json_print.simps)
  ultimately have "bytes_outcome (rawEvent ?p @ rawEvent ?q @ chunk ''ok'' ''stop'' @ doneMarker) = (None, ''ok'', ''stop'')"
    using outcome_run [OF bytes [symmetric] _ _ run] by (simp add: finish_stream_def)
  then show ?thesis unfolding p q .
qed

lemma comment_outcome:
  "bytes_outcome ('': keep-alive comment'' @ [CR, LF] @ ''event: message'' @ [CR, LF] @ ''id: 1'' @ [CR, LF]
     @ ''retry: 100'' @ [CR, LF] @ chunk ''commented'' [] @ [LF] @ chunk [] ''stop'' @ doneMarker)
   = (None, ''commented'', ''stop'')"
proof -
  let ?p = "json_print True (chunk_json ''commented'' [])"
  let ?evs = "[comment_event ?p, ([], [LF]), chunk_event [] ''stop'', done_event]"
  let ?bs = "'': keep-alive comment'' @ [CR, LF] @ ''event: message'' @ [CR, LF] @ ''id: 1'' @ [CR, LF]
     @ ''retry: 100'' @ [CR, LF] @ chunk ''commented'' [] @ [LF] @ chunk [] ''stop'' @ doneMarker"
  have len: "length (chunk [] ''stop'') \<le> 400" "length ?p \<le> 400"
    using chunk_length [of "[]" "''stop''"] chunk_length [of "''commented''" "[]"]
    by (simp_all add: chunk_def rawEvent_def del: json_print.simps)
  have blank: "event_data ([], [LF]) = []" "event_ok wide_opts ([], [LF])" "event_text ([], [LF]) = [LF]"
    by (simp_all add: event_data_def event_ok_def event_text_def framed_def line_end_def frame_text_def wide_opts_def
        trim_space_Nil)
  have run: "run_events wide_opts None ?evs start_state ()
      = (None, \<lparr>ds_text = ''commented'', ds_finish = ''stop'', ds_saw = True\<rparr>, ())"
    using done_event_simps(1)
    by (simp add: blank comment_event_data chunk_event_data chunk_event_simps(1) chunk_not_done chunk_payload_ends(1)
        take_any_chunk start_state_def byte_in_def del: json_print.simps)
  have ok: "list_all (event_ok wide_opts) ?evs"
    using len blank by (simp add: comment_event_ok chunk_visible chunk_event_simps(3) done_event_simps(3) wide_opts_def
        del: json_print.simps)
  have bytes: "?bs = concat (map event_text ?evs)"
    by (simp add: blank chunk_event_simps(2) done_event_simps(2) del: json_print.simps)
      (simp add: event_text_def comment_event_def frame_text_def chunk_def rawEvent_def del: json_print.simps)
  have "length ?bs \<le> 65536"
    using len by (simp add: doneMarker_def) (simp add: chunk_def rawEvent_def del: json_print.simps)
  from outcome_run [OF bytes ok this run] show ?thesis by (simp add: finish_stream_def)
qed

text \<open>A stream cut inside an event.\<close>

definition torn :: string where
  "torn = ''data: {\"choices\":[{\"delta\"''"

lemma torn_event:
  "readSSEEvent \<lparr>rd_rest = torn, rd_stop = EOF, rd_last = l\<rparr> 65536
     = (Inl EndedEarly, 26, \<lparr>rd_rest = [], rd_stop = EOF, rd_last = Some (CHR 0x22)\<rparr>)"
  by code_simp

lemma torn_outcome:
  assumes "valid_utf8 content" and "length content \<le> 100"
  shows "bytes_outcome (chunk content [] @ torn) = (Some (SseFailed EndedEarly), content, [])"
proof -
  let ?p = "json_print True (chunk_json content [])"
  let ?les = "[(''data: '' @ ?p, [LF])]"
  let ?br = "new_reader (chunk content [] @ torn) EOF"
  have len: "length (chunk content []) \<le> 1000"
    using chunk_length [of content "[]"] assms(2) by simp
  have frame: "framed ?les" "frame_text ?les @ [LF] = chunk content []" "line_end [LF]"
    using chunk_event_simps(3) [of content "[]" wide_opts] len
    by (simp_all add: event_ok_def chunk_event_def payload_event_def wide_opts_def frame_text_def chunk_def rawEvent_def
        line_end_def del: json_print.simps)
  then have size: "length (frame_text ?les) + length [LF] = length (chunk content [])"
    by (metis length_append)
  obtain br1 where rd: "readSSEEvent ?br 65536
      = (Inr (Some \<lparr>ev_data = join (data_values (map fst ?les)) [LF]\<rparr>), length (chunk content []), br1)"
    and rest: "rd_rest br1 = torn" "rd_stop br1 = EOF"
    using readSSEEvent_framed [OF frame(1,3), of ?br torn 65536] len frame(2) size
    by (auto simp: new_reader_def simp flip: append_assoc simp del: json_print.simps)
  have data: "trim_space (join (data_values (map fst ?les)) [LF]) = ?p"
    using chunk_event_data [of content "[]"] by (simp add: event_data_def payload_event_def del: json_print.simps)
  obtain l where "br1 = \<lparr>rd_rest = torn, rd_stop = EOF, rd_last = l\<rparr>"
    using rest by (cases br1) simp
  then have loop: "decode_loop wide_opts None quiet (Suc 0) (length (chunk content [])) ds () br1
      = (Some (SseFailed EndedEarly), ds, (), \<lparr>rd_rest = [], rd_stop = EOF, rd_last = Some (CHR 0x22)\<rparr>)" for ds
    using len by (subst decode_loop.simps) (simp add: quiet_def poll_error_def wide_opts_def torn_event read_failure_def)
  have chunk: "take_chunk wide_opts None ?p start_state () = (None, \<lparr>ds_text = content, ds_finish = [], ds_saw = True\<rparr>, ())"
    using take_any_chunk [OF assms(1), of "[]" start_state] assms(2) by (simp add: start_state_def byte_in_def del: json_print.simps)
  have "decode_loop wide_opts None quiet 0 0 start_state () ?br
      = (Some (SseFailed EndedEarly), \<lparr>ds_text = content, ds_finish = [], ds_saw = True\<rparr>, (),
         \<lparr>rd_rest = [], rd_stop = EOF, rd_last = Some (CHR 0x22)\<rparr>)"
    using len loop rd data chunk chunk_payload_ends(1) chunk_not_done
    by (subst decode_loop.simps) (simp add: quiet_def [of 0] poll_error_def wide_opts_def Let_def del: json_print.simps)
  then show ?thesis
    by (simp add: bytes_outcome_def decodeStream_def)
qed

lemma not_json_outcome: "bytes_outcome (rawEvent ''{not json'' @ doneMarker) = (Some MalformedJson, [], [])"
proof -
  have "parse_json ''{not json'' = None"
    by (simp add: parse_json_def numeral_eq_Suc max_nesting_def has_prefix_def skip_ws_def)
  then have "take_chunk wide_opts None ''{not json'' start_state () = (Some MalformedJson, start_state, ())"
    by (simp add: take_chunk_def unmarshal_chunk_def)
  from raw_outcome [OF this] show ?thesis
    by (simp add: visible_def plain_byte_def start_state_def)
qed

lemma tool_calls_outcome:
  "bytes_outcome (rawEvent ''{\"choices\":[{\"delta\":{\"tool_calls\":[{\"id\":\"c1\",\"function\":{\"name\":\"f\",\"arguments\":\"{}\"}}]},\"finish_reason\":null}]}'' @ doneMarker) = (Some ToolCallsRequested, [], [])"
proof -
  have "json_print True (one_choice [(''tool_calls'', JArr [obj [(''id'', JStr ''c1''),
      (''function'', obj [(''name'', JStr ''f''), (''arguments'', JStr ''{}'')])]])] JNull) = ''{\"choices\":[{\"delta\":{\"tool_calls\":[{\"id\":\"c1\",\"function\":{\"name\":\"f\",\"arguments\":\"{}\"}}]},\"finish_reason\":null}]}''"
    by code_simp
  from raw_outcome [OF tool_calls_chunk [unfolded this]] show ?thesis
    by (simp add: visible_def plain_byte_def start_state_def finish_stream_def)
qed

lemma function_call_outcome:
  "bytes_outcome (rawEvent ''{\"choices\":[{\"delta\":{\"function_call\":{\"name\":\"f\",\"arguments\":\"{}\"}},\"finish_reason\":null}]}'' @ doneMarker) = (Some FunctionCallRequested, [], [])"
proof -
  have "json_print True (one_choice [(''function_call'',
      obj [(''name'', JStr ''f''), (''arguments'', JStr ''{}'')])] JNull) = ''{\"choices\":[{\"delta\":{\"function_call\":{\"name\":\"f\",\"arguments\":\"{}\"}},\"finish_reason\":null}]}''"
    by code_simp
  from raw_outcome [OF function_call_chunk [unfolded this]] show ?thesis
    by (simp add: visible_def plain_byte_def start_state_def finish_stream_def)
qed

lemma content_number_outcome:
  "bytes_outcome (rawEvent ''{\"choices\":[{\"delta\":{\"content\":42},\"finish_reason\":null}]}'' @ doneMarker) = (Some ContentNotString, [], [])"
proof -
  have "json_print True (one_choice [(''content'', JNum ''42'')] JNull) = ''{\"choices\":[{\"delta\":{\"content\":42},\"finish_reason\":null}]}''"
    by code_simp
  from raw_outcome [OF content_number_chunk [unfolded this]] show ?thesis
    by (simp add: visible_def plain_byte_def start_state_def finish_stream_def)
qed

lemma two_choices_outcome:
  "bytes_outcome (rawEvent ''{\"choices\":[{\"delta\":{\"content\":\"a\"},\"finish_reason\":null},{\"delta\":{\"content\":\"b\"},\"finish_reason\":null}]}'' @ doneMarker) = (Some (ManyChoices 2), [], [])"
proof -
  have "json_print True (obj [(''choices'', JArr [content_choice ''a'', content_choice ''b''])]) = ''{\"choices\":[{\"delta\":{\"content\":\"a\"},\"finish_reason\":null},{\"delta\":{\"content\":\"b\"},\"finish_reason\":null}]}''"
    by code_simp
  from raw_outcome [OF two_choices_chunk [unfolded this]] show ?thesis
    by (simp add: visible_def plain_byte_def start_state_def finish_stream_def)
qed

definition error_members :: "(string \<times> json) list" where
  "error_members = [(''message'', JStr ''model unavailable''), (''type'', JStr ''server_error'')]"

lemma error_object_outcome:
  "bytes_outcome (rawEvent ''{\"error\":{\"message\":\"model unavailable\",\"type\":\"server_error\"}}'' @ doneMarker)
     = (Some (ErrorObject (Some ''{\"message\":\"model unavailable\",\"type\":\"server_error\"}'')), [], [])"
proof -
  let ?j = "obj error_members"
  have p: "json_print True ?j = ''{\"message\":\"model unavailable\",\"type\":\"server_error\"}''"
    "json_print True (obj [(''error'', ?j)]) = ''{\"error\":{\"message\":\"model unavailable\",\"type\":\"server_error\"}}''" by code_simp+
  have wf: "json_wf True d ?j" if "0 < d" for d
    using that by (simp add: obj_def error_members_def json_member_def byte_in_def)
  have "classifyStreamError (json_print True ?j) False = Some (ErrorObject (Some (json_print True ?j)))"
    using wf [of max_nesting] unfolding obj_def by (intro error_object_chunk) (simp_all add: max_nesting_def del: json_print.simps)
  moreover have "trim_space (json_print True ?j) = json_print True ?j"
    unfolding p by (rule trim_space_plain) (simp_all add: plain_byte_def)
  ultimately have "take_chunk wide_opts None (json_print True (obj [(''error'', ?j)])) start_state ()
      = (Some (ErrorObject (Some (json_print True ?j))), start_state, ())"
    using error_chunk [of ?j] wf by (simp add: max_nesting_def del: json_print.simps)
  from raw_outcome [OF this [unfolded p]] show ?thesis
    by (simp add: visible_def plain_byte_def start_state_def)
qed

lemma error_array_outcome:
  "bytes_outcome (rawEvent ''{\"error\":[\"boom\"]}'' @ doneMarker)
     = (Some (MalformedErrorPayload (Some ''[\"boom\"]'')), [], [])"
proof -
  let ?j = "JArr [JStr ''boom'']"
  have p: "json_print True ?j = ''[\"boom\"]''" "json_print True (obj [(''error'', ?j)]) = ''{\"error\":[\"boom\"]}''" by code_simp+
  have trim: "trim_space ''[\"boom\"]'' = ''[\"boom\"]''"
    by (rule trim_space_plain) (simp_all add: plain_byte_def)
  then have "classifyStreamError (json_print True ?j) False = Some (MalformedErrorPayload (Some ''[\"boom\"]''))"
    unfolding p by (simp add: classifyStreamError_def)
  with trim have "take_chunk wide_opts None (json_print True (obj [(''error'', ?j)])) start_state ()
      = (Some (MalformedErrorPayload (Some ''[\"boom\"]'')), start_state, ())"
    using error_chunk [of ?j] unfolding p by (simp add: max_nesting_def byte_in_def)
  from raw_outcome [OF this [unfolded p]] show ?thesis
    by (simp add: visible_def plain_byte_def start_state_def)
qed

lemma error_null_outcome:
  "bytes_outcome (rawEvent ''{\"error\":null,\"choices\":[{\"delta\":{\"content\":\"fine\"},\"finish_reason\":\"stop\"}]}'' @ doneMarker)
     = (None, ''fine'', ''stop'')"
proof -
  have p: "json_print True (obj [(''error'', JNull), (''choices'', JArr
      [obj [(''delta'', obj [(''content'', JStr ''fine'')]), (''finish_reason'', JStr ''stop'')]])])
      = ''{\"error\":null,\"choices\":[{\"delta\":{\"content\":\"fine\"},\"finish_reason\":\"stop\"}]}''" by code_simp
  have "valid_utf8 ''fine''" by (simp add: byte_in_def)
  from raw_outcome [OF error_null_chunk [OF this, unfolded p]] show ?thesis
    by (simp add: visible_def plain_byte_def finish_stream_def)
qed

lemma few_chunks:
  "small_chunks [(a, f)] \<Longrightarrow> bytes_outcome (chunk a f @ doneMarker) = finish_stream (after_chunks start_state [(a, f)])"
  "small_chunks [(a, f), (b, g)] \<Longrightarrow> bytes_outcome (chunk a f @ chunk b g @ doneMarker)
     = finish_stream (after_chunks start_state [(a, f), (b, g)])"
  "small_chunks [(a, f), (b, g), (c, h)] \<Longrightarrow> bytes_outcome (chunk a f @ chunk b g @ chunk c h @ doneMarker)
     = finish_stream (after_chunks start_state [(a, f), (b, g), (c, h)])"
  "small_chunks [(a, f)] \<Longrightarrow> bytes_outcome (chunk a f) = (Some StreamEndedEarly, ds_text (after_chunks start_state [(a, f)]), [])"
  using chunks_outcome(1) [of "[(a, f)]"] chunks_outcome(1) [of "[(a, f), (b, g)]"]
    chunks_outcome(1) [of "[(a, f), (b, g), (c, h)]"] chunks_outcome(2) [of "[(a, f)]"]
  by (simp_all add: chunk_texts_def)

lemma multibyte_texts:
  "valid_utf8 [CHR ''h'', CHR 0xC3, CHR 0xA9, CHR ''l'', CHR ''l'', CHR ''o'']"
  "valid_utf8 [CHR 0xF0, CHR 0x9F, CHR 0x8C, CHR 0x8D]"
  "valid_utf8 [CHR 0xE6, CHR 0x97, CHR 0xA5, CHR 0xE6, CHR 0x9C, CHR 0xAC, CHR 0xE8, CHR 0xAA, CHR 0x9E]"
  by code_simp+

lemmas chunk_results = few_chunks small_chunks_def multibyte_texts byte_in_def finish_stream_def start_state_def

lemma stream_outcomes:
  "map (\<lambda>s. (sc_Name s, wire_outcome s)) stream_scenarios =
     [(''stream-success-basic'', None, ''hello'', ''stop''),
      (''stream-success-multibyte'', None, ''h'' @ [CHR 0xC3, CHR 0xA9] @ ''llo'' @ [CHR 0xF0, CHR 0x9F, CHR 0x8C, CHR 0x8D]
         @ [CHR 0xE6, CHR 0x97, CHR 0xA5, CHR 0xE6, CHR 0x9C, CHR 0xAC, CHR 0xE8, CHR 0xAA, CHR 0x9E], ''stop''),
      (''stream-success-length-finish'', None, ''truncated text'', ''length''),
      (''stream-success-role-only'', None, ''ok'', ''stop''),
      (''stream-success-crlf'', None, ''crlf text'', ''stop''),
      (''stream-success-comments'', None, ''commented'', ''stop''),
      (''stream-success-no-content-type'', None, ''untyped'', ''stop''),
      (''stream-success-empty-content'', None, [], ''stop'')]"
  by (simp add: stream_scenarios_def wire_outcome_def successWire_def successWireMulti_def chunk_results role_outcome
      crlf_outcome comment_outcome [simplified])

lemma cut_wires:
  "WireBytes (delivered_segments (Fragment multi_wire [midRuneOffset multi_wire])) = multi_wire"
  "WireBytes (delivered_segments (Fragment crlf_wire [firstCRLFSplit crlf_wire])) = crlf_wire"
  "WireBytes (delivered_segments (Fragment data_wire [firstDataFieldSplit data_wire])) = data_wire"
  "WireBytes (delivered_segments (Fragment done_wire [firstDoneSplit done_wire])) = done_wire"
  by (rule Fragment_delivered, code_simp)+

lemma cut_outcomes:
  "bytes_outcome multi_wire = (None, ''h'' @ [CHR 0xC3, CHR 0xA9] @ ''llo'', ''stop'')"
  "bytes_outcome crlf_wire = (None, ''crlf'', ''stop'')"
  "bytes_outcome data_wire = (None, ''frag'', ''stop'')"
  "bytes_outcome done_wire = (None, ''done'', ''stop'')"
  by (simp_all add: multi_wire_def crlf_wire_def data_wire_def done_wire_def chunk_results crlf_outcome)

lemma framing_outcomes:
  "map (\<lambda>s. (sc_Name s, wire_outcome s)) framing_scenarios =
     [(''fragment-utf8-inside-rune'', None, ''h'' @ [CHR 0xC3, CHR 0xA9] @ ''llo'', ''stop''),
      (''fragment-inside-crlf'', None, ''crlf'', ''stop''),
      (''fragment-inside-data-field'', None, ''frag'', ''stop''),
      (''fragment-inside-done'', None, ''done'', ''stop''),
      (''fragment-byte-by-byte'', None, ''h'' @ [CHR 0xC3, CHR 0xA9] @ ''llo'', ''stop''),
      (''fragment-multiple-events-one-write'', None, ''onetwo'', ''stop'')]"
  by (simp add: framing_scenarios_def wire_outcome_def cut_wires cut_outcomes every_n_delivered chunk_results)

lemma torn_wires:
  "\<not> seg_CloseAfter (plain_segment t)" "WireBytes [plain_segment t, (plain_segment u)\<lparr>seg_CloseAfter := True\<rparr>] = t @ u"
  by (simp_all add: plain_segment_def WireBytes_def)

lemma malformed_outcomes:
  "map (\<lambda>s. (sc_Name s, wire_outcome s)) malformed_scenarios =
     [(''malformed-json-event'', Some MalformedJson, [], []),
      (''malformed-delta-content-not-string'', Some ContentNotString, [], []),
      (''malformed-multiple-choices'', Some (ManyChoices 2), [], []),
      (''malformed-early-termination'', Some StreamEndedEarly, ''partial'', []),
      (''malformed-early-termination-mid-event'', Some (SseFailed EndedEarly), ''partial'', []),
      (''stream-error-object'', Some (ErrorObject (Some ''{\"message\":\"model unavailable\",\"type\":\"server_error\"}'')), [], []),
      (''stream-error-non-object'', Some (MalformedErrorPayload (Some ''[\"boom\"]'')), [], []),
      (''stream-error-null-ignored'', None, ''fine'', ''stop''),
      (''stream-tool-calls-rejected'', Some ToolCallsRequested, [], []),
      (''stream-function-call-rejected'', Some FunctionCallRequested, [], []),
      (''stream-finish-content-filter'', Some ContentFiltered, [], []),
      (''stream-finish-unsupported'', Some (UnsupportedFinish ''weird_reason''), [], [])]"
  by (simp add: malformed_scenarios_def wire_outcome_def torn_wires not_json_outcome content_number_outcome
      two_choices_outcome torn_outcome [unfolded torn_def] error_object_outcome error_array_outcome error_null_outcome
      tool_calls_outcome function_call_outcome chunk_results)


section \<open>The property\<close>

text \<open>C9: every scenario of the catalog's stream, framing and malformed families ends the way it is
  documented when its bytes are decoded (the authentication, context and transport families, whose
  point is not their stream, are not part of this): the success and framing scenarios decode to
  their text and finish reason, wherever the wire is cut, whatever the line ends, comments, role-only
  chunks and blank lines; each malformed scenario ends in the documented refusal (bad JSON, content
  that is no string, several choices, missing \<open>[DONE]\<close>, a torn event, error objects, tool and
  function calls, unsupported finish reasons), with an explicit null error ignored.\<close>

theorem scenarios_end_as_documented:
  "map (\<lambda>s. (sc_Name s, wire_outcome s)) (stream_scenarios @ framing_scenarios @ malformed_scenarios) =
     [(''stream-success-basic'', None, ''hello'', ''stop''),
      (''stream-success-multibyte'', None, ''h'' @ [CHR 0xC3, CHR 0xA9] @ ''llo'' @ [CHR 0xF0, CHR 0x9F, CHR 0x8C, CHR 0x8D]
         @ [CHR 0xE6, CHR 0x97, CHR 0xA5, CHR 0xE6, CHR 0x9C, CHR 0xAC, CHR 0xE8, CHR 0xAA, CHR 0x9E], ''stop''),
      (''stream-success-length-finish'', None, ''truncated text'', ''length''),
      (''stream-success-role-only'', None, ''ok'', ''stop''),
      (''stream-success-crlf'', None, ''crlf text'', ''stop''),
      (''stream-success-comments'', None, ''commented'', ''stop''),
      (''stream-success-no-content-type'', None, ''untyped'', ''stop''),
      (''stream-success-empty-content'', None, [], ''stop''),
      (''fragment-utf8-inside-rune'', None, ''h'' @ [CHR 0xC3, CHR 0xA9] @ ''llo'', ''stop''),
      (''fragment-inside-crlf'', None, ''crlf'', ''stop''),
      (''fragment-inside-data-field'', None, ''frag'', ''stop''),
      (''fragment-inside-done'', None, ''done'', ''stop''),
      (''fragment-byte-by-byte'', None, ''h'' @ [CHR 0xC3, CHR 0xA9] @ ''llo'', ''stop''),
      (''fragment-multiple-events-one-write'', None, ''onetwo'', ''stop''),
      (''malformed-json-event'', Some MalformedJson, [], []),
      (''malformed-delta-content-not-string'', Some ContentNotString, [], []),
      (''malformed-multiple-choices'', Some (ManyChoices 2), [], []),
      (''malformed-early-termination'', Some StreamEndedEarly, ''partial'', []),
      (''malformed-early-termination-mid-event'', Some (SseFailed EndedEarly), ''partial'', []),
      (''stream-error-object'', Some (ErrorObject (Some ''{\"message\":\"model unavailable\",\"type\":\"server_error\"}'')), [], []),
      (''stream-error-non-object'', Some (MalformedErrorPayload (Some ''[\"boom\"]'')), [], []),
      (''stream-error-null-ignored'', None, ''fine'', ''stop''),
      (''stream-tool-calls-rejected'', Some ToolCallsRequested, [], []),
      (''stream-function-call-rejected'', Some FunctionCallRequested, [], []),
      (''stream-finish-content-filter'', Some ContentFiltered, [], []),
      (''stream-finish-unsupported'', Some (UnsupportedFinish ''weird_reason''), [], [])]"
  unfolding map_append stream_outcomes framing_outcomes malformed_outcomes by simp

end
