(* ===== verification/MockLife.thy ===== *)
theory MockLife imports MockServer begin

text \<open>
  The life of a mock server: \<open>StartContext\<close>, \<open>Close\<close> and \<open>Shutdown\<close> as they interleave.  A step is what
  happens between two points where another goroutine may run: a locked section, a call to the
  operating system, an assignment outside the lock, or a move of the serving goroutine.  Only the
  first \<open>Start\<close> goes past its first locked section and only the first \<open>Close\<close> past its own, so one
  program counter for each is enough.
\<close>

section \<open>State\<close>

datatype start_pc = NotStarted | BeforeListen | Listening | Published | Installed | Returned
datatype close_pc = NotClosed | Closing | CloseReturned
datatype goroutine = NotSpawned | Spawned | Serving | Ended

record life =
  lf_started :: bool            \<comment> \<open>\<open>s.started\<close>\<close>
  lf_closed :: bool             \<comment> \<open>\<open>s.closed\<close>\<close>
  lf_ln :: "string option"      \<comment> \<open>\<open>s.ln\<close>, by its address\<close>
  lf_http :: bool               \<comment> \<open>\<open>s.http\<close> is set\<close>
  lf_serveErr :: "string option" \<comment> \<open>\<open>s.serveErr\<close>\<close>
  lf_bound :: string            \<comment> \<open>the address the socket was bound to\<close>
  lf_open :: bool               \<comment> \<open>the listening socket is open\<close>
  lf_shut :: bool               \<comment> \<open>the \<open>http.Server\<close> has been closed or shut down\<close>
  lf_start :: start_pc
  lf_close :: close_pc
  lf_go :: goroutine

definition new_life :: life where
  "new_life = \<lparr>lf_started = False, lf_closed = False, lf_ln = None, lf_http = False, lf_serveErr = None,
     lf_bound = [], lf_open = False, lf_shut = False, lf_start = NotStarted, lf_close = NotClosed,
     lf_go = NotSpawned\<rparr>"

section \<open>Steps\<close>

text \<open>\<open>StartContext\<close>: the first locked section (a second call returns an error), the second one, the
  assignment of the \<open>http.Server\<close>, and the goroutine.\<close>

definition begin_start :: "life \<Rightarrow> life" where
  "begin_start s = (if lf_started s then s else s\<lparr>lf_started := True, lf_start := BeforeListen\<rparr>)"

definition publish_listener :: "life \<Rightarrow> life" where
  "publish_listener s =
     (if lf_closed s then s\<lparr>lf_open := False, lf_start := Returned\<rparr>
      else s\<lparr>lf_ln := Some (lf_bound s), lf_start := Published\<rparr>)"

definition install_http :: "life \<Rightarrow> life" where
  "install_http s = s\<lparr>lf_http := True, lf_start := Installed\<rparr>"

definition spawn_serve :: "life \<Rightarrow> life" where
  "spawn_serve s = s\<lparr>lf_go := Spawned, lf_start := Returned\<rparr>"

text \<open>The goroutine stores what \<open>Serve\<close> returned; \<open>ErrServerClosed\<close> counts as no error.  \<open>Serve\<close> closes
  the listener when it returns.\<close>

definition end_serve :: "string option \<Rightarrow> life \<Rightarrow> life" where
  "end_serve err s = s\<lparr>lf_go := Ended, lf_open := False, lf_serveErr := err\<rparr>"

text \<open>The locked section of \<open>Close\<close> and of \<open>Shutdown\<close>, and the call on the \<open>http.Server\<close> it may lead to.\<close>

definition begin_close :: "life \<Rightarrow> life" where
  "begin_close s =
     (if lf_closed s then s
      else s\<lparr>lf_closed := True, lf_close := (if lf_http s then Closing else CloseReturned)\<rparr>)"

definition begin_shutdown :: "life \<Rightarrow> life" where
  "begin_shutdown s =
     (if lf_closed s then s
      else s\<lparr>lf_closed := True, lf_close := (if lf_http s then Closing else CloseReturned)\<rparr>)"

definition close_http :: "life \<Rightarrow> life" where
  "close_http s = s\<lparr>lf_shut := True, lf_close := CloseReturned\<rparr>"

inductive life_step :: "life \<Rightarrow> life \<Rightarrow> bool" where
  start_call: "life_step s (begin_start s)"
| listen_ok: "lf_start s = BeforeListen \<Longrightarrow> life_step s (s\<lparr>lf_open := True, lf_bound := a, lf_start := Listening\<rparr>)"
| listen_fails: "lf_start s = BeforeListen \<Longrightarrow> life_step s (s\<lparr>lf_start := Returned\<rparr>)"
| publish: "lf_start s = Listening \<Longrightarrow> life_step s (publish_listener s)"
| install: "lf_start s = Published \<Longrightarrow> life_step s (install_http s)"
| spawn: "lf_start s = Installed \<Longrightarrow> life_step s (spawn_serve s)"
| serve: "lf_go s = Spawned \<Longrightarrow> \<not> lf_shut s \<Longrightarrow> life_step s (s\<lparr>lf_go := Serving\<rparr>)"
| serve_closed: "lf_go s \<in> {Spawned, Serving} \<Longrightarrow> lf_shut s \<Longrightarrow> life_step s (end_serve None s)"
| serve_fails: "lf_go s = Serving \<Longrightarrow> life_step s (end_serve (Some e) s)"
| close_call: "life_step s (begin_close s)"
| shutdown_call: "life_step s (begin_shutdown s)"
| http_close: "lf_close s = Closing \<Longrightarrow> life_step s (close_http s)"

lemmas life_ops = begin_start_def publish_listener_def install_http_def spawn_serve_def end_serve_def
  begin_close_def begin_shutdown_def close_http_def

text \<open>The accessors.\<close>

definition URL :: "life \<Rightarrow> string" where
  "URL s = (case lf_ln s of None \<Rightarrow> [] | Some a \<Rightarrow> ''http://'' @ a)"

definition Addr :: "life \<Rightarrow> string" where
  "Addr s = (case lf_ln s of None \<Rightarrow> [] | Some a \<Rightarrow> a)"

definition ServeErr :: "life \<Rightarrow> string option" where
  "ServeErr s = lf_serveErr s"

abbreviation life_steps :: "life \<Rightarrow> life \<Rightarrow> bool" where
  "life_steps \<equiv> life_step\<^sup>*\<^sup>*"

text \<open>Nothing is left to happen by itself: what has begun has returned, and a closed server has ended.\<close>

definition settled :: "life \<Rightarrow> bool" where
  "settled s \<longleftrightarrow> lf_start s \<in> {NotStarted, Returned} \<and> lf_close s \<noteq> Closing \<and> lf_go s \<noteq> Spawned
     \<and> \<not> (lf_go s = Serving \<and> lf_shut s)"

section \<open>The invariant\<close>

definition life_inv :: "life \<Rightarrow> bool" where
  "life_inv s \<longleftrightarrow>
     (lf_started s \<longleftrightarrow> lf_start s \<noteq> NotStarted)
     \<and> (lf_open s \<longleftrightarrow> lf_start s \<in> {Listening, Published, Installed} \<or> lf_go s \<in> {Spawned, Serving})
     \<and> (lf_go s \<noteq> NotSpawned \<longrightarrow> lf_start s = Returned)
     \<and> (lf_http s \<longleftrightarrow> lf_start s = Installed \<or> lf_go s \<noteq> NotSpawned)
     \<and> (lf_ln s = (if lf_start s = Published \<or> lf_http s then Some (lf_bound s) else None))
     \<and> (lf_closed s \<longleftrightarrow> lf_close s \<noteq> NotClosed)
     \<and> (lf_close s = Closing \<longrightarrow> lf_http s)
     \<and> (lf_shut s \<longrightarrow> lf_close s = CloseReturned)
     \<and> (lf_serveErr s \<noteq> None \<longrightarrow> lf_go s = Ended)"

lemma new_life_inv: "life_inv new_life"
  by (simp add: life_inv_def new_life_def)

text \<open>Each operation keeps it where it may run.\<close>

lemma start_keeps:
  assumes "life_inv s"
  shows "life_inv (begin_start s)"
    and "lf_start s = BeforeListen \<Longrightarrow> life_inv (s\<lparr>lf_open := True, lf_bound := a, lf_start := Listening\<rparr>)"
    and "lf_start s = BeforeListen \<Longrightarrow> life_inv (s\<lparr>lf_start := Returned\<rparr>)"
    and "lf_start s = Listening \<Longrightarrow> life_inv (publish_listener s)"
    and "lf_start s = Published \<Longrightarrow> life_inv (install_http s)"
    and "lf_start s = Installed \<Longrightarrow> life_inv (spawn_serve s)"
  using assms by (cases "lf_go s"; auto simp: life_inv_def life_ops)+

lemma serve_keeps:
  assumes "life_inv s"
  shows "lf_go s = Spawned \<Longrightarrow> life_inv (s\<lparr>lf_go := Serving\<rparr>)"
    and "lf_go s \<in> {Spawned, Serving} \<Longrightarrow> life_inv (end_serve e s)"
  using assms by (auto simp: life_inv_def life_ops)

lemma close_keeps:
  assumes "life_inv s"
  shows "life_inv (begin_close s)" and "life_inv (begin_shutdown s)" and "lf_close s = Closing \<Longrightarrow> life_inv (close_http s)"
  using assms by (cases "lf_close s"; auto simp: life_inv_def life_ops)+

lemma life_step_inv: "life_step s s' \<Longrightarrow> life_inv s \<Longrightarrow> life_inv s'"
  by (induction rule: life_step.induct) (simp_all add: start_keeps serve_keeps close_keeps)

interpretation life: stable life_step life_inv
  by unfold_locales (rule life_step_inv)

text \<open>A close that finds the server installed shuts it for good.\<close>

definition closes_installed :: "life \<Rightarrow> bool" where
  "closes_installed s \<longleftrightarrow> lf_close s = Closing \<or> lf_close s = CloseReturned \<and> lf_shut s"

lemma closes_installed_step:
  "life_step s s' \<Longrightarrow> life_inv s \<Longrightarrow> closes_installed s \<Longrightarrow> closes_installed s'"
  by (induction rule: life_step.induct) (auto simp: closes_installed_def life_inv_def life_ops)

interpretation closing: stable life_step "\<lambda>s. life_inv s \<and> closes_installed s"
  by unfold_locales (blast intro: life_step_inv closes_installed_step)

text \<open>A close that came before the server was installed leaves it open.\<close>

definition missed :: "life \<Rightarrow> bool" where
  "missed s \<longleftrightarrow> lf_closed s \<and> lf_close s = CloseReturned \<and> \<not> lf_shut s"

lemma missed_step: "life_step s s' \<Longrightarrow> missed s \<Longrightarrow> missed s'"
  by (induction rule: life_step.induct) (auto simp: missed_def life_ops)

interpretation missed: stable life_step missed
  by unfold_locales (rule missed_step)

lemma start_returned_step: "life_step s s' \<Longrightarrow> life_inv s \<Longrightarrow> lf_start s = Returned \<Longrightarrow>
    lf_start s' = Returned \<and> (lf_http s' \<longleftrightarrow> lf_http s)"
  by (induction rule: life_step.induct) (auto simp: life_inv_def life_ops)

interpretation returned: stable life_step "\<lambda>s. life_inv s \<and> lf_start s = Returned \<and> (lf_http s \<longleftrightarrow> h)" for h
  by unfold_locales (blast intro: life_step_inv dest: start_returned_step)

section \<open>Properties\<close>

text \<open>C16: closing works once the server is up: in every interleaving, when everything has settled the socket
  is open exactly if the server serves, a server that serves answers \<open>URL\<close> with the address it is
  bound to, and when \<open>Close\<close> begins after \<open>Start\<close> has returned, then whatever happens in between, once
  everything has settled nothing listens or serves any more.\<close>

theorem close_after_start_stops:
  assumes "life_steps new_life s"
  shows "(settled s \<longrightarrow> (lf_open s \<longleftrightarrow> lf_go s = Serving))
     \<and> (lf_go s = Serving \<longrightarrow> lf_open s \<and> URL s = ''http://'' @ lf_bound s \<and> ServeErr s = None)
     \<and> (\<forall>s'. lf_start s = Returned \<and> \<not> lf_closed s \<and> life_steps (begin_close s) s' \<and> settled s'
          \<longrightarrow> \<not> lf_open s' \<and> lf_go s' \<noteq> Serving)"
proof -
  have inv: "life_inv s" using life.run_keeps [OF assms new_life_inv] .
  have "\<not> lf_open s' \<and> lf_go s' \<noteq> Serving"
    if r: "lf_start s = Returned" "\<not> lf_closed s" and st: "settled s'" and run: "life_steps (begin_close s) s'" for s'
  proof -
    have t: "life_inv (begin_close s)" using life_step_inv [OF close_call inv] .
    have i': "life_inv s'" using life.run_keeps [OF run t] .
    have h: "lf_start s' = Returned \<and> (lf_http s' \<longleftrightarrow> lf_http s)"
      using returned.run_keeps [OF run, of "lf_http s"] t r by (simp add: begin_close_def)
    show ?thesis
    proof (cases "lf_http s")
      case True
      with r have "closes_installed (begin_close s)" by (simp add: closes_installed_def begin_close_def)
      with closing.run_keeps [OF run] t st have "lf_shut s'"
        by (auto simp: closes_installed_def settled_def)
      with st i' h show ?thesis
        by (cases "lf_go s'") (simp_all add: settled_def life_inv_def)
    next
      case False
      with h i' st show ?thesis
        by (cases "lf_go s'") (simp_all add: settled_def life_inv_def)
    qed
  qed
  moreover have "settled s \<longrightarrow> (lf_open s \<longleftrightarrow> lf_go s = Serving)"
    using inv by (cases "lf_go s"; cases "lf_start s") (simp_all add: settled_def life_inv_def)
  moreover have "lf_go s = Serving \<longrightarrow> lf_open s \<and> URL s = ''http://'' @ lf_bound s \<and> ServeErr s = None"
    using inv by (auto simp: life_inv_def URL_def ServeErr_def)
  ultimately show ?thesis by blast
qed

text \<open>A server that has published its listener on the way to serving.\<close>

definition published_life :: life where
  "published_life = new_life\<lparr>lf_started := True, lf_ln := Some ''127.0.0.1:9'', lf_bound := ''127.0.0.1:9'',
     lf_open := True, lf_start := Published\<rparr>"

definition serving_life :: life where
  "serving_life = published_life\<lparr>lf_http := True, lf_start := Returned, lf_go := Serving\<rparr>"

lemmas life_samples = published_life_def serving_life_def new_life_def

lemma published_reachable: "life_steps new_life published_life"
proof -
  let ?a = "begin_start new_life"
  let ?b = "?a\<lparr>lf_open := True, lf_bound := ''127.0.0.1:9'', lf_start := Listening\<rparr>"
  have "life_step new_life ?a" by (rule start_call)
  moreover have "life_step ?a ?b" by (rule listen_ok) (simp add: life_ops new_life_def)
  moreover have "life_step ?b (publish_listener ?b)" by (rule publish) simp
  moreover have "publish_listener ?b = published_life"
    by (simp add: life_ops life_samples)
  ultimately show ?thesis
    by (metis converse_rtranclp_into_rtranclp r_into_rtranclp)
qed

lemma install_and_serve:
  assumes "lf_start s = Published" and "\<not> lf_shut s"
  shows "life_steps s (s\<lparr>lf_http := True, lf_start := Returned, lf_go := Serving\<rparr>)"
proof -
  let ?a = "install_http s" and ?b = "spawn_serve (install_http s)"
  have "life_step s ?a" using assms(1) by (rule install)
  moreover have "life_step ?a ?b" by (rule spawn) (simp add: life_ops)
  moreover have "life_step ?b (?b\<lparr>lf_go := Serving\<rparr>)" by (rule serve) (simp_all add: life_ops assms(2))
  ultimately have "life_steps s (?b\<lparr>lf_go := Serving\<rparr>)"
    by (meson converse_rtranclp_into_rtranclp r_into_rtranclp)
  then show ?thesis by (simp add: life_ops)
qed

definition stopped_life :: life where
  "stopped_life = end_serve None (close_http (begin_close serving_life))"

lemma stopped_reached: "life_steps (begin_close serving_life) stopped_life"
proof -
  let ?c = "begin_close serving_life"
  have "life_step ?c (close_http ?c)"
    by (rule http_close) (simp add: life_ops life_samples)
  moreover have "life_step (close_http ?c) stopped_life"
    unfolding stopped_life_def by (rule serve_closed) (simp_all add: life_ops life_samples)
  ultimately show ?thesis by (meson converse_rtranclp_into_rtranclp r_into_rtranclp)
qed

theorem close_after_start_stops_witness:
  "life_steps new_life serving_life \<and> life_steps (begin_close serving_life) stopped_life \<and> \<not> lf_open stopped_life"
proof -
  have "life_steps published_life serving_life"
    unfolding serving_life_def by (rule install_and_serve) (simp_all add: life_samples)
  with published_reachable have reach: "life_steps new_life serving_life" by (rule rtranclp_trans)
  have "settled stopped_life" "lf_start serving_life = Returned" "\<not> lf_closed serving_life"
    by (simp_all add: settled_def stopped_life_def life_ops life_samples)
  with close_after_start_stops [OF reach] reach stopped_reached show ?thesis by blast
qed

text \<open>C37: closing while the server starts can be lost: there is an interleaving of one \<open>Start\<close> and one
  \<open>Close\<close> after which both have returned without error and the server serves on an open socket, and
  from there no further call of \<open>Close\<close> or \<open>Shutdown\<close> ever reaches the \<open>http.Server\<close>.\<close>

theorem close_during_start_is_lost:
  "\<exists>s. life_steps new_life s \<and> settled s \<and> lf_closed s \<and> lf_open s \<and> lf_go s = Serving \<and> ServeErr s = None
     \<and> (\<forall>s'. life_steps s s' \<longrightarrow> lf_closed s' \<and> \<not> lf_shut s')"
proof -
  let ?c = "begin_close published_life"
  let ?s = "?c\<lparr>lf_http := True, lf_start := Returned, lf_go := Serving\<rparr>"
  have "life_steps published_life ?c" by (intro r_into_rtranclp close_call)
  moreover have "life_steps ?c ?s"
    by (rule install_and_serve) (simp_all add: life_ops life_samples)
  ultimately have reach: "life_steps new_life ?s"
    using published_reachable by (meson rtranclp_trans)
  have "missed ?s" by (simp add: missed_def life_ops life_samples)
  then have "lf_closed s' \<and> \<not> lf_shut s'" if "life_steps ?s s'" for s'
    using missed.run_keeps [OF that] by (simp add: missed_def)
  with reach show ?thesis
    by (intro exI [of _ ?s]) (simp add: settled_def ServeErr_def life_ops life_samples)
qed

theorem close_during_start_is_lost_witness:
  "\<exists>s. life_steps new_life s \<and> lf_open s \<and> life_steps s (begin_shutdown (begin_close s))
     \<and> \<not> lf_shut (begin_shutdown (begin_close s))"
proof -
  have again: "life_steps s (begin_shutdown (begin_close s))" for s
    by (meson close_call shutdown_call converse_rtranclp_into_rtranclp r_into_rtranclp)
  from close_during_start_is_lost obtain s where "life_steps new_life s" "lf_open s"
    and "\<forall>s'. life_steps s s' \<longrightarrow> lf_closed s' \<and> \<not> lf_shut s'" by blast
  with again [of s] show ?thesis by blast
qed

end
