(* ===== verification/MockCli.thy ===== *)
theory MockCli imports GoFlag MockLife MockProps begin

text \<open>
  \<open>cmd/radichat-mock/main.go\<close>: the development command that lists the scenarios and serves one of them on a
  loopback address until it is interrupted.  The world answers for the operating system: what
  \<open>net.Listen\<close> and \<open>Close\<close> return and whether a signal ever arrives; a run that is never
  interrupted has no exit code.
\<close>

section \<open>World and result\<close>

record mock_world =
  mw_registry :: registry
  mw_printable :: "nat \<Rightarrow> bool"
  mw_listen :: "string \<Rightarrow> (string, string) result"   \<comment> \<open>the error's text, or the address bound\<close>
  mw_interrupted :: bool
  mw_close :: "string option"

record mock_result =
  mk_code :: "int option"
  mk_out :: string
  mk_err :: string
  mk_listened :: "string list"     \<comment> \<open>the addresses given to \<open>net.Listen\<close>\<close>

definition println :: "string \<Rightarrow> string" where
  "println s = s @ [LF]"

definition leave :: "int \<Rightarrow> string \<Rightarrow> string \<Rightarrow> mock_result" where
  "leave code out err = \<lparr>mk_code = Some code, mk_out = out, mk_err = err, mk_listened = []\<rparr>"

definition fail_with :: "string \<Rightarrow> mock_result" where
  "fail_with message = leave 2 [] (println (''radichat-mock: '' @ message))"

definition mock_usage :: string where
  "mock_usage = concat (map println
     [''radichat-mock '' @ [CHR 0xE2, CHR 0x80, CHR 0x94] @ '' loopback-only mock of an OpenAI-compatible chat endpoint'',
      '''', ''Usage:'',
      ''  radichat-mock list                 list named scenarios'',
      ''  radichat-mock run <scenario>       serve one scenario until interrupted'',
      ''  radichat-mock run <scenario> -addr HOST:PORT'',
      ''                                   serve on an explicit loopback address'',
      ''  radichat-mock -help               show this help'',
      ''The mock binds loopback only. Point radichat.json at the printed endpoint URL.'',
      ''See docs/testing-mock.md for reproducible commands and examples.''])"

section \<open>Listing\<close>

text \<open>\<open>%-40s\<close> pads to forty runes; a byte that starts no rune counts as one.\<close>

function rune_count :: "string \<Rightarrow> nat" where
  "rune_count [] = 0"
| "rune_count (c # cs) = Suc (rune_count (drop (max 1 (rune_len (c # cs))) (c # cs)))"
  by pat_completeness auto
termination
  by (relation "measure length") auto

definition pad_right :: "nat \<Rightarrow> string \<Rightarrow> string" where
  "pad_right n s = s @ replicate (n - rune_count s) (CHR '' '')"

definition scenario_line :: "scenario \<Rightarrow> string" where
  "scenario_line s = println (''  '' @ pad_right 40 (sc_Name s) @ '' '' @ sc_Description s)"

definition family_block :: "scenario list \<Rightarrow> string \<Rightarrow> string" where
  "family_block catalog family =
     println family @ concat (map scenario_line (filter (\<lambda>s. sc_Family s = family) catalog)) @ [LF]"

definition listScenarios :: "registry \<Rightarrow> mock_result" where
  "listScenarios reg =
     (let catalog = Catalog reg in
      if catalog = [] then leave 1 (println ''no scenarios registered'') []
      else leave 0
        (println (show_nat (length catalog) @ '' scenarios:'') @ [LF]
         @ concat (map (family_block catalog) (Families reg))
         @ println ''Run one with: radichat-mock run <scenario>'') [])"

section \<open>Running a scenario\<close>

fun split_flags_from :: "string list \<Rightarrow> string list \<Rightarrow> string list \<Rightarrow> string list \<times> string list" where
  "split_flags_from flgs pos [] = (flgs, pos)"
| "split_flags_from flgs pos (a # args) =
     (if a = ''--'' then (flgs, pos @ args)
      else if has_prefix a ''-'' \<and> a \<noteq> ''-'' then
        (if \<not> contains a ''='' \<and> args \<noteq> [] then split_flags_from (flgs @ [a, hd args]) pos (tl args)
         else split_flags_from (flgs @ [a]) pos args)
      else split_flags_from flgs (pos @ [a]) args)"

definition splitFlags :: "string list \<Rightarrow> string list \<times> string list" where
  "splitFlags args = split_flags_from [] [] args"

definition checkLoopbackAddr :: "(nat \<Rightarrow> bool) \<Rightarrow> string \<Rightarrow> string option" where
  "checkLoopbackAddr pr addr =
     (case split_host_port addr of
        Inl _ \<Rightarrow> Some (''invalid -addr '' @ go_quote pr addr @ '': use HOST:PORT'')
      | Inr (host, port) \<Rightarrow>
          (if port \<noteq> [] \<and> atoi port = None then
             Some (''invalid -addr port '' @ go_quote pr port @ '': use a numeric port'')
           else if to_lower (trim_space host) \<in> set loopback_names then None
           else case parse_ip (trim_space host) of
             Some ip \<Rightarrow>
               (if is_loopback_ip ip then None
                else Some ''refusing to bind a non-loopback address; use 127.0.0.1, [::1], or localhost'')
           | None \<Rightarrow> Some ''refusing to bind a non-loopback address; use 127.0.0.1, [::1], or localhost''))"

definition addr_flag_usage :: string where
  "addr_flag_usage = println ''Usage of run:'' @ println ''  -addr string'' @ ''    '' @ [CHR 0x09]
     @ println ''loopback listen address, for example 127.0.0.1:0 (default: an ephemeral loopback port)''"

fun addr_error_text :: "addr_error \<Rightarrow> string" where
  "addr_error_text MissingPort = ''missing port in address''"
| "addr_error_text TooManyColons = ''too many colons in address''"
| "addr_error_text MissingBracket = ''missing '' @ [CHR 0x27] @ '']'' @ [CHR 0x27] @ '' in address''"
| "addr_error_text (UnexpectedBracket c) = ''unexpected '' @ [CHR 0x27, c, CHR 0x27] @ '' in address''"

fun new_error_text :: "(nat \<Rightarrow> bool) \<Rightarrow> new_error \<Rightarrow> string" where
  "new_error_text pr (InvalidAddress addr e) =
     ''mockllm: invalid listen address '' @ go_quote pr addr @ '': address '' @ addr @ '': '' @ addr_error_text e"
| "new_error_text pr LoopbackRequired = ''mockllm: refusing to bind a non-loopback address; use a loopback host such as 127.0.0.1, [::1], or localhost''"

text \<open>\<open>mockllm.StartContext\<close> of a new server that nobody closes yet: the life after its steps, and what
  it listened on.\<close>

definition started_life :: "string \<Rightarrow> life" where
  "started_life bound =
     spawn_serve (install_http (publish_listener
       ((begin_start new_life)\<lparr>lf_open := True, lf_bound := bound, lf_start := Listening\<rparr>)))"

definition start_server :: "mock_world \<Rightarrow> server_options \<Rightarrow> (string, life) result \<times> string list" where
  "start_server w opts =
     (case New_server opts of
        Inl e \<Rightarrow> (Inl (new_error_text (mw_printable w) e), [])
      | Inr o1 \<Rightarrow>
          (case mw_listen w (so_Addr o1) of
             Inl e \<Rightarrow> (Inl (''mockllm: cannot listen on '' @ so_Addr o1 @ '': '' @ e), [so_Addr o1])
           | Inr bound \<Rightarrow> (Inr (started_life bound), [so_Addr o1])))"

definition announce :: "scenario \<Rightarrow> string \<Rightarrow> string" where
  "announce sc url =
     println (''scenario:   '' @ sc_Name sc) @ println (''family:     '' @ sc_Family sc)
     @ println (''behavior:   '' @ sc_Description sc)
     @ (if as_Required (sc_Auth sc)
        then println (''auth:       requires a bearer token (sentinel: '' @ SentinelEnvName @ '')'')
        else println ''auth:       none required'')
     @ println (''endpoint:   '' @ url) @ println ''listening on loopback; press Ctrl-C to stop''"

definition serve_scenario :: "mock_world \<Rightarrow> scenario \<Rightarrow> string \<Rightarrow> mock_result" where
  "serve_scenario w sc listenAddr =
     (case start_server w \<lparr>so_Addr = listenAddr, so_ExpectedBearer = SentinelToken\<rparr> of
        (Inl e, tried) \<Rightarrow>
          \<lparr>mk_code = Some 1, mk_out = [], mk_err = println (''radichat-mock: '' @ e), mk_listened = tried\<rparr>
      | (Inr life, tried) \<Rightarrow>
          (let out = announce sc (URL life @ scenario_path sc) in
           if \<not> mw_interrupted w then \<lparr>mk_code = None, mk_out = out, mk_err = [], mk_listened = tried\<rparr>
           else
             (let out' = out @ println ''shutting down'' in
              case mw_close w of
                None \<Rightarrow> \<lparr>mk_code = Some 0, mk_out = out', mk_err = [], mk_listened = tried\<rparr>
              | Some e \<Rightarrow> \<lparr>mk_code = Some 1, mk_out = out',
                  mk_err = println (''radichat-mock: shutdown: '' @ e), mk_listened = tried\<rparr>)))"

definition runScenario :: "mock_world \<Rightarrow> string list \<Rightarrow> mock_result" where
  "runScenario w args =
     (case splitFlags args of (flgs, positional) \<Rightarrow>
        (case flag_parse [''addr''] [] flgs of
           (Some ErrHelp, _, _) \<Rightarrow> leave 0 [] addr_flag_usage
         | (Some (FlagFailure e), _, _) \<Rightarrow> leave 2 [] (println e @ addr_flag_usage)
         | (None, vals, left) \<Rightarrow>
             (case left @ positional of
                [] \<Rightarrow> fail_with ''run needs a scenario name; list them with radichat-mock list''
              | name # _ \<Rightarrow>
                  (case Lookup (mw_registry w) name of
                     None \<Rightarrow> fail_with (''unknown scenario '' @ go_quote (mw_printable w) name
                       @ ''; list scenarios with radichat-mock list'')
                   | Some sc \<Rightarrow>
                       (let given = flag_value vals ''addr'' [];
                            listenAddr = (if given = [] then DefaultAddr else given) in
                        case checkLoopbackAddr (mw_printable w) listenAddr of
                          Some e \<Rightarrow> fail_with e
                        | None \<Rightarrow> serve_scenario w sc listenAddr)))))"

section \<open>The command\<close>

text \<open>\<open>os.Args\<close> has the program's name first.\<close>

definition run_mock :: "mock_world \<Rightarrow> string list \<Rightarrow> mock_result" where
  "run_mock w args =
     (if length args < 2 then leave 2 mock_usage []
      else if args ! 1 = ''list'' then listScenarios (mw_registry w)
      else if args ! 1 = ''run'' then runScenario w (drop 2 args)
      else if args ! 1 \<in> {''-h'', ''-help'', ''--help'', ''help''} then leave 0 mock_usage []
      else fail_with (''unknown command '' @ go_quote (mw_printable w) (args ! 1) @ ''; see radichat-mock -help''))"

section \<open>Flags before and after the name\<close>

definition is_flag :: "string \<Rightarrow> bool" where
  "is_flag a \<longleftrightarrow> has_prefix a ''-'' \<and> a \<noteq> ''-'' \<and> a \<noteq> ''--''"

text \<open>A flag with its value inline, or a flag followed by its value.\<close>

fun flag_block :: "string list \<Rightarrow> bool" where
  "flag_block [f] \<longleftrightarrow> is_flag f \<and> contains f ''=''"
| "flag_block [f, v] \<longleftrightarrow> is_flag f \<and> \<not> contains f ''=''"
| "flag_block _ \<longleftrightarrow> False"

lemma split_block:
  assumes "flag_block b"
  shows "split_flags_from flgs pos (b @ args) = split_flags_from (flgs @ b) pos args"
  using assms by (cases b rule: flag_block.cases) (auto simp: is_flag_def)

lemma split_blocks:
  assumes "list_all flag_block bs"
  shows "split_flags_from flgs pos (concat bs @ args) = split_flags_from (flgs @ concat bs) pos args"
  using assms
proof (induction bs arbitrary: flgs)
  case (Cons b bs)
  then show ?case
    using split_block [of b flgs pos "concat bs @ args"] by simp
qed simp

lemma splitFlags_around:
  assumes "list_all flag_block (bs @ bs')" and "\<not> has_prefix name ''-''"
  shows "splitFlags (concat bs @ name # concat bs') = (concat (bs @ bs'), [name])"
proof -
  have "name \<noteq> ''--''" using assms(2) by (auto simp: has_prefix_def)
  moreover have "list_all flag_block bs" "list_all flag_block bs'" using assms(1) by simp_all
  ultimately show ?thesis
    using assms(2) split_blocks [of bs' "concat bs" "[name]" "[]"]
    by (simp add: splitFlags_def split_blocks)
qed

text \<open>C40: flags may stand on either side of the scenario's name: when every flag has its value, inline or as
  the next argument, and the name does not look like a flag, the command does the same wherever the
  name stands among the flags.\<close>

theorem flags_around_the_name:
  assumes "list_all flag_block (bs @ bs')" and "\<not> has_prefix name ''-''"
  shows "run_mock w ([prog, ''run''] @ concat bs @ name # concat bs') = run_mock w ([prog, ''run'', name] @ concat (bs @ bs'))
     \<and> run_mock w ([prog, ''run''] @ concat bs @ name # concat bs') = run_mock w ([prog, ''run''] @ concat (bs @ bs') @ [name])"
proof -
  have "splitFlags (concat [] @ name # concat (bs @ bs')) = splitFlags (concat bs @ name # concat bs')"
    "splitFlags (concat (bs @ bs') @ name # concat []) = splitFlags (concat bs @ name # concat bs')"
    using splitFlags_around [OF _ assms(2), of bs bs'] splitFlags_around [OF _ assms(2), of "[]" "bs @ bs'"]
      splitFlags_around [OF _ assms(2), of "bs @ bs'" "[]"] assms(1) by simp_all
  then show ?thesis
    by (simp add: run_mock_def runScenario_def)
qed

definition demo_mock :: mock_world where
  "demo_mock = \<lparr>mw_registry = all_scenarios, mw_printable = (\<lambda>_. True), mw_listen = (\<lambda>a. Inr ''127.0.0.1:7007''),
     mw_interrupted = True, mw_close = None\<rparr>"

theorem flags_around_the_name_witness:
  "run_mock demo_mock [''mock'', ''run'', ''http-error-401'', ''-addr'', ''[::1]:0'']
     = run_mock demo_mock [''mock'', ''run'', ''-addr'', ''[::1]:0'', ''http-error-401'']"
  using flags_around_the_name [of "[]" "[[''-addr'', ''[::1]:0'']]" "''http-error-401''" demo_mock "''mock''"]
  by (simp add: is_flag_def has_prefix_def contains_def)

section \<open>Where the mock listens\<close>

definition loopback_addr :: "string \<Rightarrow> bool" where
  "loopback_addr a \<longleftrightarrow> (\<exists>host port. split_host_port a = Inr (host, port) \<and> isLoopback host
     \<and> (port = [] \<or> atoi port \<noteq> None))"

lemma checkLoopbackAddr_None: "checkLoopbackAddr pr a = None \<longleftrightarrow> loopback_addr a"
  by (auto simp: checkLoopbackAddr_def loopback_addr_def isLoopback_def split: sum.splits option.splits if_splits)

text \<open>An address the command accepts is one the server accepts.\<close>

lemma New_accepts:
  assumes "loopback_addr (so_Addr opts)" and "so_Addr opts \<noteq> []"
  shows "New_server opts = Inr opts"
  using assms by (auto simp: New_server_def loopback_addr_def Let_def)

lemma started_life_URL: "URL (started_life bound) = ''http://'' @ bound"
  by (simp add: URL_def started_life_def life_ops new_life_def)

lemma started_life_reached: "life_steps new_life (started_life bound)"
proof -
  let ?a = "begin_start new_life"
  let ?b = "?a\<lparr>lf_open := True, lf_bound := bound, lf_start := Listening\<rparr>"
  let ?c = "publish_listener ?b"
  have "life_step new_life ?a" by (rule start_call)
  moreover have "life_step ?a ?b" by (rule listen_ok) (simp add: life_ops new_life_def)
  moreover have "life_step ?b ?c" by (rule publish) simp
  moreover have "life_step ?c (install_http ?c)" by (rule install) (simp add: life_ops new_life_def)
  moreover have "life_step (install_http ?c) (started_life bound)"
    unfolding started_life_def by (rule spawn) (simp add: life_ops)
  ultimately show ?thesis
    by (meson converse_rtranclp_into_rtranclp r_into_rtranclp)
qed

definition announced :: "mock_world \<Rightarrow> string \<Rightarrow> string \<Rightarrow> bool" where
  "announced w a out \<longleftrightarrow> (\<exists>sc bound. sc \<in> set (mw_registry w) \<and> mw_listen w a = Inr bound
     \<and> prefix (announce sc (''http://'' @ bound @ scenario_path sc)) out)"

text \<open>What every result of the command satisfies.\<close>

definition tame :: "mock_world \<Rightarrow> mock_result \<Rightarrow> bool" where
  "tame w r \<longleftrightarrow> (case mk_code r of None \<Rightarrow> \<not> mw_interrupted w | Some c \<Rightarrow> c \<in> {0, 1, 2})
     \<and> (mk_listened r = [] \<or> (\<exists>a. mk_listened r = [a] \<and> loopback_addr a
          \<and> (mk_code r \<in> {Some 1} \<or> announced w a (mk_out r))))
     \<and> (mk_code r = None \<longrightarrow> mk_listened r \<noteq> [])"

lemma leave_tame: "c \<in> {0, 1, 2} \<Longrightarrow> tame w (leave c out err)" "tame w (fail_with e)"
  by (auto simp: tame_def leave_def fail_with_def)

lemma serve_tame:
  assumes "loopback_addr a" and "a \<noteq> []" and "sc \<in> set (mw_registry w)"
  shows "tame w (serve_scenario w sc a)"
proof -
  let ?o = "\<lparr>so_Addr = a, so_ExpectedBearer = SentinelToken\<rparr>"
  have new: "New_server ?o = Inr ?o" using assms(1,2) by (simp add: New_accepts)
  show ?thesis
  proof (cases "mw_listen w a")
    case (Inl e)
    then show ?thesis
      using assms(1) by (simp add: tame_def serve_scenario_def start_server_def new)
  next
    case (Inr bound)
    let ?out = "announce sc (''http://'' @ bound @ scenario_path sc)"
    have "announced w a (?out @ t)" for t
      using assms(3) Inr unfolding announced_def by (intro exI [of _ sc] exI [of _ bound]) simp
    from this [of "[]"] this [of "println ''shutting down''"] show ?thesis
      using assms(1) Inr
      by (auto simp: tame_def serve_scenario_def start_server_def new started_life_URL Let_def split: option.split
          simp del: append_assoc) 
  qed
qed

lemma runScenario_tame: "tame w (runScenario w args)"
proof -
  obtain flgs pos where s: "splitFlags args = (flgs, pos)" by fastforce
  obtain e vals left where p: "flag_parse [''addr''] [] flgs = (e, vals, left)" by (metis prod.collapse)
  let ?given = "flag_value vals ''addr'' []"
  let ?addr = "if ?given = [] then DefaultAddr else ?given"
  show ?thesis
  proof (cases e)
    case (Some x)
    then show ?thesis by (cases x) (simp_all add: runScenario_def s p leave_tame)
  next
    case ok: None
    show ?thesis
    proof (cases "left @ pos")
      case (Cons name names)
      show ?thesis
      proof (cases "Lookup (mw_registry w) name")
        case (Some sc)
        have "?addr \<noteq> []" by (simp add: DefaultAddr_def)
        then have "tame w (serve_scenario w sc ?addr)" if "loopback_addr ?addr"
          using that Lookup_Some [OF Some] by (intro serve_tame) simp_all
        then have "tame w (case checkLoopbackAddr (mw_printable w) ?addr of
            Some e \<Rightarrow> fail_with e | None \<Rightarrow> serve_scenario w sc ?addr)"
          using checkLoopbackAddr_None [of "mw_printable w" ?addr] leave_tame(2) by (auto split: option.split)
        then show ?thesis
          unfolding runScenario_def s p Let_def ok prod.case option.case Cons list.case Some .
      qed (use ok Cons in \<open>simp add: runScenario_def s p leave_tame\<close>)
    qed (use ok in \<open>simp add: runScenario_def s p leave_tame\<close>)
  qed
qed

text \<open>C14: the mock only ever listens on loopback: whatever the arguments and the system's answers, the
  command listens at most once, on an address whose host is a loopback name or address and whose port
  is empty or a number; unless it ends with 1 it has then printed an endpoint on the bound address for
  a registered scenario; its exit code is 0, 1 or 2, and it runs forever only while serving without
  being interrupted.\<close>

theorem mock_stays_on_loopback:
  "let r = run_mock w args in
     (mk_code r = None \<and> mk_listened r \<noteq> [] \<and> \<not> mw_interrupted w \<or> mk_code r \<in> {Some 0, Some 1, Some 2})
     \<and> (mk_listened r = [] \<or> (\<exists>a host port. mk_listened r = [a] \<and> split_host_port a = Inr (host, port)
          \<and> isLoopback host \<and> (port = [] \<or> atoi port \<noteq> None)
          \<and> (mk_code r = Some 1 \<or> (\<exists>sc bound. sc \<in> set (mw_registry w) \<and> mw_listen w a = Inr bound
                \<and> prefix (announce sc (''http://'' @ bound @ scenario_path sc)) (mk_out r)))))"
proof -
  have "tame w (listScenarios (mw_registry w))"
    by (simp add: listScenarios_def Let_def leave_tame)
  then have "tame w (run_mock w args)"
    by (simp add: run_mock_def leave_tame runScenario_tame)
  then show ?thesis
    unfolding tame_def announced_def loopback_addr_def Let_def
    by (cases "mk_code (run_mock w args)") (simp_all, blast+)
qed

lemma loopback_default: "loopback_addr DefaultAddr"
proof -
  have "split_host_port DefaultAddr = Inr (LoopbackHost, ''0'')"
    by (simp add: split_host_port_def DefaultAddr_def LoopbackHost_def last_index_byte_def index_byte_def has_prefix_def)
  moreover have "isLoopback LoopbackHost" by code_simp
  moreover have "atoi ''0'' \<noteq> None" by code_simp
  ultimately show ?thesis unfolding loopback_addr_def by blast
qed

theorem mock_stays_on_loopback_witness:
  "\<exists>a host port. mk_listened (run_mock demo_mock [''mock'', ''run'', ''http-error-401'']) = [a]
     \<and> split_host_port a = Inr (host, port) \<and> isLoopback host"
proof -
  have "Lookup all_scenarios ''http-error-401'' \<noteq> None"
    by (simp add: Lookup_None all_names flip: image_set set_map)
  then obtain sc where sc: "Lookup all_scenarios ''http-error-401'' = Some sc" by blast
  have flgs: "splitFlags [''http-error-401''] = ([], [''http-error-401''])"
    by (simp add: splitFlags_def has_prefix_def)
  have "New_server \<lparr>so_Addr = DefaultAddr, so_ExpectedBearer = SentinelToken\<rparr>
      = Inr \<lparr>so_Addr = DefaultAddr, so_ExpectedBearer = SentinelToken\<rparr>"
    by (rule New_accepts) (simp add: loopback_default, simp add: DefaultAddr_def)
  then have "mk_listened (run_mock demo_mock [''mock'', ''run'', ''http-error-401'']) \<noteq> []"
    using sc flgs checkLoopbackAddr_None [of "\<lambda>_. True" DefaultAddr] loopback_default
    by (simp add: run_mock_def runScenario_def demo_mock_def flag_value_def serve_scenario_def start_server_def Let_def)
  then show ?thesis
    using mock_stays_on_loopback [of demo_mock "[''mock'', ''run'', ''http-error-401'']"] unfolding Let_def by blast
qed

end
