(* ===== verification/Spec2Isabelle.thy ===== *)
theory Spec2Isabelle imports Chat Redact Decode ConfigParse ClientProps ReplLines Cli MockOutcomes MockCli begin

text \<open>
  \<^bold>\<open>RadiChat\<close> is a terminal client for OpenAI-compatible chat endpoints, written in Go.  A line of input
  becomes a user turn of a bounded conversation; the turn is staged, sent as a JSON request, answered by
  a server-sent event stream whose text is printed as it arrives, and then committed or rolled back.
  The repository also has a mock of the endpoint for its tests.  This library models the
  implementation files under \<open>src/\<close> and proves what they promise.

  \<^bold>\<open>Parts and theories.\<close>

  \<^item> \<open>internal/chat/conversation.go\<close> is \<open>Chat\<close>: messages, the byte-based unit estimate with checked 64-bit
    addition (\<open>addUnits\<close>, \<open>Estimate\<close>, \<open>Fits\<close>), and the conversation as a record of history and staged turn
    with \<open>Stage\<close>, \<open>Commit\<close>, \<open>Abort\<close> and \<open>Clear\<close>.  \<open>TurnStore\<close> is the interface the REPL needs of it, a locale
    whose laws \<open>Chat\<close> discharges: the history is always a recent window of the answered exchanges.  Whole turns
    refine \<open>ideal_turn\<close>, a run over lists of exchanges without staging, which fixes the history exactly.
  \<^item> \<open>internal/client/stream.go\<close> is \<open>Sse\<close> (lines and events over a buffered reader, with the size limits)
    and \<open>Decode\<close> (the JSON chunks, the decoding loop, the verdict on the finish reason).  \<open>Decode\<close> refines the byte
    loop to a definition over events, \<open>run_events\<close>.
  \<^item> \<open>internal/client/client.go\<close> is \<open>Redact\<close> (the streaming filter that keeps the bearer token off the
    screen, over the locale \<open>chunk_filter\<close>) and \<open>Client\<close> with \<open>ClientProps\<close> (options, request, response checks, error texts
    and their redaction, \<open>StreamResult\<close>, the idle watchdog).
  \<^item> \<open>internal/config/config.go\<close> is \<open>Config\<close>, with \<open>ConfigKeys\<close> (the duplicate key scan over decoder tokens),
    \<open>ConfigProps\<close> and \<open>ConfigParse\<close> (what is accepted, and that a printed configuration is read back).
  \<^item> \<open>internal/repl/*.go\<close> is \<open>ReplIO\<close> (bounded lines, JSONL records), \<open>Repl\<close> (one iteration of \<open>runOpts\<close> as
    \<open>repl_step\<close>, commands, turns, exit codes, the interrupt cause) and \<open>ReplLines\<close>, \<open>ReplProps\<close>, \<open>ReplRun\<close>,
    \<open>ReplRunProps\<close> with its properties; \<open>silent_completion\<close> is the contract of the client the JSONL mode rests on.
  \<^item> \<open>main.go\<close> is \<open>Cli\<close>, over the flag parser of \<open>GoFlag\<close>.
  \<^item> \<open>internal/mockllm/*.go\<close> is \<open>MockWire\<close> (segments and events), \<open>MockCatalog\<close> (the registry and all 47
    scenarios), \<open>MockRecorder\<close>, \<open>MockServer\<close> (the handler), \<open>MockLife\<close> (a step relation for the
    interleavings of \<open>Start\<close>, \<open>Close\<close> and the serving goroutine, with its invariants as instances of the
    locale \<open>stable\<close>), \<open>MockProps\<close> (the registry as a \<open>named_store\<close>, the gate and the records), and
    \<open>MockDecode\<close>, \<open>MockClient\<close>, \<open>MockOutcomes\<close> (the client and the mock put together, the last for every
    streaming scenario); \<open>cmd/radichat-mock/main.go\<close> is \<open>MockCli\<close>.
  \<^item> \<open>Prelude\<close>, \<open>Readers\<close>, \<open>GoText\<close>, \<open>GoJson\<close>, \<open>JsonTokens\<close>, \<open>GoUrl\<close>, \<open>GoNet\<close>, \<open>JsonFuel\<close>, \<open>JsonPrint\<close>,
    \<open>JsonVisible\<close> and \<open>Utf8\<close> model the standard library as far as the sources use it: byte strings, readers, JSON parsing and
    printing with its token decoder, URLs, addresses, and the facts they share.

  \<^bold>\<open>How state and operations correspond.\<close>  A Go string or byte slice is a \<open>string\<close> of bytes; an \<open>int\<close> or
  \<open>int64\<close> whose overflow the code checks is an \<open>int64\<close> word, other integers are \<open>int\<close> or \<open>nat\<close>.  A struct is a record
  with the fields' names behind a short prefix, an error is a value of the component's error datatype, and
  \<open>error_text\<close> gives its message.  A method that changes its receiver returns the new one.  A
  callback is a function on the caller's state, so what the REPL prints and what the filter holds back is that
  state.  Loops are structural or have their termination proved by the bytes left to read, the REPL's loop
  (\<open>run_loop\<close>) included.

  \<^bold>\<open>What the lemmas show.\<close>  Conversation: staging trims as little as possible, fits exactly when the
  unbounded sum fits, the history is exactly that of the abstract run, and failed turns leave no trace.  Stream: framing, decoding and limits agree with
  their specification on events; success needs \<open>[DONE]\<close>; what is delivered is what is assembled.  Secrecy: with a token that
  the replacement text cannot rebuild, neither the output, the text nor an error contains it.
  Configuration: what is accepted is exactly what is documented, up to the findings listed in the
  manifest.  REPL: a run is a sequence of turns, its records are the log in input order and read back, the exit
  code follows from them (both for a record writer that takes everything, \<open>records_kept\<close>; a record that
  cannot be written ends the run), and standard output holds records only in JSONL mode.  Command: nothing is
  created or sent before everything is validated.  Mock: the catalog is complete, wires are cut without loss, the gate,
  the records and the loopback check do what they say, closing works after starting (and may be lost
  during it), and client and mock understand each other.

  \<^bold>\<open>Bounds and fuel.\<close>  The JSON parser carries the depth limit of \<open>encoding/json\<close> (10000) and, as fuel, twice the length
  of the text and two; \<open>JsonFuel\<close> proves that more fuel never changes the result.  The IPv6 parser makes at most nine rounds of two
  bytes.

  \<^bold>\<open>Parameters.\<close>  The network, the file system, the environment variables, the printable runes of \<open>%q\<close>, the
  host parser for IPv6 literals in URLs, and what a context says when it is polled are arguments of the
  definitions that use them.

  \<^bold>\<open>Not modelled.\<close>  The transport settings and what \<open>net/http\<close> adds to a request or response; the race in
  \<open>ReadLine\<close> between the reading goroutine and the context (its winner is an input of the model); the
  delivery of signals; the elapsed time of a delay; \<open>internal/discovery\<close>, which holds only a package comment beside its
  build-tagged tests; scripts, workflows, containers and documents.

  \<^bold>\<open>Abstractions.\<close>  The stream limit plus one, which the client reads at most, is an unbounded number (Go
  wraps it only for the largest \<open>int64\<close>).  \<open>StreamResult\<close> reads the flag of a sent request twice, once for a
  transport failure and once for a stream; the network answers it once, with the outcome of the exchange.  An error of
  the body or of the input that itself wraps the context's cancellation is a plain read failure in the
  model; cancellations reach it through the polls of the context and the interrupt of \<open>ReadLine\<close>.
\<close>

end
